(* ===== verification/Prelude.thy ===== *)
theory Prelude
  imports Main "HOL-Library.Word" "HOL-Library.Sublist"
begin

text \<open>
  Shared vocabulary of the development: Rust results as sums, byte strings,
  and the number formatting and parsing of the standard library that several
  components use (\<open>{:x}\<close>, \<open>{:016x}\<close>, \<open>{}\<close>, \<open>from_str_radix\<close>, \<open>str::parse\<close>).

  A Rust \<open>str\<close> or \<open>[u8]\<close> is a \<^typ>\<open>string\<close>: a list of bytes, each one a \<^typ>\<open>char\<close>.
  A \<open>Result\<close> is a sum whose left summand is the error.
\<close>

named_theorems splits \<open>case splits that the component proofs share\<close>

declare prod.splits [splits] sum.splits [splits] option.splits [splits] if_splits [splits]

section \<open>Results\<close>

type_synonym ('e, 'a) result = "'e + 'a"

fun is_ok :: "('e, 'a) result \<Rightarrow> bool" where
  "is_ok (Inl _) = False"
| "is_ok (Inr _) = True"

lemma is_ok_iff: "is_ok r \<longleftrightarrow> (\<exists>x. r = Inr x)"
  by (cases r) auto

lemma not_is_ok_iff: "\<not> is_ok r \<longleftrightarrow> (\<exists>e. r = Inl e)"
  by (cases r) auto

section \<open>Splitting byte strings\<close>

text \<open>\<open>str::split_once\<close> on a single-byte delimiter: the text before and after the first occurrence.\<close>

fun split_once :: "char \<Rightarrow> string \<Rightarrow> (string \<times> string) option" where
  "split_once d [] = None"
| "split_once d (c # cs) =
     (if c = d then Some ([], cs) else map_option (\<lambda>(a, b). (c # a, b)) (split_once d cs))"

lemma split_once_Some:
  "split_once d s = Some (a, b) \<longleftrightarrow> s = a @ d # b \<and> d \<notin> set a"
proof (induction s arbitrary: a)
  case (Cons c cs)
  then show ?case by (cases a) (auto split: if_splits)
qed auto

lemma split_once_append [simp]: "d \<notin> set a \<Longrightarrow> split_once d (a @ d # b) = Some (a, b)"
  by (simp add: split_once_Some)

lemma split_once_None: "split_once d s = None \<longleftrightarrow> d \<notin> set s"
  by (induction s) auto

text \<open>\<open>str::strip_prefix\<close> and \<open>str::strip_suffix\<close>.\<close>

fun strip_prefix :: "string \<Rightarrow> string \<Rightarrow> string option" where
  "strip_prefix [] s = Some s"
| "strip_prefix (p # ps) [] = None"
| "strip_prefix (p # ps) (c # cs) = (if p = c then strip_prefix ps cs else None)"

definition strip_suffix :: "string \<Rightarrow> string \<Rightarrow> string option" where
  "strip_suffix p s = map_option rev (strip_prefix (rev p) (rev s))"

lemma strip_prefix_Some: "strip_prefix p s = Some r \<longleftrightarrow> s = p @ r"
  by (induction p s rule: strip_prefix.induct) auto

lemma strip_suffix_Some: "strip_suffix p s = Some r \<longleftrightarrow> s = r @ p"
  by (auto simp: strip_suffix_def strip_prefix_Some) (metis rev_append rev_rev_ident)

lemma strip_prefix_append [simp]: "strip_prefix p (p @ r) = Some r"
  by (simp add: strip_prefix_Some)

lemma strip_suffix_append [simp]: "strip_suffix p (r @ p) = Some r"
  by (simp add: strip_suffix_Some)

section \<open>Numbers in a radix\<close>

text \<open>\<open>str::split_once\<close> with a text as the delimiter.\<close>

fun split_once_str :: "string \<Rightarrow> string \<Rightarrow> (string \<times> string) option" where
  "split_once_str pat [] = (if pat = [] then Some ([], []) else None)"
| "split_once_str pat (c # cs) =
     (case strip_prefix pat (c # cs) of
        Some r \<Rightarrow> Some ([], r)
      | None \<Rightarrow> map_option (\<lambda>(a, b). (c # a, b)) (split_once_str pat cs))"

text \<open>One digit as \<open>core::fmt\<close> writes it, lower case, for radices up to sixteen.\<close>

definition digit_char :: "nat \<Rightarrow> char" where
  "digit_char d = (if d < 10 then char_of (48 + d) else char_of (87 + d))"

text \<open>\<open>char::to_digit\<close>: decimal digits and letters of either case, when below the radix.\<close>

definition to_digit :: "nat \<Rightarrow> char \<Rightarrow> nat option" where
  "to_digit radix c =
     (let b = of_char c :: nat;
          v = (if 48 \<le> b \<and> b \<le> 57 then Some (b - 48)
               else if 97 \<le> b \<and> b \<le> 122 then Some (b - 87)
               else if 65 \<le> b \<and> b \<le> 90 then Some (b - 55)
               else None)
      in case v of None \<Rightarrow> None | Some d \<Rightarrow> if d < radix then Some d else None)"

lemma to_digit_lt: "to_digit radix c = Some d \<Longrightarrow> d < radix"
  by (auto simp: to_digit_def Let_def split: option.splits if_splits)

lemma of_char_digit_char:
  "d < 36 \<Longrightarrow> (of_char (digit_char d) :: nat) = (if d < 10 then 48 + d else 87 + d)"
  by (simp add: digit_char_def of_char_of)

lemma to_digit_digit_char [simp]: "d < radix \<Longrightarrow> radix \<le> 36 \<Longrightarrow> to_digit radix (digit_char d) = Some d"
  by (auto simp: to_digit_def of_char_digit_char Let_def)

function show_radix :: "nat \<Rightarrow> nat \<Rightarrow> string" where
  "show_radix r n =
     (if r < 2 \<or> n < r then [digit_char n] else show_radix r (n div r) @ [digit_char (n mod r)])"
  by auto
termination
  by (relation "measure snd") (auto intro: div_less_dividend)

declare show_radix.simps [simp del]

text \<open>The accumulating loop of \<open>from_str_radix\<close> with its overflow checks: \<open>None\<close> is any parse error.\<close>

fun parse_digits :: "nat \<Rightarrow> nat \<Rightarrow> nat \<Rightarrow> string \<Rightarrow> nat option" where
  "parse_digits r bound acc [] = Some acc"
| "parse_digits r bound acc (c # cs) =
     (case to_digit r c of
        None \<Rightarrow> None
      | Some d \<Rightarrow> if acc * r + d < bound then parse_digits r bound (acc * r + d) cs else None)"

text \<open>\<open>from_str_radix\<close> of an unsigned type with \<open>bound\<close> values: a leading plus is accepted, an
  empty text or a lone sign is not.\<close>

definition from_str_radix :: "nat \<Rightarrow> nat \<Rightarrow> string \<Rightarrow> nat option" where
  "from_str_radix r bound s =
     (case s of
        [] \<Rightarrow> None
      | c # cs \<Rightarrow> if c = CHR ''+'' \<and> cs \<noteq> [] then parse_digits r bound 0 cs
                 else parse_digits r bound 0 s)"

definition pad_left :: "nat \<Rightarrow> char \<Rightarrow> string \<Rightarrow> string" where
  "pad_left w c s = replicate (w - length s) c @ s"

definition show_nat :: "nat \<Rightarrow> string" where
  "show_nat n = show_radix 10 n"

definition parse_nat :: "nat \<Rightarrow> string \<Rightarrow> nat option" where
  "parse_nat bound s = from_str_radix 10 bound s"

text \<open>\<open>{:0w x}\<close>.\<close>

definition hex_padded :: "nat \<Rightarrow> nat \<Rightarrow> string" where
  "hex_padded w n = pad_left w (CHR ''0'') (show_radix 16 n)"


lemma parse_digits_append:
  "parse_digits r b acc (xs @ ys) =
     (case parse_digits r b acc xs of None \<Rightarrow> None | Some v \<Rightarrow> parse_digits r b v ys)"
  by (induction xs arbitrary: acc) (auto split: option.splits)

lemma parse_digits_bound: "parse_digits r b acc s = Some n \<Longrightarrow> acc < b \<Longrightarrow> n < b"
  by (induction s arbitrary: acc) (auto split: option.splits if_splits)

lemma parse_digits_zeros [simp]:
  "0 < b \<Longrightarrow> 0 < r \<Longrightarrow> parse_digits r b 0 (replicate k (CHR ''0'') @ s) = parse_digits r b 0 s"
  by (induction k) (auto simp: to_digit_def)

lemma parse_digits_all: "parse_digits r b acc s = Some n \<Longrightarrow> c \<in> set s \<Longrightarrow> to_digit r c \<noteq> None"
  by (induction s arbitrary: acc) (auto split: option.splits if_splits)

lemma from_str_radix_digits:
  "from_str_radix r b s = Some n \<Longrightarrow> c \<in> set s \<Longrightarrow> c = CHR ''+'' \<or> to_digit r c \<noteq> None"
  by (auto simp: from_str_radix_def simp del: parse_digits.simps split: list.splits if_splits
      dest: parse_digits_all)

lemma to_digit_dash [simp]: "to_digit r (CHR ''-'') = None"
  by (simp add: to_digit_def)

lemma from_str_radix_no_dash: "from_str_radix r b s = Some n \<Longrightarrow> CHR ''-'' \<notin> set s"
  by (auto dest: from_str_radix_digits)

lemma show_radix_nonempty [simp]: "show_radix r n \<noteq> []"
  by (subst show_radix.simps) simp

lemma parse_digits_show_radix:
  assumes "2 \<le> r" "r \<le> 36" "n < b"
  shows "parse_digits r b 0 (show_radix r n) = Some n"
  using assms
proof (induction r n rule: show_radix.induct)
  case (1 r n)
  show ?case
  proof (cases "n < r")
    case True
    then show ?thesis using 1 by (simp add: show_radix.simps [of r n])
  next
    case False
    have "n div r < b" using 1 by (meson div_le_dividend le_less_trans)
    then have "parse_digits r b 0 (show_radix r (n div r)) = Some (n div r)" using 1 False by simp
    moreover have "show_radix r n = show_radix r (n div r) @ [digit_char (n mod r)]"
      using False 1 by (simp add: show_radix.simps [of r n])
    ultimately show ?thesis using 1 by (simp add: parse_digits_append)
  qed
qed

lemma digit_char_range:
  assumes "d < 36"
  shows "(of_char (digit_char d) :: nat) \<in> {48..57} \<union> {97..122}"
  using assms by (auto simp: of_char_digit_char)

lemma digit_char_neq [simp]:
  assumes "d < 36" "(of_char c :: nat) < 48"
  shows "digit_char d \<noteq> c" "c \<noteq> digit_char d"
  using assms digit_char_range [of d] by auto

lemma show_radix_chars:
  assumes "2 \<le> r" "c \<in> set (show_radix r n)"
  obtains d where "d < r" "c = digit_char d"
proof -
  have "\<exists>d < r. c = digit_char d"
    using assms
  proof (induction r n rule: show_radix.induct)
    case (1 r n)
    then show ?case
      by (subst (asm) (2) show_radix.simps) (auto split: if_splits intro: exI [of _ "n mod r"])
  qed
  then show thesis using that by blast
qed

lemma show_radix_no_low:
  assumes "2 \<le> r" "r \<le> 36" "(of_char c :: nat) < 48"
  shows "c \<notin> set (show_radix r n)"
  using assms by (auto elim!: show_radix_chars) (meson digit_char_neq(2) le_trans less_le_trans)

lemma from_str_radix_no_sign:
  "s \<noteq> [] \<Longrightarrow> CHR ''+'' \<notin> set s \<Longrightarrow> from_str_radix r b s = parse_digits r b 0 s"
  by (cases s) (auto simp: from_str_radix_def)

lemma parse_nat_show_nat [simp]: "n < b \<Longrightarrow> parse_nat b (show_nat n) = Some n"
  by (simp add: parse_nat_def show_nat_def from_str_radix_no_sign show_radix_no_low
      parse_digits_show_radix)

lemma show_nat_inj [simp]: "show_nat m = show_nat n \<longleftrightarrow> m = n"
proof
  assume eq: "show_nat m = show_nat n"
  have "Some m = parse_nat (Suc (m + n)) (show_nat m)" by simp
  also have "\<dots> = Some n" by (simp add: eq)
  finally show "m = n" by simp
qed simp

lemma show_nat_no_low: "(of_char c :: nat) < 48 \<Longrightarrow> c \<notin> set (show_nat n)"
  by (simp add: show_nat_def show_radix_no_low)

lemma show_nat_nonempty [simp]: "show_nat n \<noteq> []"
  by (simp add: show_nat_def)

subsection \<open>Fixed width\<close>

text \<open>The digits of a number at a fixed width; padding produces exactly this.\<close>

fun fixed_digits :: "nat \<Rightarrow> nat \<Rightarrow> nat \<Rightarrow> string" where
  "fixed_digits r 0 n = []"
| "fixed_digits r (Suc w) n = fixed_digits r w (n div r) @ [digit_char (n mod r)]"

lemma length_fixed_digits [simp]: "length (fixed_digits r w n) = w"
  by (induction w arbitrary: n) auto

lemma fixed_digits_chars:
  "0 < r \<Longrightarrow> c \<in> set (fixed_digits r w n) \<Longrightarrow> \<exists>d < r. c = digit_char d"
  by (induction w arbitrary: n) (auto intro: mod_less_divisor)

lemma digit_char_0 [simp]: "digit_char 0 = CHR ''0''"
  by code_simp

lemma fixed_digits_zero: "fixed_digits r w 0 = replicate w (CHR ''0'')"
  by (induction w) (auto simp: replicate_append_same [symmetric])

lemma pad_left_show_radix:
  assumes "2 \<le> r" "n < r ^ w" "0 < w"
  shows "length (show_radix r n) \<le> w \<and> pad_left w (CHR ''0'') (show_radix r n) = fixed_digits r w n"
  using assms(2,3)
proof (induction w arbitrary: n)
  case (Suc w)
  show ?case
  proof (cases "n < r")
    case True
    then show ?thesis by (simp add: show_radix.simps [of r n] pad_left_def fixed_digits_zero)
  next
    case False
    have lt: "n div r < r ^ w" using Suc.prems assms(1) by (simp add: less_mult_imp_div_less mult.commute)
    have "0 < w" using False Suc.prems by (cases w) auto
    note IH = Suc.IH [OF lt this]
    have "show_radix r n = show_radix r (n div r) @ [digit_char (n mod r)]"
      using False assms(1) by (simp add: show_radix.simps [of r n])
    then show ?thesis using IH by (auto simp: pad_left_def)
  qed
qed simp

lemma hex_padded_fixed: "n < 16 ^ w \<Longrightarrow> 0 < w \<Longrightarrow> hex_padded w n = fixed_digits 16 w n"
  using pad_left_show_radix [of 16 n w] by (simp add: hex_padded_def)

definition is_lower_hex :: "char \<Rightarrow> bool" where
  "is_lower_hex c = (let b = of_char c :: nat in (48 \<le> b \<and> b \<le> 57) \<or> (97 \<le> b \<and> b \<le> 102))"

lemma is_lower_hex_digit_char [simp]: "d < 16 \<Longrightarrow> is_lower_hex (digit_char d)"
  by (auto simp: is_lower_hex_def of_char_digit_char Let_def)

lemma lower_hex_digit:
  assumes "is_lower_hex c" "to_digit 16 c = Some d"
  shows "c = digit_char d"
proof -
  have "(of_char (digit_char d) :: nat) = of_char c"
    using assms to_digit_lt [OF assms(2)]
    by (auto simp: of_char_digit_char is_lower_hex_def to_digit_def Let_def split: if_splits)
  then show ?thesis by simp
qed

lemma parse_digits_hex_exact:
  assumes "parse_digits 16 b 0 s = Some n" "\<forall>c \<in> set s. is_lower_hex c"
  shows "fixed_digits 16 (length s) n = s \<and> n < 16 ^ length s"
  using assms
proof (induction s arbitrary: n rule: rev_induct)
  case (snoc c cs)
  then obtain v d where v: "parse_digits 16 b 0 cs = Some v" and d: "to_digit 16 c = Some d"
    and n: "n = v * 16 + d"
    by (auto simp: parse_digits_append split: option.splits if_splits)
  have IH: "fixed_digits 16 (length cs) v = cs" "v < 16 ^ length cs" using snoc v by auto
  have "d < 16" "c = digit_char d" using to_digit_lt [OF d] lower_hex_digit [OF _ d] snoc.prems by auto
  then show ?case using IH n by auto
qed simp

lemma parse_digits_fixed:
  assumes "n < b" "n < 16 ^ w" "0 < w"
  shows "parse_digits 16 b 0 (fixed_digits 16 w n) = Some n"
proof -
  have "fixed_digits 16 w n = replicate (w - length (show_radix 16 n)) (CHR ''0'') @ show_radix 16 n"
    using pad_left_show_radix [of 16 n w] assms by (simp add: pad_left_def)
  then show ?thesis using assms by (simp add: parse_digits_show_radix)
qed

section \<open>Machine arithmetic\<close>

text \<open>\<open>saturating_add\<close> and \<open>checked_add\<close> of the unsigned types.\<close>

definition saturating_add :: "'a::len word \<Rightarrow> 'a word \<Rightarrow> 'a word" where
  "saturating_add a b = (if unat a + unat b < 2 ^ LENGTH('a) then a + b else - 1)"

definition checked_add :: "'a::len word \<Rightarrow> 'a word \<Rightarrow> 'a word option" where
  "checked_add a b = (if unat a + unat b < 2 ^ LENGTH('a) then Some (a + b) else None)"

lemma unat_lt: "unat (a :: 'a::len word) < 2 ^ LENGTH('a)"
  by (rule unsigned_less)

lemma unat_eq_iff: "unat a = unat b \<longleftrightarrow> a = b"
  by (auto intro: unsigned_word_eqI)

lemma unat_add_lt:
  fixes a b :: "'a::len word"
  shows "unat a + unat b < 2 ^ LENGTH('a) \<Longrightarrow> unat (a + b) = unat a + unat b"
  by (simp add: unat_word_ariths)

lemma unat_saturating_add:
  fixes a b :: "'a::len word"
  shows "unat (saturating_add a b) = min (unat a + unat b) (2 ^ LENGTH('a) - 1)"
  using unat_lt [of "saturating_add a b"]
  by (auto simp: saturating_add_def unat_add_lt unsigned_minus_1_eq_mask mask_eq_exp_minus_1 min_def)

lemma unat_checked_add: "checked_add a b = Some c \<Longrightarrow> unat c = unat a + unat b"
  by (auto simp: checked_add_def unat_add_lt split: if_splits)

end
