(* ===== verification/Core_Types.thy ===== *)
theory Core_Types
  imports Prelude
begin

text \<open>
  The data every component shares: epochs (\<open>epoch.rs\<close>), core kinds and error kinds
  (\<open>nyanpasu-core-metadata\<close>), the domain error with its text and classification (\<open>error.rs\<close>),
  the instance and manager states with the published status (\<open>state.rs\<close>), and the outcomes of the
  transactions (\<open>manager/mod.rs\<close>).

  The contents of foreign error types (process, HTTP, YAML, I/O) are their rendered text; an I/O
  error also keeps the kind the code branches on.  Paths are byte strings.  Clock readings are
  integers.
\<close>

section \<open>Epochs\<close>

datatype epoch = Epoch (epoch_get: "64 word")

text \<open>\<open>Epoch::new\<close>, and \<open>TryFrom<u64>\<close>, which accepts the same numbers.\<close>

definition epoch_new :: "64 word \<Rightarrow> epoch option" where
  "epoch_new v = (if v = 0 then None else Some (Epoch v))"

definition display_epoch :: "epoch \<Rightarrow> string" where
  "display_epoch e = show_nat (unat (epoch_get e))"

instantiation epoch :: linorder
begin

definition less_eq_epoch :: "epoch \<Rightarrow> epoch \<Rightarrow> bool" where
  "less_eq_epoch a b = (epoch_get a \<le> epoch_get b)"

definition less_epoch :: "epoch \<Rightarrow> epoch \<Rightarrow> bool" where
  "less_epoch a b = (epoch_get a < epoch_get b)"

instance
  by standard (auto simp: less_eq_epoch_def less_epoch_def epoch.expand)

end

lemma epoch_new_nonzero: "epoch_new v = Some e \<Longrightarrow> epoch_get e \<noteq> 0"
  by (auto simp: epoch_new_def split: if_splits)

lemma display_epoch_inj [simp]: "display_epoch a = display_epoch b \<longleftrightarrow> a = b"
  by (cases a; cases b) (auto simp: display_epoch_def unsigned_word_eqI)

section \<open>Kinds\<close>

datatype core_kind = Mihomo | ClashRust | ClashPremium | Meow

fun core_kind_str :: "core_kind \<Rightarrow> string" where
  "core_kind_str Mihomo = ''mihomo''"
| "core_kind_str ClashRust = ''clash-rs''"
| "core_kind_str ClashPremium = ''clash''"
| "core_kind_str Meow = ''meow''"

datatype core_error_kind =
    KNotStarted | KAlreadyRunning | KRevisionConflict | KQuarantined | KConfigCheckFailed
  | KConfigNotFound | KBinaryNotFound | KInvalidConfig | KControllerMissing | KApplyFailed
  | KApplyRollbackFailed | KStopUnconfirmed | KShuttingDown | KQueueFull | KOperationConflict
  | KBackendUnavailable | KInternal

definition all_error_kinds :: "core_error_kind list" where
  "all_error_kinds =
     [KNotStarted, KAlreadyRunning, KRevisionConflict, KQuarantined, KConfigCheckFailed,
      KConfigNotFound, KBinaryNotFound, KInvalidConfig, KControllerMissing, KApplyFailed,
      KApplyRollbackFailed, KStopUnconfirmed, KShuttingDown, KQueueFull, KOperationConflict,
      KBackendUnavailable, KInternal]"

fun error_kind_str :: "core_error_kind \<Rightarrow> string" where
  "error_kind_str KNotStarted = ''not_started''"
| "error_kind_str KAlreadyRunning = ''already_running''"
| "error_kind_str KRevisionConflict = ''revision_conflict''"
| "error_kind_str KQuarantined = ''quarantined''"
| "error_kind_str KConfigCheckFailed = ''config_check_failed''"
| "error_kind_str KConfigNotFound = ''config_not_found''"
| "error_kind_str KBinaryNotFound = ''binary_not_found''"
| "error_kind_str KInvalidConfig = ''invalid_config''"
| "error_kind_str KControllerMissing = ''controller_missing''"
| "error_kind_str KApplyFailed = ''apply_failed''"
| "error_kind_str KApplyRollbackFailed = ''apply_rollback_failed''"
| "error_kind_str KStopUnconfirmed = ''stop_unconfirmed''"
| "error_kind_str KShuttingDown = ''shutting_down''"
| "error_kind_str KQueueFull = ''queue_full''"
| "error_kind_str KOperationConflict = ''operation_conflict''"
| "error_kind_str KBackendUnavailable = ''backend_unavailable''"
| "error_kind_str KInternal = ''internal''"

fun default_retryable :: "core_error_kind \<Rightarrow> bool" where
  "default_retryable k = (k = KQueueFull \<or> k = KBackendUnavailable)"

definition error_kind_from_wire :: "string \<Rightarrow> core_error_kind option" where
  "error_kind_from_wire v = find (\<lambda>k. error_kind_str k = v) all_error_kinds"

lemma error_kind_from_wire_str [simp]: "error_kind_from_wire (error_kind_str k) = Some k"
  by (cases k) (simp_all add: error_kind_from_wire_def all_error_kinds_def)

section \<open>Revisions\<close>

record revision_id =
  rid_epoch :: epoch
  rid_generation :: "64 word"
  rid_effective_hash :: string

record config_revision =
  rev_epoch :: epoch
  rev_generation :: "64 word"
  rev_source_hash :: string
  rev_effective_hash :: string
  rev_runtime_path :: string

definition revision_id_of :: "config_revision \<Rightarrow> revision_id" where
  "revision_id_of r =
     \<lparr>rid_epoch = rev_epoch r, rid_generation = rev_generation r,
      rid_effective_hash = rev_effective_hash r\<rparr>"

definition display_revision_id :: "revision_id \<Rightarrow> string" where
  "display_revision_id r =
     ''epoch '' @ display_epoch (rid_epoch r) @ '' generation '' @ show_nat (unat (rid_generation r))
       @ '' ('' @ rid_effective_hash r @ '')''"

text \<open>The derived \<open>Debug\<close> form inside the conflict message.  The hash the manager reports is
  hexadecimal, so no character of it is escaped.\<close>

definition debug_revision_id :: "revision_id option \<Rightarrow> string" where
  "debug_revision_id r =
     (case r of
        None \<Rightarrow> ''None''
      | Some i \<Rightarrow>
          ''Some(RevisionId { epoch: Epoch('' @ display_epoch (rid_epoch i) @ ''), generation: ''
            @ show_nat (unat (rid_generation i)) @ '', effective_hash: '' @ [CHR 0x22]
            @ rid_effective_hash i @ [CHR 0x22] @ '' })'')"

section \<open>Errors\<close>

datatype io_kind = NotFound | OtherKind

datatype io_error = IoError (io_kind: io_kind) (io_text: string)

datatype error =
    AlreadyRunning
  | NotStarted
  | ConfigNotFound string
  | BinaryNotFound string
  | CoreVersionProbeFailed string string
  | ControllerMissing
  | RequiredLocalIpcUnsupported core_kind string
  | ConfigCheckFailed string
  | InvalidConfig string
  | InvalidManagerOptions string
  | InvalidHealthPolicy string
  | UnsafeRuntimeArtifact string
  | RuntimeDirectoryOwned string
  | StopUnconfirmed string
  | ManagerQuarantined epoch string
  | RevisionConflict revision_id "revision_id option"
  | ApplyFailed string
  | ApplyRollbackFailed string string
  | DurabilityUncertain error string
  | StartupTimeout string
  | StartupFailed string
  | Process string
  | Api string
  | Yaml string
  | Io io_error

fun error_kind :: "error \<Rightarrow> core_error_kind option" where
  "error_kind AlreadyRunning = Some KAlreadyRunning"
| "error_kind NotStarted = Some KNotStarted"
| "error_kind (ConfigNotFound _) = Some KConfigNotFound"
| "error_kind (BinaryNotFound _) = Some KBinaryNotFound"
| "error_kind ControllerMissing = Some KControllerMissing"
| "error_kind (ConfigCheckFailed _) = Some KConfigCheckFailed"
| "error_kind (InvalidConfig _) = Some KInvalidConfig"
| "error_kind (Yaml _) = Some KInvalidConfig"
| "error_kind (StopUnconfirmed _) = Some KStopUnconfirmed"
| "error_kind (ManagerQuarantined _ _) = Some KQuarantined"
| "error_kind (RevisionConflict _ _) = Some KRevisionConflict"
| "error_kind (ApplyFailed _) = Some KApplyFailed"
| "error_kind (ApplyRollbackFailed _ _) = Some KApplyRollbackFailed"
| "error_kind (DurabilityUncertain source _) = error_kind source"
| "error_kind (CoreVersionProbeFailed _ _) = None"
| "error_kind (RequiredLocalIpcUnsupported _ _) = None"
| "error_kind (InvalidManagerOptions _) = None"
| "error_kind (InvalidHealthPolicy _) = None"
| "error_kind (UnsafeRuntimeArtifact _) = None"
| "error_kind (RuntimeDirectoryOwned _) = None"
| "error_kind (StartupTimeout _) = None"
| "error_kind (StartupFailed _) = None"
| "error_kind (Process _) = None"
| "error_kind (Api _) = None"
| "error_kind (Io _) = None"

fun error_to_string :: "error \<Rightarrow> string" where
  "error_to_string AlreadyRunning = ''core is already running''"
| "error_to_string NotStarted = ''core is not running''"
| "error_to_string (ConfigNotFound p) = ''config file not found: '' @ p"
| "error_to_string (BinaryNotFound p) = ''core binary not found: '' @ p"
| "error_to_string (CoreVersionProbeFailed p d) =
     ''failed to probe version from core binary `'' @ p @ ''`: '' @ d"
| "error_to_string ControllerMissing =
     ''no external controller configured; the version health probe needs one''"
| "error_to_string (RequiredLocalIpcUnsupported k v) =
     ''core `'' @ core_kind_str k @ ''` version `'' @ v
       @ ''` does not support the required local IPC transport; use LocalIpcPolicy::Prefer or LocalIpcPolicy::Disable''"
| "error_to_string (ConfigCheckFailed m) = ''config check failed: '' @ m"
| "error_to_string (InvalidConfig m) = ''invalid runtime config: '' @ m"
| "error_to_string (InvalidManagerOptions m) = ''invalid manager options: '' @ m"
| "error_to_string (InvalidHealthPolicy m) = ''invalid health policy: '' @ m"
| "error_to_string (UnsafeRuntimeArtifact p) = ''unsafe runtime artifact: '' @ p"
| "error_to_string (RuntimeDirectoryOwned p) =
     ''runtime directory is already owned by another manager: '' @ p"
| "error_to_string (StopUnconfirmed m) = ''core process death could not be confirmed: '' @ m"
| "error_to_string (ManagerQuarantined e r) =
     ''manager is quarantined by uncertain epoch '' @ display_epoch e @ '': '' @ r"
| "error_to_string (RevisionConflict x a) =
     ''config revision conflict: expected '' @ display_revision_id x @ '', actual ''
       @ debug_revision_id a"
| "error_to_string (ApplyFailed m) = ''config apply failed: '' @ m"
| "error_to_string (ApplyRollbackFailed a r) =
     ''config apply failed ('' @ a @ ''); rollback also failed ('' @ r @ '')''"
| "error_to_string (DurabilityUncertain source w) =
     error_to_string source @ ''; runtime durability warning: '' @ w"
| "error_to_string (StartupTimeout t) =
     ''core did not become healthy before the startup timeout; diagnostic log tail:'' @ [CHR 0x0A] @ t"
| "error_to_string (StartupFailed t) =
     ''core failed to start; diagnostic log tail:'' @ [CHR 0x0A] @ t"
| "error_to_string (Process m) = m"
| "error_to_string (Api m) = m"
| "error_to_string (Yaml m) = ''failed to process config YAML: '' @ m"
| "error_to_string (Io e) = io_text e"

text \<open>The file-system errors of the atomic replacement library, converted by \<open>From<AtomicFsError>\<close>.\<close>

datatype atomic_fs_error = UnsafePath string | Contended string | AtomicIo io_error

fun from_atomic_fs_error :: "atomic_fs_error \<Rightarrow> error" where
  "from_atomic_fs_error (UnsafePath p) = UnsafeRuntimeArtifact p"
| "from_atomic_fs_error (Contended p) = RuntimeDirectoryOwned p"
| "from_atomic_fs_error (AtomicIo e) = Io e"

section \<open>States\<close>

type_synonym uuid = nat
type_synonym millis = int

datatype health_state = HStarting | HHealthy | HUnhealthy

record health_status =
  h_state :: health_state
  h_changed_at :: millis
  h_consecutive_failures :: "32 word"
  h_last_error :: "string option"
  h_last_success_at :: "millis option"

definition health_starting :: "millis \<Rightarrow> health_status" where
  "health_starting now =
     \<lparr>h_state = HStarting, h_changed_at = now, h_consecutive_failures = 0, h_last_error = None,
      h_last_success_at = None\<rparr>"

datatype stop_reason = Finished | User | ErrorReason string

fun display_stop_reason :: "stop_reason \<Rightarrow> string" where
  "display_stop_reason Finished = ''core exited''"
| "display_stop_reason User = ''stopped by user''"
| "display_stop_reason (ErrorReason m) = m"

datatype instance_state =
    IStarting
  | IRunning "32 word"
  | IRestarting "32 word"
  | IStopping
  | IStopped stop_reason

fun is_terminal :: "instance_state \<Rightarrow> bool" where
  "is_terminal (IStopped _) = True"
| "is_terminal _ = False"

record instance_status =
  i_instance_id :: "uuid option"
  i_state :: instance_state
  i_health :: "health_status option"

definition instance_status_initial :: "millis \<Rightarrow> instance_status" where
  "instance_status_initial now =
     \<lparr>i_instance_id = None, i_state = IStarting, i_health = Some (health_starting now)\<rparr>"

datatype core_state =
    CStopped "stop_reason option"
  | CStarting epoch
  | CRunning epoch "32 word"
  | CRestarting epoch "32 word"
  | CSwitching "epoch option" epoch
  | CStopping epoch

text \<open>A parsed URL, as far as the API client looks at it: \<open>url_prefix\<close> is the text before the path.\<close>

record url =
  url_scheme :: string
  url_prefix :: string
  url_path :: string
  url_query :: "string option"
  url_fragment :: "string option"
  url_cannot_be_a_base :: bool

text \<open>The controller transport of the API client: a pipe, a socket or a base URL.\<close>

datatype host = NamedPipe string | UnixSocket string | Http url

datatype feature = NamedPipeIpc | UnixSocketIpc | DisableTcpController | NamedPipeSecurityDescriptor

datatype runtime_feature = LocalIpc

record spec_summary =
  sum_kind :: core_kind
  sum_config_path :: string
  sum_capabilities :: "feature list"
  sum_runtime_features :: "runtime_feature list"

record core_status =
  st_instance_id :: "uuid option"
  st_state :: core_state
  st_changed_at :: millis
  st_health :: "health_status option"
  st_spec :: "spec_summary option"
  st_controller :: "host option"
  st_revision :: "config_revision option"

definition core_status_initial :: "millis \<Rightarrow> core_status" where
  "core_status_initial now =
     \<lparr>st_instance_id = None, st_state = CStopped None, st_changed_at = now, st_health = None,
      st_spec = None, st_controller = None, st_revision = None\<rparr>"

text \<open>Durations are nanoseconds.\<close>

type_synonym duration = nat

definition secs :: "nat \<Rightarrow> duration" where
  "secs n = n * 1000000000"

record resolved_controller =
  rc_host :: host
  rc_secret :: "string option"

section \<open>Outcomes\<close>

datatype degrade_reason =
  DNotRunning | DUnsupportedKind | DDnsListen | DInboundConflict | DPatchFailed | DHttpController

datatype switch_outcome =
    Graceful
  | Hard degrade_reason
  | SwitchDurabilityUncertain switch_outcome string

datatype apply_outcome =
    Started config_revision
  | Noop config_revision
  | Patched config_revision
  | Reloaded config_revision
  | Restarted config_revision
  | Switched config_revision
  | RolledBack config_revision string
  | ApplyDurabilityUncertain apply_outcome string

end
