(* ===== verification/Utf8.thy ===== *)
theory Utf8
  imports Prelude
begin

text \<open>
  Byte positions inside UTF-8 text.  The program truncates text in several places
  (\<open>health/mod.rs\<close>, \<open>log.rs\<close>) by walking back to a character boundary; this theory has
  \<open>str::is_char_boundary\<close>, the walk, and what it guarantees.
\<close>

text \<open>A continuation byte is one in \<open>0x80..0xBF\<close>.\<close>

definition is_continuation :: "char \<Rightarrow> bool" where
  "is_continuation c = (let b = of_char c :: nat in 128 \<le> b \<and> b < 192)"

definition is_char_boundary :: "string \<Rightarrow> nat \<Rightarrow> bool" where
  "is_char_boundary s i =
     (if i = 0 then True
      else if i < length s then \<not> is_continuation (s ! i)
      else i = length s)"

text \<open>The loop \<open>while !text.is_char_boundary(end) { end -= 1 }\<close>.  It ends at the latest at zero.\<close>

fun floor_char_boundary :: "string \<Rightarrow> nat \<Rightarrow> nat" where
  "floor_char_boundary s 0 = 0"
| "floor_char_boundary s (Suc i) =
     (if is_char_boundary s (Suc i) then Suc i else floor_char_boundary s i)"

lemma is_char_boundary_0 [simp]: "is_char_boundary s 0"
  by (simp add: is_char_boundary_def)

lemma is_char_boundary_length [simp]: "is_char_boundary s (length s)"
  by (simp add: is_char_boundary_def)

lemma floor_char_boundary_le: "floor_char_boundary s i \<le> i"
  by (induction i) (auto intro: le_SucI)

lemma floor_char_boundary_boundary: "is_char_boundary s (floor_char_boundary s i)"
  by (induction i) auto

lemma floor_char_boundary_greatest:
  "j \<le> i \<Longrightarrow> is_char_boundary s j \<Longrightarrow> j \<le> floor_char_boundary s i"
  by (induction i) (auto simp: le_Suc_eq)

lemma floor_char_boundary_id: "is_char_boundary s i \<Longrightarrow> floor_char_boundary s i = i"
  by (cases i) auto

section \<open>The shape of UTF-8 text\<close>

text \<open>How many bytes the lead byte announces; every Rust \<open>str\<close> is a sequence of a lead byte and
  the continuation bytes it announces (the standard's further restrictions on which scalar values
  may be encoded are not needed here).\<close>

definition utf8_width :: "char \<Rightarrow> nat" where
  "utf8_width c =
     (let b = of_char c :: nat in
      if b < 128 then 1 else if b < 224 then 2 else if b < 240 then 3 else 4)"

fun utf8_from :: "nat \<Rightarrow> string \<Rightarrow> bool" where
  "utf8_from 0 [] = True"
| "utf8_from (Suc k) [] = False"
| "utf8_from 0 (c # cs) = (\<not> is_continuation c \<and> utf8_from (utf8_width c - 1) cs)"
| "utf8_from (Suc k) (c # cs) = (is_continuation c \<and> utf8_from k cs)"

definition utf8 :: "string \<Rightarrow> bool" where
  "utf8 s = utf8_from 0 s"

lemma utf8_width_bounds: "1 \<le> utf8_width c" "utf8_width c \<le> 4"
  by (auto simp: utf8_width_def Let_def)

lemma utf8_from_boundary:
  assumes "utf8_from k s" "k \<le> 3" "i \<le> length s" "k \<le> i"
  shows "\<exists>j. j \<le> i \<and> i \<le> j + 3 \<and> k \<le> j \<and> (j = length s \<or> (j < length s \<and> \<not> is_continuation (s ! j)))"
  using assms
proof (induction k s arbitrary: i rule: utf8_from.induct)
  case (3 c cs)
  let ?k = "utf8_width c - 1"
  show ?case
  proof (cases "i \<le> ?k")
    case True
    then have "i \<le> 3" using utf8_width_bounds(2) [of c] by simp
    then show ?thesis using 3(2) by (intro exI [of _ 0]) simp
  next
    case False
    have prem: "utf8_from ?k cs" "?k \<le> 3" "i - 1 \<le> length cs" "?k \<le> i - 1"
      using 3(2,4) False utf8_width_bounds [of c] by auto
    obtain j where "j \<le> i - 1" "i - 1 \<le> j + 3" "?k \<le> j"
      "j = length cs \<or> (j < length cs \<and> \<not> is_continuation (cs ! j))"
      using 3(1) [OF prem] by blast
    then show ?thesis using False by (intro exI [of _ "Suc j"]) auto
  qed
next
  case (4 k c cs)
  have prem: "utf8_from k cs" "k \<le> 3" "i - 1 \<le> length cs" "k \<le> i - 1" using 4(2-5) by auto
  obtain j where "j \<le> i - 1" "i - 1 \<le> j + 3" "k \<le> j"
      "j = length cs \<or> (j < length cs \<and> \<not> is_continuation (cs ! j))"
    using 4(1) [OF prem] by blast
  then show ?case using 4(5) by (intro exI [of _ "Suc j"]) auto
qed auto

text \<open>On well-formed text the walk gives up at most three bytes.\<close>

lemma floor_char_boundary_close:
  assumes "utf8 s" "i \<le> length s"
  shows "i \<le> floor_char_boundary s i + 3"
proof -
  obtain j where j: "j \<le> i" "i \<le> j + 3" "j = length s \<or> (j < length s \<and> \<not> is_continuation (s ! j))"
    using utf8_from_boundary [of 0 s i] assms by (auto simp: utf8_def)
  then have "is_char_boundary s j" by (auto simp: is_char_boundary_def)
  from floor_char_boundary_greatest [OF j(1) this] j(2) show ?thesis by simp
qed

lemma utf8_from_take:
  assumes "utf8_from k s" "k \<le> i" "i < length s" "\<not> is_continuation (s ! i)"
  shows "utf8_from k (take i s)"
  using assms
proof (induction k s arbitrary: i rule: utf8_from.induct)
  case (3 c cs)
  show ?case
  proof (cases i)
    case (Suc j)
    have "utf8_width c - 1 \<le> j"
    proof (rule ccontr)
      assume "\<not> utf8_width c - 1 \<le> j"
      moreover have "utf8_from m t \<Longrightarrow> n < m \<Longrightarrow> n < length t \<Longrightarrow> is_continuation (t ! n)" for m t n
        by (induction m t arbitrary: n rule: utf8_from.induct) (auto simp: nth_Cons split: nat.splits)
      ultimately show False using 3 Suc by auto
    qed
    then show ?thesis using 3 Suc by auto
  qed simp
next
  case (4 k c cs)
  then show ?case by (cases i) auto
qed auto

lemma utf8_take: "utf8 s \<Longrightarrow> is_char_boundary s i \<Longrightarrow> utf8 (take i s)"
  using utf8_from_take [of 0 s i]
  by (auto simp: utf8_def is_char_boundary_def split: if_splits)

end
