(* ===== verification/Health.thy ===== *)
theory Health
  imports Core_Types Utf8
begin

text \<open>
  Health policy and tracker (\<open>health/mod.rs\<close>, \<open>health/probe.rs\<close>): the thresholded state machine
  that turns probe results into a health state, and the bound on the error text it keeps.
  Instants and durations are nanoseconds since an arbitrary origin.
\<close>

section \<open>Policy\<close>

type_synonym instant = nat

record health_thresholds =
  th_failure :: "32 word"
  th_success :: "32 word"

record health_policy_spec =
  ps_interval :: duration
  ps_timeout :: duration
  ps_thresholds :: health_thresholds
  ps_start_period :: duration

record health_policy =
  hp_interval :: duration
  hp_timeout :: duration
  hp_failure_threshold :: "32 word"
  hp_success_threshold :: "32 word"
  hp_start_period :: duration

text \<open>Both thresholds have the type \<open>NonZeroU32\<close>.\<close>

definition policy_ok :: "health_policy \<Rightarrow> bool" where
  "policy_ok p =
     (0 < hp_interval p \<and> 0 < hp_timeout p \<and> hp_failure_threshold p \<noteq> 0 \<and> hp_success_threshold p \<noteq> 0)"

definition health_policy_new :: "health_policy_spec \<Rightarrow> (error, health_policy) result" where
  "health_policy_new spec =
     (if ps_interval spec = 0 then Inl (InvalidHealthPolicy ''interval must be greater than zero'')
      else if ps_timeout spec = 0 then Inl (InvalidHealthPolicy ''timeout must be greater than zero'')
      else Inr \<lparr>hp_interval = ps_interval spec, hp_timeout = ps_timeout spec,
                hp_failure_threshold = th_failure (ps_thresholds spec),
                hp_success_threshold = th_success (ps_thresholds spec),
                hp_start_period = ps_start_period spec\<rparr>)"

definition health_policy_default :: health_policy where
  "health_policy_default =
     \<lparr>hp_interval = 250000000, hp_timeout = secs 1, hp_failure_threshold = 3,
      hp_success_threshold = 1, hp_start_period = 0\<rparr>"

lemma health_policy_new_ok:
  assumes "th_failure (ps_thresholds spec) \<noteq> 0" "th_success (ps_thresholds spec) \<noteq> 0"
  shows "health_policy_new spec = Inr p \<Longrightarrow> policy_ok p"
  using assms by (auto simp: health_policy_new_def policy_ok_def split: if_splits)

lemma health_policy_default_ok: "policy_ok health_policy_default"
  by (simp add: health_policy_default_def policy_ok_def secs_def)

section \<open>Probe results\<close>

datatype probe_result = ProbeHealthy | ProbeUnhealthy "string option"

fun is_healthy :: "probe_result \<Rightarrow> bool" where
  "is_healthy ProbeHealthy = True"
| "is_healthy (ProbeUnhealthy _) = False"

datatype probe_phase = Readiness | Liveness | Reconcile

section \<open>The kept error text\<close>

definition MAX_LAST_ERROR_BYTES :: nat where
  "MAX_LAST_ERROR_BYTES = 512"

definition cap_detail :: "string \<Rightarrow> string" where
  "cap_detail detail =
     (if length detail \<le> MAX_LAST_ERROR_BYTES then detail
      else take (floor_char_boundary detail MAX_LAST_ERROR_BYTES) detail)"

lemma cap_detail_length: "length (cap_detail d) \<le> MAX_LAST_ERROR_BYTES"
  using floor_char_boundary_le [of d MAX_LAST_ERROR_BYTES] by (auto simp: cap_detail_def)

lemma cap_detail_utf8: "utf8 d \<Longrightarrow> utf8 (cap_detail d)"
  by (simp add: cap_detail_def utf8_take floor_char_boundary_boundary)

lemma cap_detail_keeps:
  assumes "utf8 d"
  shows "min (length d) 509 \<le> length (cap_detail d)"
  using floor_char_boundary_close [OF assms, of MAX_LAST_ERROR_BYTES]
  by (auto simp: cap_detail_def MAX_LAST_ERROR_BYTES_def)

lemma cap_detail_prefix: "\<exists>rest. d = cap_detail d @ rest"
  by (metis cap_detail_def append_Nil2 append_take_drop_id)

section \<open>The tracker\<close>

datatype tracker_state = TStarting | THealthy | TUnhealthy

record tracker_update =
  tu_state :: tracker_state
  tu_transitioned :: bool
  tu_consecutive_failures :: "32 word"
  tu_last_error :: "string option"

record health_tracker =
  tk_policy :: health_policy
  tk_started_at :: instant
  tk_grace_ended :: bool
  tk_state :: tracker_state
  tk_failures :: "32 word"
  tk_successes :: "32 word"
  tk_last_error :: "string option"

definition tracker_new :: "health_policy \<Rightarrow> instant \<Rightarrow> health_tracker" where
  "tracker_new policy started_at =
     \<lparr>tk_policy = policy, tk_started_at = started_at, tk_grace_ended = False, tk_state = TStarting,
      tk_failures = 0, tk_successes = 0, tk_last_error = None\<rparr>"

definition grace_active :: "health_tracker \<Rightarrow> instant \<Rightarrow> bool" where
  "grace_active t now =
     (\<not> tk_grace_ended t \<and> now < tk_started_at t + hp_start_period (tk_policy t))"

text \<open>The state part of \<open>observe\<close>; the update it returns is read off the new state.\<close>

definition observe_state :: "health_tracker \<Rightarrow> instant \<Rightarrow> probe_result \<Rightarrow> health_tracker" where
  "observe_state t now result =
     (case result of
        ProbeHealthy \<Rightarrow>
          let t = t\<lparr>tk_grace_ended := True, tk_failures := 0, tk_last_error := None\<rparr> in
          if tk_state t = THealthy then t\<lparr>tk_successes := 0\<rparr>
          else
            let t = t\<lparr>tk_successes := saturating_add (tk_successes t) 1\<rparr> in
            if hp_success_threshold (tk_policy t) \<le> tk_successes t
            then t\<lparr>tk_state := THealthy, tk_successes := 0\<rparr>
            else t
      | ProbeUnhealthy detail \<Rightarrow>
          let t = t\<lparr>tk_successes := 0, tk_last_error := map_option cap_detail detail\<rparr> in
          if grace_active t now then t
          else
            let t = t\<lparr>tk_failures := saturating_add (tk_failures t) 1\<rparr> in
            if tk_state t \<noteq> TUnhealthy \<and> hp_failure_threshold (tk_policy t) \<le> tk_failures t
            then t\<lparr>tk_state := TUnhealthy\<rparr>
            else t)"

definition observe :: "health_tracker \<Rightarrow> instant \<Rightarrow> probe_result \<Rightarrow> health_tracker \<times> tracker_update" where
  "observe t now result =
     (let t' = observe_state t now result in
      (t', \<lparr>tu_state = tk_state t', tu_transitioned = (tk_state t \<noteq> tk_state t'),
            tu_consecutive_failures = tk_failures t', tu_last_error = tk_last_error t'\<rparr>))"

text \<open>The tracker after a sequence of timed results.\<close>

definition observe_all :: "health_tracker \<Rightarrow> (instant \<times> probe_result) list \<Rightarrow> health_tracker" where
  "observe_all t obs = foldl (\<lambda>t (now, r). observe_state t now r) t obs"

section \<open>What the tracker guarantees\<close>

lemma observe_all_Nil [simp]: "observe_all t [] = t"
  by (simp add: observe_all_def)

lemma observe_all_snoc [simp]:
  "observe_all t (obs @ [(now, r)]) = observe_state (observe_all t obs) now r"
  by (simp add: observe_all_def)

lemma observe_all_Cons [simp]:
  "observe_all t ((now, r) # obs) = observe_all (observe_state t now r) obs"
  by (simp add: observe_all_def)

lemma observe_policy [simp]:
  "tk_policy (observe_state t now r) = tk_policy t"
  "tk_started_at (observe_state t now r) = tk_started_at t"
  by (auto simp: observe_state_def Let_def split: probe_result.splits)

lemma observe_all_policy [simp]:
  "tk_policy (observe_all t obs) = tk_policy t" "tk_started_at (observe_all t obs) = tk_started_at t"
  by (induction obs rule: rev_induct) auto

lemma tracker_new_policy [simp]: "tk_policy (tracker_new p s) = p" "tk_started_at (tracker_new p s) = s"
  by (simp_all add: tracker_new_def)

text \<open>The length of the run of failures, or of successes, at the end of a history.\<close>

definition trailing_failures :: "(instant \<times> probe_result) list \<Rightarrow> nat" where
  "trailing_failures obs = length (takeWhile (\<lambda>(_, r). \<not> is_healthy r) (rev obs))"

definition trailing_successes :: "(instant \<times> probe_result) list \<Rightarrow> nat" where
  "trailing_successes obs = length (takeWhile (\<lambda>(_, r). is_healthy r) (rev obs))"

lemma trailing_snoc:
  "trailing_failures (obs @ [(now, r)]) = (if is_healthy r then 0 else Suc (trailing_failures obs))"
  "trailing_successes (obs @ [(now, r)]) = (if is_healthy r then Suc (trailing_successes obs) else 0)"
  by (auto simp: trailing_failures_def trailing_successes_def)

lemma unat_saturating_add_1_le:
  "unat (saturating_add (a :: 32 word) 1) \<le> Suc (unat a)"
  by (simp add: unat_saturating_add)

lemma tracker_counts_bounded:
  "unat (tk_failures (observe_all (tracker_new p s) obs)) \<le> trailing_failures obs \<and>
   unat (tk_successes (observe_all (tracker_new p s) obs)) \<le> trailing_successes obs"
proof (induction obs rule: rev_induct)
  case (snoc x obs)
  obtain now r where x: "x = (now, r)" by (cases x)
  show ?case
    using snoc le_trans [OF unat_saturating_add_1_le]
    by (auto simp: x trailing_snoc observe_state_def Let_def split: probe_result.splits)
qed (simp add: tracker_new_def)

lemma observe_flip:
  assumes "tk_state t \<noteq> tk_state (observe_state t now r)"
  shows "(tk_state (observe_state t now r) = TUnhealthy \<and> \<not> is_healthy r \<and>
            unat (hp_failure_threshold (tk_policy t)) \<le> Suc (unat (tk_failures t))) \<or>
         (tk_state (observe_state t now r) = THealthy \<and> is_healthy r \<and>
            unat (hp_success_threshold (tk_policy t)) \<le> Suc (unat (tk_successes t)))"
  using assms le_trans [OF _ unat_saturating_add_1_le]
  by (auto simp: observe_state_def Let_def word_le_nat_alt split: probe_result.splits if_splits)

text \<open>After \<open>n\<close> failures outside the grace period the failure count is at least \<open>n\<close>, up to
  saturation, and the state follows the threshold; likewise for successes.\<close>

lemma observe_failure_step:
  assumes "\<not> is_healthy r" "tk_started_at t + hp_start_period (tk_policy t) \<le> now"
  shows "unat (tk_failures (observe_state t now r)) = min (Suc (unat (tk_failures t))) (2 ^ 32 - 1)"
    and "tk_state (observe_state t now r) = TUnhealthy \<longleftrightarrow>
           tk_state t = TUnhealthy \<or> hp_failure_threshold (tk_policy t) \<le> tk_failures (observe_state t now r)"
  using assms
  by (cases r; auto simp: observe_state_def Let_def grace_active_def unat_saturating_add)+

lemma observe_failures_count:
  assumes "\<forall>(now, r) \<in> set obs. \<not> is_healthy r \<and> tk_started_at t + hp_start_period (tk_policy t) \<le> now"
  shows "min (length obs) (2 ^ 32 - 1) \<le> unat (tk_failures (observe_all t obs))"
  using assms
proof (induction obs rule: rev_induct)
  case (snoc x obs)
  obtain now r where x: "x = (now, r)" by (cases x)
  have step: "unat (tk_failures (observe_state (observe_all t obs) now r)) =
      min (Suc (unat (tk_failures (observe_all t obs)))) (2 ^ 32 - 1)"
    by (rule observe_failure_step(1)) (use snoc.prems in \<open>auto simp: x\<close>)
  show ?case using snoc by (auto simp: x step)
qed simp

lemma observe_successes_count:
  assumes "\<forall>(now, r) \<in> set obs. is_healthy r"
  shows "tk_state (observe_all t obs) = THealthy \<or>
         min (length obs) (2 ^ 32 - 1) \<le> unat (tk_successes (observe_all t obs))"
  using assms
proof (induction obs rule: rev_induct)
  case (snoc x obs)
  obtain now r where x: "x = (now, r)" by (cases x)
  have "r = ProbeHealthy" using snoc.prems by (cases r) (auto simp: x)
  then show ?case using snoc
    by (auto simp: x observe_state_def Let_def unat_saturating_add)
qed simp

lemma threshold_reached:
  fixes th c :: "32 word"
  assumes "min n (2 ^ 32 - 1) \<le> unat c" "unat th \<le> n"
  shows "th \<le> c"
  using assms unat_lt [of th] by (auto simp: word_le_nat_alt)

lemma last_failure_unhealthy:
  assumes "\<forall>(now, r) \<in> set obs. \<not> is_healthy r \<and> tk_started_at t + hp_start_period (tk_policy t) \<le> now"
    and "hp_failure_threshold (tk_policy t) \<noteq> 0" and "unat (hp_failure_threshold (tk_policy t)) \<le> length obs"
  shows "tk_state (observe_all t obs) = TUnhealthy"
proof -
  have "0 < length obs" using assms(2,3) by (metis gr0I le_zero_eq unat_eq_zero)
  then obtain pre now r where obs: "obs = pre @ [(now, r)]"
    by (metis length_greater_0_conv prod.exhaust_sel rev_exhaust)
  have "hp_failure_threshold (tk_policy t) \<le> tk_failures (observe_all t obs)"
    by (rule threshold_reached [OF observe_failures_count assms(3)]) (use assms(1) in auto)
  then show ?thesis
    using observe_failure_step(2) [of r "observe_all t pre" now] assms(1) by (auto simp: obs)
qed

lemma last_success_healthy:
  assumes "\<forall>(now, r) \<in> set obs. is_healthy r"
    and "hp_success_threshold (tk_policy t) \<noteq> 0" and "unat (hp_success_threshold (tk_policy t)) \<le> length obs"
  shows "tk_state (observe_all t obs) = THealthy"
proof (rule ccontr)
  assume unhealthy: "tk_state (observe_all t obs) \<noteq> THealthy"
  have "0 < length obs" using assms(2,3) by (metis gr0I le_zero_eq unat_eq_zero)
  then obtain pre now r where obs: "obs = pre @ [(now, r)]"
    by (metis length_greater_0_conv prod.exhaust_sel rev_exhaust)
  have "r = ProbeHealthy" using assms(1) by (cases r) (auto simp: obs)
  then have "\<not> hp_success_threshold (tk_policy t) \<le> tk_successes (observe_all t obs)"
    using unhealthy by (auto simp: obs observe_state_def Let_def split: if_splits)
  then show False
    using observe_successes_count [OF assms(1)] unhealthy threshold_reached [OF _ assms(3)] by blast
qed

section \<open>Properties\<close>

text \<open>C18: hysteresis. The tracker changes its state only on evidence: it turns unhealthy only when
  the history ends with at least \<open>failure_threshold\<close> failures in a row, and turns healthy only when
  it ends with at least \<open>success_threshold\<close> successes in a row. It never returns to the starting state.\<close>

theorem tracker_flips_only_on_threshold:
  assumes "observe (observe_all (tracker_new p s) obs) now r = (t', u)" and "tu_transitioned u"
  shows "(tu_state u = TUnhealthy \<and> unat (hp_failure_threshold p) \<le> trailing_failures (obs @ [(now, r)])) \<or>
         (tu_state u = THealthy \<and> unat (hp_success_threshold p) \<le> trailing_successes (obs @ [(now, r)]))"
proof -
  let ?t = "observe_all (tracker_new p s) obs"
  have flip: "tk_state ?t \<noteq> tk_state (observe_state ?t now r)" and u: "tu_state u = tk_state (observe_state ?t now r)"
    using assms by (auto simp: observe_def Let_def)
  show ?thesis
    using observe_flip [OF flip] tracker_counts_bounded [of p s obs]
    by (auto simp: u trailing_snoc)
qed

theorem tracker_flips_only_on_threshold_witness:
  "tu_transitioned (snd (observe (observe_all (tracker_new health_policy_default 0)
       [(1, ProbeUnhealthy None), (2, ProbeUnhealthy None)]) 3 (ProbeUnhealthy None))) \<and>
   unat (hp_failure_threshold health_policy_default) \<le>
     trailing_failures ([(1, ProbeUnhealthy None), (2, ProbeUnhealthy None)] @ [(3, ProbeUnhealthy None)])"
proof -
  let ?o = "observe (observe_all (tracker_new health_policy_default 0)
       [(1, ProbeUnhealthy None), (2, ProbeUnhealthy None)]) 3 (ProbeUnhealthy None)"
  have t: "tu_transitioned (snd ?o)" and s: "tu_state (snd ?o) = TUnhealthy" 
    by (simp_all add: observe_def observe_all_def observe_state_def tracker_new_def
        health_policy_default_def grace_active_def saturating_add_def word_le_nat_alt Let_def)
  from tracker_flips_only_on_threshold [OF prod.collapse [symmetric] t] s t show ?thesis by simp
qed

text \<open>C19: responsiveness. From any state of the tracker, \<open>failure_threshold\<close> failures in a row outside
  the grace period make it unhealthy and \<open>success_threshold\<close> successes in a row make it healthy, for
  every policy the constructor accepts and even when a counter has saturated.\<close>

theorem tracker_flips_at_threshold:
  assumes "policy_ok (tk_policy t)"
  shows "((\<forall>(now, r) \<in> set obs. \<not> is_healthy r \<and> tk_started_at t + hp_start_period (tk_policy t) \<le> now) \<and>
            unat (hp_failure_threshold (tk_policy t)) \<le> length obs \<longrightarrow>
            tk_state (observe_all t obs) = TUnhealthy) \<and>
         ((\<forall>(now, r) \<in> set obs. is_healthy r) \<and> unat (hp_success_threshold (tk_policy t)) \<le> length obs \<longrightarrow>
            tk_state (observe_all t obs) = THealthy)"
  using assms last_failure_unhealthy [of obs t] last_success_healthy [of obs t]
  by (simp add: policy_ok_def)

theorem tracker_flips_at_threshold_witness:
  "tk_state (observe_all (tracker_new health_policy_default 0)
     [(1, ProbeUnhealthy None), (2, ProbeUnhealthy None), (3, ProbeUnhealthy None)]) = TUnhealthy \<and>
   tk_state (observe_all (tracker_new health_policy_default 0) [(1, ProbeHealthy)]) = THealthy"
proof -
  have ok: "policy_ok (tk_policy (tracker_new health_policy_default 0))"
    by (simp add: tracker_new_def health_policy_default_ok)
  show ?thesis
    using tracker_flips_at_threshold [OF ok, of "[(1, ProbeUnhealthy None), (2, ProbeUnhealthy None), (3, ProbeUnhealthy None)]"]
      tracker_flips_at_threshold [OF ok, of "[(1, ProbeHealthy)]"]
    by (simp add: health_policy_default_def)
qed

end
