(* ===== verification/Launch_Spec.thy ===== *)
theory Launch_Spec
  imports Health
begin

text \<open>
  Launch specifications and manager options (\<open>spec.rs\<close>), with their defaults.  The restart policy
  and the back-off belong to the supervisor library; they are compared for equality and handed on,
  never inspected, so each is an opaque code.
\<close>

record core_spec =
  cs_kind :: core_kind
  cs_binary_path :: string
  cs_version :: "string option"
  cs_features :: "string list"

datatype local_ipc_policy = Force | Prefer | Disable

record local_ipc_settings =
  ipc_policy :: local_ipc_policy
  keep_http_controller :: bool

record instance_options =
  opt_local_ipc :: "local_ipc_settings option"
  opt_startup_timeout :: duration
  opt_health :: health_policy
  opt_restart_policy :: nat
  opt_backoff :: nat

text \<open>The codes of \<open>RestartPolicy::OnFailure { max_restarts: 5 }\<close> and of the jittered exponential
  back-off from one to thirty seconds.\<close>

definition instance_options_default :: "nat \<Rightarrow> nat \<Rightarrow> instance_options" where
  "instance_options_default on_failure_5 exponential_1_30 =
     \<lparr>opt_local_ipc = None, opt_startup_timeout = secs 30, opt_health = health_policy_default,
      opt_restart_policy = on_failure_5, opt_backoff = exponential_1_30\<rparr>"

record instance_spec =
  is_core :: core_spec
  is_config_path :: string
  is_working_dir :: string
  is_pid_file :: "string option"
  is_options :: instance_options

record manager_options =
  mo_runtime_dir :: "string option"
  mo_local_ipc_policy :: local_ipc_policy
  mo_controller_template :: "string option"
  mo_controller_dir :: "string option"
  mo_control_timeout :: duration
  mo_reconcile_timeout :: duration
  mo_stop_timeout :: duration
  mo_dns_timeout :: duration
  mo_log_sink_enabled :: bool
  mo_log_max_bytes :: "64 word"
  mo_log_max_files :: nat

definition manager_options_default :: manager_options where
  "manager_options_default =
     \<lparr>mo_runtime_dir = None, mo_local_ipc_policy = Disable, mo_controller_template = None,
      mo_controller_dir = None, mo_control_timeout = secs 10, mo_reconcile_timeout = secs 30,
      mo_stop_timeout = secs 10, mo_dns_timeout = secs 10, mo_log_sink_enabled = True,
      mo_log_max_bytes = 4 * 1024 * 1024, mo_log_max_files = 5\<rparr>"

end
