(* ===== verification/Operation_Id.thy ===== *)
theory Operation_Id
  imports Prelude
begin

unbundle bit_operations_syntax

text \<open>
  Operation identity of the control plane (\<open>control/mod.rs\<close>): the id record, its
  hexadecimal text form and the parser of that form, and the FNV-1a payload digest the
  idempotency registry compares.
\<close>

section \<open>The identifier\<close>

record operation_id =
  nanos :: "64 word"
  op_pid :: "32 word"
  counter :: "32 word"

text \<open>\<open>generate\<close>: the clock, the process id and the process-local counter are inputs; the counter
  is fetched and advanced with wrap-around.\<close>

definition generate :: "nat \<Rightarrow> 32 word \<Rightarrow> 32 word \<Rightarrow> operation_id \<times> 32 word" where
  "generate unix_nanos process_id COUNTER =
     (\<lparr>nanos = of_nat unix_nanos, op_pid = process_id, counter = COUNTER\<rparr>, COUNTER + 1)"

text \<open>\<open>Display\<close>: three zero-padded lower-case hexadecimal fields.\<close>

definition display_operation_id :: "operation_id \<Rightarrow> string" where
  "display_operation_id oid =
     hex_padded 16 (unat (nanos oid)) @ ''-'' @ hex_padded 8 (unat (op_pid oid)) @ ''-''
       @ hex_padded 8 (unat (counter oid))"

text \<open>\<open>FromStr\<close>: \<open>None\<close> is \<open>ParseOperationIdError\<close>.\<close>

definition operation_id_from_str :: "string \<Rightarrow> operation_id option" where
  "operation_id_from_str value =
     (case split_once (CHR ''-'') value of
        None \<Rightarrow> None
      | Some (ns, rest) \<Rightarrow>
          (case split_once (CHR ''-'') rest of
             None \<Rightarrow> None
           | Some (p, c) \<Rightarrow>
               if length ns \<noteq> 16 \<or> length p \<noteq> 8 \<or> length c \<noteq> 8
                  \<or> \<not> list_all (\<lambda>b. b = CHR ''-'' \<or> is_lower_hex b) value
               then None
               else
                 (case from_str_radix 16 (2 ^ 64) ns of
                    None \<Rightarrow> None
                  | Some n \<Rightarrow>
                      (case from_str_radix 16 (2 ^ 32) p of
                         None \<Rightarrow> None
                       | Some q \<Rightarrow>
                           (case from_str_radix 16 (2 ^ 32) c of
                              None \<Rightarrow> None
                            | Some k \<Rightarrow>
                                Some \<lparr>nanos = of_nat n, op_pid = of_nat q, counter = of_nat k\<rparr>)))))"

lemma hex_field:
  assumes "n < 16 ^ w" "0 < w"
  shows "length (hex_padded w n) = w"
    and "\<forall>c \<in> set (hex_padded w n). is_lower_hex c"
    and "CHR ''-'' \<notin> set (hex_padded w n)"
    and "from_str_radix 16 (16 ^ w) (hex_padded w n) = Some n"
proof -
  have eq: "hex_padded w n = fixed_digits 16 w n" using assms by (rule hex_padded_fixed)
  have chars: "\<exists>d < 16. c = digit_char d" if "c \<in> set (hex_padded w n)" for c
    using that eq fixed_digits_chars [of 16 c w n] by simp
  show "length (hex_padded w n) = w" by (simp add: eq)
  show "\<forall>c \<in> set (hex_padded w n). is_lower_hex c" using chars by fastforce
  show "CHR ''-'' \<notin> set (hex_padded w n)" using chars by fastforce
  have "CHR ''+'' \<notin> set (fixed_digits 16 w n)" using chars eq by fastforce
  moreover have "fixed_digits 16 w n \<noteq> []" using assms by (metis length_fixed_digits length_greater_0_conv)
  ultimately show "from_str_radix 16 (16 ^ w) (hex_padded w n) = Some n"
    using assms by (simp add: eq from_str_radix_no_sign parse_digits_fixed)
qed

lemma hex_field_parsed:
  assumes "from_str_radix 16 b s = Some n" "\<forall>c \<in> set s. is_lower_hex c" "s \<noteq> []"
  shows "hex_padded (length s) n = s" and "n < 16 ^ length s"
proof -
  have "CHR ''+'' \<notin> set s" using assms(2) by (auto simp: is_lower_hex_def Let_def)
  then have "parse_digits 16 b 0 s = Some n" using assms(1,3) by (simp add: from_str_radix_no_sign)
  from parse_digits_hex_exact [OF this assms(2)]
  show "hex_padded (length s) n = s" "n < 16 ^ length s" using assms(3) by (auto simp: hex_padded_fixed)
qed

lemma unat_bounds:
  fixes x :: "64 word" and y :: "32 word"
  shows "unat x < 16 ^ 16" and "unat y < 16 ^ 8"
  using unsigned_less [of x, where ?'a = nat] unsigned_less [of y, where ?'a = nat] by simp_all

section \<open>Digest\<close>

text \<open>\<open>payload_digest\<close>: FNV-1a over the bytes, in wrapping 64-bit arithmetic, hex-encoded.\<close>

definition fnv_offset :: "64 word" where
  "fnv_offset = 0xcbf29ce484222325"

definition fnv_prime :: "64 word" where
  "fnv_prime = 0x00000100000001b3"

definition fnv_step :: "64 word \<Rightarrow> char \<Rightarrow> 64 word" where
  "fnv_step hash b = (hash XOR of_nat (of_char b)) * fnv_prime"

definition fnv1a :: "string \<Rightarrow> 64 word" where
  "fnv1a bytes = foldl fnv_step fnv_offset bytes"

definition payload_digest :: "string \<Rightarrow> string" where
  "payload_digest bytes = hex_padded 16 (unat (fnv1a bytes))"

lemma length_payload_digest [simp]: "length (payload_digest bs) = 16"
  using hex_field(1) [OF unat_bounds(1) [of "fnv1a bs"]] by (simp add: payload_digest_def)

lemma payload_digest_eq_iff: "payload_digest a = payload_digest b \<longleftrightarrow> fnv1a a = fnv1a b"
proof
  assume "payload_digest a = payload_digest b"
  then have "Some (unat (fnv1a a)) = Some (unat (fnv1a b))"
    using hex_field(4) [OF unat_bounds(1) [of "fnv1a a"]] hex_field(4) [OF unat_bounds(1) [of "fnv1a b"]]
    by (simp add: payload_digest_def)
  then show "fnv1a a = fnv1a b" by (simp add: unsigned_word_eqI)
qed (simp add: payload_digest_def)


text \<open>The multiplier is odd, so a step loses no information: it is injective in the running hash
  and in the byte.\<close>

lemma fnv_prime_inverse: "fnv_prime * 0xce965057aff6957b = 1"
  by (simp add: fnv_prime_def)

lemma fnv_prime_cancel: "x * fnv_prime = y * fnv_prime \<longleftrightarrow> x = y"
proof
  assume "x * fnv_prime = y * fnv_prime"
  then have "x * fnv_prime * 0xce965057aff6957b = y * fnv_prime * 0xce965057aff6957b" by (rule arg_cong)
  then show "x = y" unfolding mult.assoc fnv_prime_inverse by simp
qed simp

lemma xor_cancel: "(h :: 64 word) XOR a = h XOR b \<longleftrightarrow> a = b"
proof
  assume "h XOR a = h XOR b"
  then have "h XOR (h XOR a) = h XOR (h XOR b)" by (rule arg_cong)
  then show "a = b" by (simp add: xor.assoc [symmetric])
qed simp

lemma fnv_step_inj_hash: "fnv_step h b = fnv_step k b \<longleftrightarrow> h = k"
  unfolding fnv_step_def fnv_prime_cancel xor.commute [of _ "of_nat (of_char b)"] by (rule xor_cancel)

lemma of_nat_of_char_inj: "(of_nat (of_char a) :: 64 word) = of_nat (of_char b) \<longleftrightarrow> a = b"
proof
  assume "(of_nat (of_char a) :: 64 word) = of_nat (of_char b)"
  then have "(of_char a :: nat) mod 2 ^ 64 = of_char b mod 2 ^ 64"
    by (simp add: word_of_nat_eq_iff take_bit_eq_mod)
  moreover have "(of_char c :: nat) < 2 ^ 64" for c
    by (rule less_trans [OF nat_of_char_less_256]) simp
  ultimately show "a = b" by simp
qed simp

lemma fnv_step_inj_byte: "fnv_step h a = fnv_step h b \<longleftrightarrow> a = b"
  unfolding fnv_step_def fnv_prime_cancel xor_cancel by (rule of_nat_of_char_inj)

lemma foldl_fnv_inj: "foldl fnv_step h bs = foldl fnv_step k bs \<longleftrightarrow> h = k"
  by (induction bs arbitrary: h k) (auto simp: fnv_step_inj_hash)


section \<open>Properties\<close>

text \<open>C20: an operation id survives its text form: parsing the displayed id gives the id back, and
  every text the parser accepts is exactly the displayed form of the id it returns. Two clients
  can therefore never name one operation by two spellings.\<close>

theorem operation_id_roundtrip:
  "operation_id_from_str s = Some oid \<longleftrightarrow> s = display_operation_id oid"
proof
  assume parsed: "operation_id_from_str s = Some oid"
  then obtain ns p c n q k where
    s: "s = ns @ CHR ''-'' # p @ CHR ''-'' # c" and len: "length ns = 16" "length p = 8" "length c = 8"
    and hex: "\<forall>b \<in> set s. b = CHR ''-'' \<or> is_lower_hex b"
    and dash: "CHR ''-'' \<notin> set ns" "CHR ''-'' \<notin> set p"
    and num: "from_str_radix 16 (2 ^ 64) ns = Some n" "from_str_radix 16 (2 ^ 32) p = Some q"
      "from_str_radix 16 (2 ^ 32) c = Some k"
    and oid: "oid = \<lparr>nanos = of_nat n, op_pid = of_nat q, counter = of_nat k\<rparr>"
    unfolding operation_id_from_str_def list_all_iff
    by (clarsimp simp: split_once_Some split: option.split_asm if_split_asm prod.split_asm)
  have hexes: "\<forall>b \<in> set ns. is_lower_hex b" "\<forall>b \<in> set p. is_lower_hex b" "\<forall>b \<in> set c. is_lower_hex b"
    using hex dash from_str_radix_no_dash [OF num(3)] unfolding s by (simp_all add: ball_Un) metis+
  have ne: "ns \<noteq> []" "p \<noteq> []" "c \<noteq> []" using len by auto
  note field = hex_field_parsed [OF num(1) hexes(1) ne(1)] hex_field_parsed [OF num(2) hexes(2) ne(2)]
    hex_field_parsed [OF num(3) hexes(3) ne(3)]
  have "unat (of_nat n :: 64 word) = n" "unat (of_nat q :: 32 word) = q" "unat (of_nat k :: 32 word) = k"
    using field(2,4,6) unfolding len by (simp_all add: unat_of_nat)
  then show "s = display_operation_id oid"
    using field(1,3,5) unfolding len oid s display_operation_id_def by simp
next
  assume "s = display_operation_id oid"
  then show "operation_id_from_str s = Some oid"
    using hex_field [OF unat_bounds(1) [of "nanos oid"]] hex_field [OF unat_bounds(2) [of "op_pid oid"]]
      hex_field [OF unat_bounds(2) [of "counter oid"]]
    by (simp add: display_operation_id_def operation_id_from_str_def list_all_iff ball_Un)
qed

text \<open>C21: changing any single byte of a payload changes its digest, so the idempotency registry
  always tells such an edit apart from a resubmission of the original.\<close>

theorem payload_digest_detects_byte_change:
  "payload_digest (pre @ a # post) = payload_digest (pre @ b # post) \<longleftrightarrow> a = b"
  by (simp add: payload_digest_eq_iff fnv1a_def foldl_fnv_inj fnv_step_inj_byte)

end
