(* ===== verification/Control_Types.thy ===== *)
theory Control_Types
  imports Launch_Spec Operation_Id
begin

text \<open>
  The command surface of the control plane (\<open>control/mod.rs\<close>): configuration payloads, commands and
  the digest that identifies one, operation outputs and states, and the portable error.
\<close>

section \<open>Commands\<close>

datatype config_input = Inline (ci_bytes: string) (ci_expected_digest: "string option")

definition config_inline :: "string \<Rightarrow> config_input" where
  "config_inline bytes = Inline bytes None"

record reconcile_request =
  rq_core :: core_spec
  rq_config :: config_input
  rq_options :: instance_options
  rq_expected_applied :: "revision_id option"

datatype core_command = CmdReconcile reconcile_request | CmdStop | CmdRecover | CmdShutdown

record core_command_envelope =
  env_operation_id :: operation_id
  env_command :: core_command

fun is_shutdown :: "core_command \<Rightarrow> bool" where
  "is_shutdown CmdShutdown = True"
| "is_shutdown _ = False"

text \<open>The derived \<open>Debug\<close> text of the controller settings, part of the payload identity.\<close>

fun debug_policy :: "local_ipc_policy \<Rightarrow> string" where
  "debug_policy Force = ''Force''"
| "debug_policy Prefer = ''Prefer''"
| "debug_policy Disable = ''Disable''"

fun debug_bool :: "bool \<Rightarrow> string" where
  "debug_bool True = ''true''"
| "debug_bool False = ''false''"

fun debug_local_ipc :: "local_ipc_settings option \<Rightarrow> string" where
  "debug_local_ipc None = ''None''"
| "debug_local_ipc (Some s) =
     ''Some(LocalIpcSettings { policy: '' @ debug_policy (ipc_policy s)
       @ '', keep_http_controller: '' @ debug_bool (keep_http_controller s) @ '' })''"

definition NUL :: string where
  "NUL = [CHR 0x00]"

text \<open>The bytes the reconcile digest is taken over.\<close>

definition reconcile_identity :: "reconcile_request \<Rightarrow> string" where
  "reconcile_identity request =
     ''reconcile'' @ NUL @ core_kind_str (cs_kind (rq_core request)) @ NUL
       @ cs_binary_path (rq_core request) @ NUL
       @ (case cs_version (rq_core request) of None \<Rightarrow> [] | Some v \<Rightarrow> v) @ NUL
       @ concat (map (\<lambda>f. f @ NUL) (cs_features (rq_core request)))
       @ (case rq_expected_applied request of None \<Rightarrow> [] | Some r \<Rightarrow> display_revision_id r)
       @ NUL @ ''controller:'' @ debug_local_ipc (opt_local_ipc (rq_options request)) @ NUL
       @ ci_bytes (rq_config request) @ NUL @ ''digest:''
       @ (case ci_expected_digest (rq_config request) of None \<Rightarrow> [] | Some d \<Rightarrow> d)"

fun command_digest :: "core_command \<Rightarrow> string" where
  "command_digest (CmdReconcile request) = payload_digest (reconcile_identity request)"
| "command_digest CmdStop = payload_digest ''stop''"
| "command_digest CmdRecover = payload_digest ''recover''"
| "command_digest CmdShutdown = payload_digest ''shutdown''"

section \<open>Results\<close>

datatype operation_output = Reconciled apply_outcome | OutStopped | OutRecovered | OutShutDown

record core_error =
  ce_kind :: "core_error_kind option"
  ce_message :: string
  ce_retryable :: bool
  ce_operation_id :: "operation_id option"

definition core_error_new :: "core_error_kind \<Rightarrow> string \<Rightarrow> bool \<Rightarrow> core_error" where
  "core_error_new kind message retryable =
     \<lparr>ce_kind = Some kind, ce_message = message, ce_retryable = retryable, ce_operation_id = None\<rparr>"

definition from_domain :: "error \<Rightarrow> operation_id option \<Rightarrow> core_error" where
  "from_domain e oid =
     \<lparr>ce_kind = error_kind e, ce_message = error_to_string e,
      ce_retryable = (case error_kind e of None \<Rightarrow> False | Some k \<Rightarrow> default_retryable k),
      ce_operation_id = oid\<rparr>"

definition with_operation :: "core_error \<Rightarrow> operation_id \<Rightarrow> core_error" where
  "with_operation e oid = e\<lparr>ce_operation_id := Some oid\<rparr>"

definition display_core_error :: "core_error \<Rightarrow> string" where
  "display_core_error e =
     (case ce_kind e of
        Some kind \<Rightarrow> error_kind_str kind @ '': '' @ ce_message e
      | None \<Rightarrow> ce_message e)"

datatype operation_state = Queued | Running | Succeeded operation_output | Failed core_error

fun is_terminal_op :: "operation_state \<Rightarrow> bool" where
  "is_terminal_op (Succeeded _) = True"
| "is_terminal_op (Failed _) = True"
| "is_terminal_op Queued = False"
| "is_terminal_op Running = False"

section \<open>Options\<close>

record control_options =
  co_source_dir :: string
  co_working_dir :: string
  co_queue_capacity :: nat
  co_registry_capacity :: nat
  co_check_concurrency :: nat

definition control_options_new :: "string \<Rightarrow> string \<Rightarrow> control_options" where
  "control_options_new source_dir working_dir =
     \<lparr>co_source_dir = source_dir, co_working_dir = working_dir, co_queue_capacity = 16,
      co_registry_capacity = 64, co_check_concurrency = 2\<rparr>"

text \<open>\<open>usize\<close> saturates at its largest value; the bound is raised to hold every live operation.\<close>

definition usize_max :: nat where
  "usize_max = 2 ^ 64 - 1"

definition live_registry_capacity :: "nat \<Rightarrow> nat \<Rightarrow> nat" where
  "live_registry_capacity registry_capacity queue_capacity =
     max registry_capacity (min (queue_capacity + 1) usize_max)"

datatype executor_exit = ExitClean | ExitDied

section \<open>Digest identity\<close>

text \<open>The pieces of the identity text before the configuration bytes.\<close>

lemma reconcile_identity_bytes:
  assumes "rq_core a = rq_core b" "rq_options a = rq_options b"
    and "rq_expected_applied a = rq_expected_applied b"
    and "rq_config a = Inline (pre @ x # post) d" "rq_config b = Inline (pre @ y # post) d"
  shows "command_digest (CmdReconcile a) = command_digest (CmdReconcile b) \<longleftrightarrow> x = y"
proof -
  define h where "h = ''reconcile'' @ NUL @ core_kind_str (cs_kind (rq_core a)) @ NUL
       @ cs_binary_path (rq_core a) @ NUL
       @ (case cs_version (rq_core a) of None \<Rightarrow> [] | Some v \<Rightarrow> v) @ NUL
       @ concat (map (\<lambda>f. f @ NUL) (cs_features (rq_core a)))
       @ (case rq_expected_applied a of None \<Rightarrow> [] | Some r \<Rightarrow> display_revision_id r)
       @ NUL @ ''controller:'' @ debug_local_ipc (opt_local_ipc (rq_options a)) @ NUL @ pre"
  define t where "t = post @ NUL @ ''digest:'' @ (case d of None \<Rightarrow> [] | Some d \<Rightarrow> d)"
  have "reconcile_identity a = h @ x # t" "reconcile_identity b = h @ y # t"
    using assms by (simp_all add: reconcile_identity_def h_def t_def)
  then show ?thesis by (simp add: payload_digest_eq_iff fnv1a_def foldl_fnv_inj fnv_step_inj_byte)
qed

lemma payload_digest_nonempty [simp]: "payload_digest bs \<noteq> []"
  using length_payload_digest [of bs] by (metis list.size(3) zero_neq_numeral)

section \<open>Properties\<close>

text \<open>The declared digest is not always part of the identity of a command. A reconcile that declares
  the empty digest, which no configuration has, so that it is bound to be rejected, has the same
  identity digest as the reconcile of the same bytes that declares none. Resubmitting the corrected
  command under the same id therefore attaches to the rejected operation instead of being refused
  as a different payload.\<close>

theorem empty_declared_digest_is_not_identity:
  "command_digest (CmdReconcile (r\<lparr>rq_config := Inline bs (Some [])\<rparr>)) =
     command_digest (CmdReconcile (r\<lparr>rq_config := Inline bs None\<rparr>)) \<and>
   payload_digest bs \<noteq> []"
  by (simp add: reconcile_identity_def)

end
