(* ===== verification/Registry.thy ===== *)
theory Registry
  imports Control_Types "HOL-Library.AList"
begin

text \<open>
  The bounded operation registry (\<open>control/executor.rs\<close>): the idempotency table keyed by operation
  id, with its admission order.  The hash map is an association list with distinct keys; nothing
  observes its iteration order.  Admission runs the enqueue closure inside the critical section, so
  \<open>admit\<close> takes the closure and the state of the channel it acts on.
\<close>

section \<open>State\<close>

record registered_operation =
  ro_digest :: string
  ro_sequence :: "64 word"
  ro_state :: operation_state

record registry =
  rg_operations :: "(operation_id \<times> registered_operation) list"
  rg_order :: "operation_id list"
  rg_next_sequence :: "64 word"
  rg_capacity :: nat

definition registry_new :: "nat \<Rightarrow> registry" where
  "registry_new capacity =
     \<lparr>rg_operations = [], rg_order = [], rg_next_sequence = 0, rg_capacity = capacity\<rparr>"

datatype admission = Registered "64 word" | Existing "64 word" operation_state

datatype try_send_error = ChannelFull | ChannelClosed

section \<open>Operations\<close>

definition registry_get :: "registry \<Rightarrow> operation_id \<Rightarrow> operation_state option" where
  "registry_get reg oid = map_option ro_state (map_of (rg_operations reg) oid)"

definition registry_set :: "registry \<Rightarrow> operation_id \<Rightarrow> operation_state \<Rightarrow> registry" where
  "registry_set reg oid state =
     (case map_of (rg_operations reg) oid of
        None \<Rightarrow> reg
      | Some operation \<Rightarrow>
          reg\<lparr>rg_operations := AList.update oid (operation\<lparr>ro_state := state\<rparr>) (rg_operations reg)\<rparr>)"

text \<open>\<open>Iterator::position\<close> and \<open>VecDeque::remove\<close>.\<close>

fun position :: "('a \<Rightarrow> bool) \<Rightarrow> 'a list \<Rightarrow> nat option" where
  "position P [] = None"
| "position P (x # xs) = (if P x then Some 0 else map_option Suc (position P xs))"

definition remove_at :: "nat \<Rightarrow> 'a list \<Rightarrow> 'a list" where
  "remove_at i xs = take i xs @ drop (Suc i) xs"

lemma position_Some: "position P xs = Some i \<Longrightarrow> i < length xs \<and> P (xs ! i) \<and> (\<forall>j < i. \<not> P (xs ! j))"
proof (induction xs arbitrary: i)
  case (Cons x xs)
  then show ?case by (cases i) (auto split: if_splits simp: nth_Cons split: nat.splits)
qed simp

lemma position_None: "position P xs = None \<longleftrightarrow> (\<forall>x \<in> set xs. \<not> P x)"
  by (induction xs) auto

lemma length_remove_at [simp]: "i < length xs \<Longrightarrow> length (remove_at i xs) = length xs - 1"
  by (simp add: remove_at_def)

lemma distinct_set_remove_at:
  assumes "distinct xs" "i < length xs"
  shows "distinct (remove_at i xs)" and "set (remove_at i xs) = set xs - {xs ! i}"
proof -
  have eq: "xs = take i xs @ xs ! i # drop (Suc i) xs" using assms(2) by (rule id_take_nth_drop)
  have "distinct (take i xs @ xs ! i # drop (Suc i) xs)" using assms(1) eq by simp
  then show "distinct (remove_at i xs)" "set (remove_at i xs) = set xs - {xs ! i}"
    using arg_cong [OF eq, of set] by (auto simp: remove_at_def)
qed

definition is_terminal_entry :: "registry \<Rightarrow> operation_id \<Rightarrow> bool" where
  "is_terminal_entry reg oid =
     (case map_of (rg_operations reg) oid of None \<Rightarrow> False | Some op \<Rightarrow> is_terminal_op (ro_state op))"

text \<open>The eviction loop: oldest terminal entry first, while the table is full.\<close>

function evict :: "registry \<Rightarrow> registry" where
  "evict reg =
     (if length (rg_operations reg) < rg_capacity reg then reg
      else
        (case position (is_terminal_entry reg) (rg_order reg) of
           None \<Rightarrow> reg
         | Some i \<Rightarrow>
             evict (reg\<lparr>rg_order := remove_at i (rg_order reg),
                       rg_operations := AList.delete (rg_order reg ! i) (rg_operations reg)\<rparr>)))"
  by auto
termination
  by (relation "measure (length \<circ> rg_order)") (auto dest!: position_Some)

declare evict.simps [simp del]

definition conflict_error :: "operation_id \<Rightarrow> core_error" where
  "conflict_error oid =
     with_operation
       (core_error_new KOperationConflict
         (''operation '' @ display_operation_id oid @ '' was already submitted with a different payload'') False)
       oid"

fun enqueue_error :: "operation_id \<Rightarrow> try_send_error \<Rightarrow> core_error" where
  "enqueue_error oid ChannelFull =
     with_operation (core_error_new KQueueFull ''the operation queue is full'' True) oid"
| "enqueue_error oid ChannelClosed =
     with_operation (core_error_new KInternal ''the control executor is gone'' False) oid"

definition admit ::
  "registry \<Rightarrow> operation_id \<Rightarrow> string \<Rightarrow> ('q \<Rightarrow> (try_send_error, unit) result \<times> 'q) \<Rightarrow> 'q \<Rightarrow>
     (core_error, admission) result \<times> registry \<times> 'q" where
  "admit reg oid digest enqueue q =
     (case map_of (rg_operations reg) oid of
        Some existing \<Rightarrow>
          if ro_digest existing = digest
          then (Inr (Existing (ro_sequence existing) (ro_state existing)), reg, q)
          else (Inl (conflict_error oid), reg, q)
      | None \<Rightarrow>
          let reg = evict reg;
              sequence = rg_next_sequence reg;
              reg = reg\<lparr>rg_next_sequence := sequence + 1\<rparr>;
              op = \<lparr>ro_digest = digest, ro_sequence = sequence, ro_state = Queued\<rparr>;
              inserted = reg\<lparr>rg_operations := AList.update oid op (rg_operations reg),
                             rg_order := rg_order reg @ [oid]\<rparr>
          in (case enqueue q of
                (Inr _, q') \<Rightarrow> (Inr (Registered sequence), inserted, q')
              | (Inl e, q') \<Rightarrow>
                  (Inl (enqueue_error oid e),
                   inserted\<lparr>rg_operations := AList.delete oid (rg_operations inserted),
                            rg_order := butlast (rg_order inserted)\<rparr>, q')))"

section \<open>Association lists\<close>

lemma update_new: "map_of xs k = None \<Longrightarrow> AList.update k v xs = xs @ [(k, v)]"
  by (induction xs) (auto split: if_splits)

lemma delete_new: "map_of xs k = None \<Longrightarrow> AList.delete k (xs @ [(k, v)]) = xs"
  by (auto simp: AList.delete_eq filter_id_conv map_of_eq_None_iff image_iff)

lemma update_old_length: "map_of xs k = Some w \<Longrightarrow> length (AList.update k v xs) = length xs"
  by (induction xs) (auto split: if_splits)

lemma update_keys: "map_of xs k = Some w \<Longrightarrow> map fst (AList.update k v xs) = map fst xs"
  by (induction xs) (auto split: if_splits)

lemma delete_length:
  assumes "distinct (map fst xs)" "map_of xs k = Some w"
  shows "Suc (length (AList.delete k xs)) = length xs"
  using assms
proof (induction xs)
  case (Cons x xs)
  show ?case
  proof (cases "fst x = k")
    case True
    then have "AList.delete k xs = xs"
      using Cons.prems by (simp add: AList.delete_id)
    then show ?thesis using True by (cases x) simp
  next
    case False
    then show ?thesis using Cons by (cases x) simp
  qed
qed simp

lemma delete_fst: "fst ` set (AList.delete k xs) = fst ` set xs - {k}"
  by (metis AList.delete_keys list.set_map set_removeAll)

section \<open>Invariant\<close>

text \<open>The order queue lists each key of the table exactly once.\<close>

definition registry_ok :: "registry \<Rightarrow> bool" where
  "registry_ok reg =
     (distinct (map fst (rg_operations reg)) \<and> distinct (rg_order reg) \<and>
      set (rg_order reg) = fst ` set (rg_operations reg))"

text \<open>The operations that still have to reach a terminal state.\<close>

definition live_ids :: "registry \<Rightarrow> operation_id set" where
  "live_ids reg = {oid. \<exists>s. registry_get reg oid = Some s \<and> \<not> is_terminal_op s}"

lemma registry_get_Some:
  "registry_get reg oid = Some s \<longleftrightarrow> (\<exists>op. map_of (rg_operations reg) oid = Some op \<and> ro_state op = s)"
  by (auto simp: registry_get_def)

lemma registry_get_None: "registry_get reg oid = None \<longleftrightarrow> map_of (rg_operations reg) oid = None"
  by (simp add: registry_get_def)

lemma is_terminal_entry_iff:
  "is_terminal_entry reg oid \<longleftrightarrow> (\<exists>s. registry_get reg oid = Some s \<and> is_terminal_op s)"
  by (auto simp: is_terminal_entry_def registry_get_def split: option.splits)

lemma registry_ok_new [simp]: "registry_ok (registry_new c)" "registry_get (registry_new c) oid = None"
  by (auto simp: registry_ok_def registry_new_def registry_get_def)

lemma registry_set_get:
  "registry_get (registry_set reg oid s) i =
     (if i = oid \<and> registry_get reg oid \<noteq> None then Some s else registry_get reg i)"
  by (auto simp: registry_set_def registry_get_def AList.update_conv' split: option.splits)

lemma registry_set_fields [simp]:
  "rg_capacity (registry_set reg oid s) = rg_capacity reg"
  "rg_order (registry_set reg oid s) = rg_order reg"
  "rg_next_sequence (registry_set reg oid s) = rg_next_sequence reg"
  "length (rg_operations (registry_set reg oid s)) = length (rg_operations reg)"
  "map fst (rg_operations (registry_set reg oid s)) = map fst (rg_operations reg)"
  by (auto simp: registry_set_def update_old_length update_keys split: option.splits)

lemma registry_set_ok [simp]: "registry_ok (registry_set reg oid s) = registry_ok reg"
proof -
  have "fst ` set (rg_operations (registry_set reg oid s)) = fst ` set (rg_operations reg)"
    by (metis list.set_map registry_set_fields(5))
  then show ?thesis by (simp add: registry_ok_def)
qed

subsection \<open>Eviction\<close>

lemma evict_step_ok:
  assumes "registry_ok reg" "position P (rg_order reg) = Some i"
  shows "registry_ok (reg\<lparr>rg_order := remove_at i (rg_order reg),
                         rg_operations := AList.delete (rg_order reg ! i) (rg_operations reg)\<rparr>)"
  using assms position_Some [OF assms(2)]
  by (simp add: registry_ok_def distinct_set_remove_at AList.distinct_delete delete_fst)

lemma evict_ok: "registry_ok reg \<Longrightarrow> registry_ok (evict reg)"
proof (induction reg rule: evict.induct)
  case (1 reg)
  then show ?case by (subst evict.simps) (auto split: option.splits intro: evict_step_ok)
qed

lemma evict_fields [simp]:
  "rg_capacity (evict reg) = rg_capacity reg" "rg_next_sequence (evict reg) = rg_next_sequence reg"
  by (induction reg rule: evict.induct; subst evict.simps; simp split: option.splits)+

text \<open>Eviction removes only terminal entries and changes none that it keeps.\<close>

lemma evict_get_live:
  "registry_get reg oid = Some s \<Longrightarrow> \<not> is_terminal_op s \<Longrightarrow> registry_get (evict reg) oid = Some s"
proof (induction reg rule: evict.induct)
  case (1 reg)
  show ?case
  proof (cases "position (is_terminal_entry reg) (rg_order reg)")
    case (Some i)
    let ?reg = "reg\<lparr>rg_order := remove_at i (rg_order reg),
                   rg_operations := AList.delete (rg_order reg ! i) (rg_operations reg)\<rparr>"
    have "rg_order reg ! i \<noteq> oid"
      using position_Some [OF Some] 1(2,3) by (auto simp: is_terminal_entry_iff)
    then have "registry_get ?reg oid = Some s"
      using 1(2) by (simp add: registry_get_def AList.delete_conv')
    then show ?thesis using 1 Some by (subst evict.simps) simp
  qed (use 1 in \<open>subst evict.simps, simp\<close>)
qed

lemma evict_get_sub: "registry_get (evict reg) oid = Some s \<Longrightarrow> registry_get reg oid = Some s"
proof (induction reg rule: evict.induct)
  case (1 reg)
  then show ?case
    by (subst (asm) (2) evict.simps)
      (auto simp: registry_get_def AList.delete_conv' split: if_splits option.splits)
qed

lemma evict_live_ids [simp]: "live_ids (evict reg) = live_ids reg"
  by (auto simp: live_ids_def dest: evict_get_live evict_get_sub)

text \<open>When the loop stops the table has room, or every entry left is live.\<close>

lemma evict_room:
  "registry_ok reg \<Longrightarrow> length (rg_operations (evict reg)) < rg_capacity reg \<or>
     (\<forall>oid s. registry_get (evict reg) oid = Some s \<longrightarrow> \<not> is_terminal_op s)"
proof (induction reg rule: evict.induct)
  case (1 reg)
  show ?case
  proof (cases "length (rg_operations reg) < rg_capacity reg")
    case False
    show ?thesis
    proof (cases "position (is_terminal_entry reg) (rg_order reg)")
      case None
      then have "\<not> is_terminal_op s" if "registry_get reg oid = Some s" for oid s
        using that 1(2) map_of_SomeD [of "rg_operations reg" oid]
        by (force simp: position_None is_terminal_entry_iff registry_ok_def registry_get_Some)
      then show ?thesis using None by (subst (2) evict.simps) (simp add: False)
    next
      case (Some i)
      then show ?thesis using 1(1) [OF False Some evict_step_ok [OF 1(2) Some]] False
        by (subst (1 2) evict.simps) simp
    qed
  qed (subst evict.simps, simp)
qed

subsection \<open>Counting\<close>

lemma registry_keys: "{oid. registry_get reg oid \<noteq> None} = fst ` set (rg_operations reg)"
  by (auto simp: registry_get_def map_of_eq_None_iff)

lemma registry_size: "registry_ok reg \<Longrightarrow> length (rg_operations reg) = card {oid. registry_get reg oid \<noteq> None}"
  unfolding registry_keys registry_ok_def by (metis distinct_card length_map list.set_map)

lemma finite_live_ids [simp]: "finite (live_ids reg)"
proof (rule finite_subset)
  show "live_ids reg \<subseteq> {oid. registry_get reg oid \<noteq> None}" by (auto simp: live_ids_def)
qed (unfold registry_keys, simp)

lemma evict_size:
  assumes "registry_ok reg"
  shows "length (rg_operations (evict reg)) < rg_capacity reg \<or>
         length (rg_operations (evict reg)) = card (live_ids reg)"
proof -
  have "{oid. registry_get (evict reg) oid \<noteq> None} = live_ids (evict reg)"
    if "\<forall>oid s. registry_get (evict reg) oid = Some s \<longrightarrow> \<not> is_terminal_op s"
    using that by (auto simp: live_ids_def)
  then show ?thesis using evict_room [OF assms] registry_size [OF evict_ok [OF assms]] by auto
qed

subsection \<open>Admission\<close>

definition new_entry :: "registry \<Rightarrow> string \<Rightarrow> registered_operation" where
  "new_entry reg digest = \<lparr>ro_digest = digest, ro_sequence = rg_next_sequence reg, ro_state = Queued\<rparr>"

text \<open>The table after eviction and after taking a sequence number; what a refused enqueue leaves.\<close>

definition admit_prepared :: "registry \<Rightarrow> registry" where
  "admit_prepared reg = (evict reg)\<lparr>rg_next_sequence := rg_next_sequence reg + 1\<rparr>"

definition admit_inserted :: "registry \<Rightarrow> operation_id \<Rightarrow> string \<Rightarrow> registry" where
  "admit_inserted reg oid digest =
     (admit_prepared reg)\<lparr>rg_operations := rg_operations (evict reg) @ [(oid, new_entry reg digest)],
                          rg_order := rg_order (evict reg) @ [oid]\<rparr>"

lemma evict_fresh: "registry_get reg oid = None \<Longrightarrow> map_of (rg_operations (evict reg)) oid = None"
  by (metis evict_get_sub not_Some_eq registry_get_None)

lemma admit_fresh:
  assumes "registry_get reg oid = None"
  shows "admit reg oid digest enqueue q =
     (case enqueue q of
        (Inr _, q') \<Rightarrow> (Inr (Registered (rg_next_sequence reg)), admit_inserted reg oid digest, q')
      | (Inl e, q') \<Rightarrow> (Inl (enqueue_error oid e), admit_prepared reg, q'))"
  using assms evict_fresh [OF assms]
  by (simp add: admit_def registry_get_None admit_inserted_def admit_prepared_def new_entry_def
      update_new delete_new Let_def split: prod.splits sum.splits)

lemma admit_known:
  assumes "registry_get reg oid \<noteq> None"
  shows "admit reg oid digest enqueue q =
     (let op = the (map_of (rg_operations reg) oid) in
      if ro_digest op = digest then (Inr (Existing (ro_sequence op) (ro_state op)), reg, q)
      else (Inl (conflict_error oid), reg, q))"
  using assms by (auto simp: admit_def registry_get_None)

lemma admit_prepared_get [simp]: "registry_get (admit_prepared reg) i = registry_get (evict reg) i"
  by (simp add: admit_prepared_def registry_get_def)

lemma admit_inserted_get:
  assumes "registry_get reg oid = None"
  shows "registry_get (admit_inserted reg oid digest) i =
           (if i = oid then Some Queued else registry_get (evict reg) i)"
  using evict_fresh [OF assms]
  by (auto simp: admit_inserted_def registry_get_def map_add_def new_entry_def split: option.splits)

lemma admit_prepared_ok: "registry_ok reg \<Longrightarrow> registry_ok (admit_prepared reg)"
  using evict_ok [of reg] by (simp add: registry_ok_def admit_prepared_def)

lemma admit_inserted_ok:
  assumes "registry_ok reg" "registry_get reg oid = None"
  shows "registry_ok (admit_inserted reg oid digest)"
  using evict_ok [OF assms(1)] evict_fresh [OF assms(2)]
  by (auto simp: registry_ok_def admit_inserted_def map_of_eq_None_iff)

lemma admit_fields [simp]:
  "rg_capacity (admit_prepared reg) = rg_capacity reg"
  "rg_capacity (admit_inserted reg oid digest) = rg_capacity reg"
  "rg_next_sequence (admit_prepared reg) = rg_next_sequence reg + 1"
  "rg_next_sequence (admit_inserted reg oid digest) = rg_next_sequence reg + 1"
  by (simp_all add: admit_prepared_def admit_inserted_def)

lemma admit_live_ids:
  "live_ids (admit_prepared reg) = live_ids reg"
  "registry_get reg oid = None \<Longrightarrow> live_ids (admit_inserted reg oid digest) = insert oid (live_ids reg)"
  using evict_live_ids [of reg]
  by (auto simp: live_ids_def admit_inserted_get split: if_splits)

lemma admit_size:
  assumes "registry_ok reg"
  shows "card (live_ids reg) \<le> rg_capacity reg \<Longrightarrow>
         length (rg_operations (admit_prepared reg)) \<le> rg_capacity reg"
    and "card (live_ids reg) < rg_capacity reg \<Longrightarrow>
         length (rg_operations (admit_inserted reg oid digest)) \<le> rg_capacity reg"
  using evict_size [OF assms] by (auto simp: admit_prepared_def admit_inserted_def)

lemma admit_cases:
  assumes "admit reg oid digest enqueue q = (res, reg', q')"
  obtains
    (existing) op where "map_of (rg_operations reg) oid = Some op" "ro_digest op = digest"
      "res = Inr (Existing (ro_sequence op) (ro_state op))" "reg' = reg" "q' = q"
  | (conflict) op where "map_of (rg_operations reg) oid = Some op" "ro_digest op \<noteq> digest"
      "res = Inl (conflict_error oid)" "reg' = reg" "q' = q"
  | (registered) "registry_get reg oid = None" "enqueue q = (Inr (), q')"
      "res = Inr (Registered (rg_next_sequence reg))" "reg' = admit_inserted reg oid digest"
  | (refused) e where "registry_get reg oid = None" "enqueue q = (Inl e, q')"
      "res = Inl (enqueue_error oid e)" "reg' = admit_prepared reg"
proof (cases "map_of (rg_operations reg) oid")
  case None
  then have fresh: "registry_get reg oid = None" by (simp add: registry_get_None)
  show thesis
    using assms registered [OF fresh] refused [OF fresh]
    by (auto simp: admit_fresh [OF fresh] split: prod.splits sum.splits unit.splits)
next
  case (Some op)
  then show thesis
    using assms existing [OF Some] conflict [OF Some] by (auto simp: admit_def split: if_splits)
qed

section \<open>The interface its clients use\<close>

text \<open>The executor needs only this much of the table: an update of a known operation is visible, an
  update of an unknown one is ignored, and no update touches another operation.\<close>

locale operation_table =
  fixes invar :: "'r \<Rightarrow> bool"
    and get :: "'r \<Rightarrow> operation_id \<Rightarrow> operation_state option"
    and set_state :: "'r \<Rightarrow> operation_id \<Rightarrow> operation_state \<Rightarrow> 'r"
  assumes invar_set: "invar r \<Longrightarrow> invar (set_state r oid s)"
    and get_set: "get (set_state r oid s) i = (if i = oid \<and> get r oid \<noteq> None then Some s else get r i)"
begin

text \<open>Writing a state to every operation of a list, oldest first.\<close>

lemma foldl_invar: "invar r \<Longrightarrow> invar (foldl (\<lambda>r w. set_state r (ident w) (st w)) r ws)"
  by (induction ws arbitrary: r) (auto simp: invar_set)

lemma foldl_known: "get (foldl (\<lambda>r w. set_state r (ident w) (st w)) r ws) i = None \<longleftrightarrow> get r i = None"
  by (induction ws arbitrary: r) (auto simp: get_set)

lemma foldl_other: "i \<notin> ident ` set ws \<Longrightarrow> get (foldl (\<lambda>r w. set_state r (ident w) (st w)) r ws) i = get r i"
  by (induction ws arbitrary: r) (auto simp: get_set)

lemma foldl_written:
  "i \<in> ident ` set ws \<Longrightarrow> get r i \<noteq> None \<Longrightarrow>
     \<exists>w \<in> set ws. ident w = i \<and> get (foldl (\<lambda>r w. set_state r (ident w) (st w)) r ws) i = Some (st w)"
proof (induction ws rule: rev_induct)
  case (snoc w ws)
  then show ?case
    using foldl_known [where r = r and ws = ws and ident = ident and st = st] by (auto simp: get_set)
qed simp

end

interpretation reg: operation_table registry_ok registry_get registry_set
  by unfold_locales (auto simp: registry_set_get)

end
