(* ===== verification/Executor.thy ===== *)
theory Executor
  imports Registry
begin

text \<open>
  The control plane at work (\<open>control/mod.rs\<close>, \<open>control/executor.rs\<close>): submission with its closing
  latch, idempotent admission and bounded queue, the shutdown path with its reserved permit, the
  executor loop and its drain.

  The handles and the executor run concurrently.  \<open>ctl_step\<close> is the interleaving of their atomic
  actions: a submitter reads the latch in one action and admits in a later one, the latch of an
  admitted shutdown is set by an action of its own, and so on.  The transaction an operation runs is
  a parameter \<open>exec\<close> of the relation, acting on a manager state of any type; it may return,
  fail or panic.
\<close>

section \<open>State\<close>

record work =
  w_id :: operation_id
  w_command :: core_command

datatype exec_outcome = Completed operation_output | Rejected core_error | Panicked string

datatype exec_phase =
    Waiting
  | Received work
  | Executing work
  | Closing executor_exit
  | Draining executor_exit
  | Exited executor_exit

text \<open>\<open>c_queue\<close>, \<open>c_permits\<close> and \<open>c_queue_closed\<close> are the bounded channel: buffered work, slots
  handed out by \<open>reserve\<close>, and whether the receiver closed it.  \<open>c_admitting\<close> holds submissions that
  passed the latch check, \<open>c_latching\<close> counts admitted shutdowns whose latch is not set yet,
  \<open>c_reserving\<close> counts shutdown callers waiting for a slot, and \<open>c_dropped\<close> says that every handle,
  and with it every sender, is gone.\<close>

record 'm control =
  c_registry :: registry
  c_queue :: "work list"
  c_queue_capacity :: nat
  c_permits :: nat
  c_queue_closed :: bool
  c_closing :: bool
  c_admitting :: "work list"
  c_latching :: nat
  c_reserving :: nat
  c_dropped :: bool
  c_exec :: exec_phase
  c_manager :: 'm

definition control_spawn :: "control_options \<Rightarrow> 'm \<Rightarrow> 'm control" where
  "control_spawn options manager =
     \<lparr>c_registry = registry_new (live_registry_capacity (co_registry_capacity options) (co_queue_capacity options)),
      c_queue = [], c_queue_capacity = co_queue_capacity options, c_permits = 0,
      c_queue_closed = False, c_closing = False, c_admitting = [], c_latching = 0, c_reserving = 0,
      c_dropped = False, c_exec = Waiting, c_manager = manager\<rparr>"

section \<open>Submission\<close>

text \<open>The controller settings of a reconcile are resolved at admission.\<close>

fun resolve_command :: "local_ipc_settings \<Rightarrow> core_command \<Rightarrow> core_command" where
  "resolve_command default_ipc (CmdReconcile request) =
     CmdReconcile (request\<lparr>rq_options := (rq_options request)
       \<lparr>opt_local_ipc := (case opt_local_ipc (rq_options request) of
                            None \<Rightarrow> Some default_ipc | Some s \<Rightarrow> Some s)\<rparr>\<rparr>)"
| "resolve_command default_ipc c = c"

definition shutting_down_error :: "operation_id \<Rightarrow> core_error" where
  "shutting_down_error oid =
     with_operation (core_error_new KShuttingDown ''the control plane is shutting down'' False) oid"

text \<open>\<open>try_send\<close> on the bounded channel; buffered work and reserved slots share the capacity.\<close>

definition try_send :: "work \<Rightarrow> 'm control \<Rightarrow> (try_send_error, unit) result \<times> 'm control" where
  "try_send work c =
     (if c_queue_closed c then (Inl ChannelClosed, c)
      else if length (c_queue c) + c_permits c < c_queue_capacity c
      then (Inr (), c\<lparr>c_queue := c_queue c @ [work]\<rparr>)
      else (Inl ChannelFull, c))"

text \<open>A reserved slot is filled even after the receiver closed the channel.\<close>

definition permit_send :: "work \<Rightarrow> 'm control \<Rightarrow> (try_send_error, unit) result \<times> 'm control" where
  "permit_send work c = (Inr (), c\<lparr>c_queue := c_queue c @ [work]\<rparr>)"

text \<open>The latch check of \<open>submit\<close>, and its admission; a registered shutdown still has to latch.\<close>

definition submit_check ::
  "local_ipc_settings \<Rightarrow> core_command_envelope \<Rightarrow> 'm control \<Rightarrow> (core_error, work) result" where
  "submit_check default_ipc envelope c =
     (if c_closing c then Inl (shutting_down_error (env_operation_id envelope))
      else Inr \<lparr>w_id = env_operation_id envelope,
                w_command = resolve_command default_ipc (env_command envelope)\<rparr>)"

definition submit_admit :: "work \<Rightarrow> 'm control \<Rightarrow> (core_error, admission) result \<times> 'm control" where
  "submit_admit work c =
     (case admit (c_registry c) (w_id work) (command_digest (w_command work)) (try_send work) c of
        (res, reg, c') \<Rightarrow>
          (res, c'\<lparr>c_registry := reg,
                   c_latching := c_latching c' +
                     (case res of Inr (Registered _) \<Rightarrow> if is_shutdown (w_command work) then 1 else 0
                                | _ \<Rightarrow> 0)\<rparr>))"

text \<open>\<open>submit\<close> without interference: check, admit, latch.\<close>

definition submit ::
  "local_ipc_settings \<Rightarrow> core_command_envelope \<Rightarrow> 'm control \<Rightarrow> (core_error, admission) result \<times> 'm control" where
  "submit default_ipc envelope c =
     (case submit_check default_ipc envelope c of
        Inl e \<Rightarrow> (Inl e, c)
      | Inr work \<Rightarrow>
          (case submit_admit work c of
             (res, c') \<Rightarrow>
               (res, c'\<lparr>c_latching := c_latching c, c_closing := c_closing c' \<or> c_latching c < c_latching c'\<rparr>)))"

text \<open>The admission of \<open>shutdown\<close>: the reserved slot is used by a new registration and given back
  otherwise.\<close>

definition shutdown_admit :: "operation_id \<Rightarrow> 'm control \<Rightarrow> (core_error, admission) result \<times> 'm control" where
  "shutdown_admit oid c =
     (let work = \<lparr>w_id = oid, w_command = CmdShutdown\<rparr> in
      case admit (c_registry c) oid (command_digest CmdShutdown) (permit_send work) c of
        (res, reg, c') \<Rightarrow> (res, c'\<lparr>c_registry := reg, c_permits := c_permits c' - 1\<rparr>))"

section \<open>The executor\<close>

definition panicked_error :: "operation_id \<Rightarrow> string \<Rightarrow> core_error" where
  "panicked_error oid join =
     with_operation (core_error_new KInternal (''the control operation panicked: '' @ join) False) oid"

text \<open>What the drain writes: after a panic everything failed; after a clean shutdown a queued shutdown
  was accomplished by the one that ran.\<close>

fun drain_state :: "executor_exit \<Rightarrow> work \<Rightarrow> operation_state" where
  "drain_state ExitDied work =
     Failed (with_operation (core_error_new KInternal ''the control executor died'' False) (w_id work))"
| "drain_state ExitClean work =
     (case w_command work of
        CmdShutdown \<Rightarrow> Succeeded OutShutDown
      | _ \<Rightarrow> Failed (with_operation
               (core_error_new KShuttingDown
                 ''the control plane shut down before this queued operation ran'' False) (w_id work)))"

definition set_op :: "operation_id \<Rightarrow> operation_state \<Rightarrow> 'm control \<Rightarrow> 'm control" where
  "set_op oid s c = c\<lparr>c_registry := registry_set (c_registry c) oid s\<rparr>"

text \<open>The end of one transaction.\<close>

definition finish :: "work \<Rightarrow> exec_outcome \<Rightarrow> 'm control \<Rightarrow> 'm control" where
  "finish work outcome c =
     (case outcome of
        Panicked join \<Rightarrow>
          (set_op (w_id work) (Failed (panicked_error (w_id work) join)) c)
            \<lparr>c_closing := True, c_exec := Closing ExitDied\<rparr>
      | Completed out \<Rightarrow>
          (set_op (w_id work) (Succeeded out) c)
            \<lparr>c_exec := (if is_shutdown (w_command work) then Closing ExitClean else Waiting)\<rparr>
      | Rejected e \<Rightarrow>
          (set_op (w_id work) (Failed e) c)
            \<lparr>c_exec := (if is_shutdown (w_command work) then Closing ExitClean else Waiting)\<rparr>)"

text \<open>One action of the executor task; \<open>None\<close> when it is blocked or has exited.\<close>

definition exec_action ::
  "(operation_id \<Rightarrow> core_command \<Rightarrow> 'm \<Rightarrow> exec_outcome \<times> 'm) \<Rightarrow> 'm control \<Rightarrow> 'm control option" where
  "exec_action exec c =
     (case c_exec c of
        Waiting \<Rightarrow>
          (case c_queue c of
             [] \<Rightarrow> if c_dropped c then Some (c\<lparr>c_exec := Closing ExitClean\<rparr>) else None
           | work # rest \<Rightarrow> Some (c\<lparr>c_queue := rest, c_exec := Received work\<rparr>))
      | Received work \<Rightarrow>
          if \<not> is_shutdown (w_command work) \<and> c_closing c
          then Some ((set_op (w_id work) (Failed (shutting_down_error (w_id work))) c)\<lparr>c_exec := Waiting\<rparr>)
          else Some ((set_op (w_id work) Running c)\<lparr>c_exec := Executing work\<rparr>)
      | Executing work \<Rightarrow>
          (case exec (w_id work) (w_command work) (c_manager c) of
             (outcome, m) \<Rightarrow> Some (finish work outcome (c\<lparr>c_manager := m\<rparr>)))
      | Closing how \<Rightarrow> Some (c\<lparr>c_queue_closed := True, c_exec := Draining how\<rparr>)
      | Draining how \<Rightarrow>
          (case c_queue c of
             work # rest \<Rightarrow> Some ((set_op (w_id work) (drain_state how work) c)\<lparr>c_queue := rest\<rparr>)
           | [] \<Rightarrow> if c_permits c = 0 then Some (c\<lparr>c_exec := Exited how\<rparr>) else None)
      | Exited how \<Rightarrow> None)"

section \<open>Interleaving\<close>

inductive ctl_step ::
  "local_ipc_settings \<Rightarrow> (operation_id \<Rightarrow> core_command \<Rightarrow> 'm \<Rightarrow> exec_outcome \<times> 'm) \<Rightarrow>
     'm control \<Rightarrow> 'm control \<Rightarrow> bool"
  for default_ipc :: local_ipc_settings
  and exec :: "operation_id \<Rightarrow> core_command \<Rightarrow> 'm \<Rightarrow> exec_outcome \<times> 'm"
where
  Check: "\<lbrakk>\<not> c_dropped c; submit_check default_ipc envelope c = Inr work\<rbrakk> \<Longrightarrow>
     ctl_step default_ipc exec c (c\<lparr>c_admitting := work # c_admitting c\<rparr>)"
| Admit: "\<lbrakk>work \<in> set (c_admitting c); submit_admit work c = (res, c')\<rbrakk> \<Longrightarrow>
     ctl_step default_ipc exec c (c'\<lparr>c_admitting := remove1 work (c_admitting c')\<rparr>)"
| Latch: "0 < c_latching c \<Longrightarrow>
     ctl_step default_ipc exec c (c\<lparr>c_closing := True, c_latching := c_latching c - 1\<rparr>)"
| ShutdownLatch: "\<not> c_dropped c \<Longrightarrow>
     ctl_step default_ipc exec c (c\<lparr>c_closing := True, c_reserving := c_reserving c + 1\<rparr>)"
| Reserve: "\<lbrakk>0 < c_reserving c; \<not> c_queue_closed c; length (c_queue c) + c_permits c < c_queue_capacity c\<rbrakk> \<Longrightarrow>
     ctl_step default_ipc exec c (c\<lparr>c_reserving := c_reserving c - 1, c_permits := c_permits c + 1\<rparr>)"
| ReserveClosed: "\<lbrakk>0 < c_reserving c; c_queue_closed c\<rbrakk> \<Longrightarrow>
     ctl_step default_ipc exec c (c\<lparr>c_reserving := c_reserving c - 1\<rparr>)"
| ShutdownAdmit: "\<lbrakk>0 < c_permits c; shutdown_admit oid c = (res, c')\<rbrakk> \<Longrightarrow>
     ctl_step default_ipc exec c c'"
| Exec: "exec_action exec c = Some c' \<Longrightarrow> ctl_step default_ipc exec c c'"
| Drop: "\<lbrakk>c_admitting c = []; c_permits c = 0; c_reserving c = 0; c_latching c = 0\<rbrakk> \<Longrightarrow>
     ctl_step default_ipc exec c (c\<lparr>c_dropped := True\<rparr>)"

text \<open>The states reachable in a number of steps from a freshly spawned control plane.\<close>

inductive ctl_reach ::
  "local_ipc_settings \<Rightarrow> (operation_id \<Rightarrow> core_command \<Rightarrow> 'm \<Rightarrow> exec_outcome \<times> 'm) \<Rightarrow>
     'm control \<Rightarrow> nat \<Rightarrow> 'm control \<Rightarrow> bool"
  for default_ipc exec c0
where
  start: "ctl_reach default_ipc exec c0 0 c0"
| step: "\<lbrakk>ctl_reach default_ipc exec c0 n c; ctl_step default_ipc exec c c'\<rbrakk> \<Longrightarrow>
     ctl_reach default_ipc exec c0 (Suc n) c'"

inductive_cases ctl_stepE: "ctl_step default_ipc exec c c'"

section \<open>Invariant\<close>

fun current_work :: "exec_phase \<Rightarrow> work list" where
  "current_work (Received w) = [w]"
| "current_work (Executing w) = [w]"
| "current_work _ = []"

text \<open>The admitted work that has no terminal state yet, in the order it will be handled.\<close>

definition pending :: "'m control \<Rightarrow> work list" where
  "pending c = current_work (c_exec c) @ c_queue c"

fun receiver_closed :: "exec_phase \<Rightarrow> bool" where
  "receiver_closed (Draining _) = True"
| "receiver_closed (Exited _) = True"
| "receiver_closed _ = False"

definition ctl_ok :: "'m control \<Rightarrow> bool" where
  "ctl_ok c =
     (registry_ok (c_registry c) \<and>
      length (rg_operations (c_registry c)) \<le> rg_capacity (c_registry c) \<and>
      c_queue_capacity c < rg_capacity (c_registry c) \<and>
      length (c_queue c) + c_permits c \<le> c_queue_capacity c \<and>
      distinct (map w_id (pending c)) \<and>
      live_ids (c_registry c) = w_id ` set (pending c) \<and>
      c_queue_closed c = receiver_closed (c_exec c) \<and>
      (\<forall>how. c_exec c = Exited how \<longrightarrow> c_queue c = [] \<and> c_permits c = 0))"

definition options_ok :: "control_options \<Rightarrow> bool" where
  "options_ok options = (0 < co_queue_capacity options \<and> co_queue_capacity options < usize_max)"

lemma ctl_ok_spawn: "options_ok options \<Longrightarrow> ctl_ok (control_spawn options m)"
  by (auto simp: ctl_ok_def control_spawn_def pending_def live_ids_def options_ok_def
      live_registry_capacity_def registry_new_def registry_ok_def registry_get_def)

lemma set_op_live:
  "live_ids (registry_set reg oid s) =
     (if registry_get reg oid = None then live_ids reg
      else if is_terminal_op s then live_ids reg - {oid} else insert oid (live_ids reg))"
  by (auto simp: live_ids_def registry_set_get)

lemma live_known: "oid \<in> live_ids reg \<Longrightarrow> registry_get reg oid \<noteq> None"
  by (auto simp: live_ids_def)

lemma set_op_fields [simp]:
  "c_queue (set_op oid s c) = c_queue c" "c_permits (set_op oid s c) = c_permits c"
  "c_queue_capacity (set_op oid s c) = c_queue_capacity c" "c_exec (set_op oid s c) = c_exec c"
  "c_queue_closed (set_op oid s c) = c_queue_closed c" "c_closing (set_op oid s c) = c_closing c"
  "c_registry (set_op oid s c) = registry_set (c_registry c) oid s"
  by (simp_all add: set_op_def)

lemma drain_state_terminal [simp]: "is_terminal_op (drain_state how w)"
  by (cases how) (auto split: core_command.splits)

lemma ctl_ok_live_card: "ctl_ok c \<Longrightarrow> card (live_ids (c_registry c)) = length (pending c)"
  by (metis (no_types, lifting) ctl_ok_def distinct_card length_map list.set_map)

lemma exec_action_ok:
  assumes "ctl_ok c" "exec_action exec c = Some c'"
  shows "ctl_ok c'"
proof -
  note simps = ctl_ok_def pending_def set_op_live
  show ?thesis
  proof (cases "c_exec c")
    case Waiting
    then show ?thesis using assms
      by (auto simp: exec_action_def simps split: list.splits if_splits)
  next
    case (Received w)
    then have "registry_get (c_registry c) (w_id w) \<noteq> None"
      using assms(1) by (intro live_known) (auto simp: simps)
    then show ?thesis using assms Received
      by (auto simp: exec_action_def simps split: if_splits)
  next
    case (Executing w)
    then have "registry_get (c_registry c) (w_id w) \<noteq> None"
      using assms(1) by (intro live_known) (auto simp: simps)
    then show ?thesis using assms Executing
      by (auto simp: exec_action_def simps finish_def split: prod.splits exec_outcome.splits if_splits)
  next
    case (Draining how)
    show ?thesis
    proof (cases "c_queue c")
      case Nil
      then show ?thesis using assms Draining by (auto simp: exec_action_def simps split: if_splits)
    next
      case (Cons w rest)
      then have "registry_get (c_registry c) (w_id w) \<noteq> None"
        using assms(1) by (intro live_known) (auto simp: simps)
      then show ?thesis using assms Draining Cons by (auto simp: exec_action_def simps)
    qed
  qed (use assms in \<open>auto simp: exec_action_def simps\<close>)
qed

lemma try_send_cases:
  assumes "try_send work c = (r, c')"
  obtains (sent) "r = Inr ()" "c' = c\<lparr>c_queue := c_queue c @ [work]\<rparr>" "\<not> c_queue_closed c"
      "length (c_queue c) + c_permits c < c_queue_capacity c"
  | (refused) e where "r = Inl e" "c' = c"
  using assms by (auto simp: try_send_def split: if_splits)

lemma submit_admit_cases:
  assumes "submit_admit work c = (res, c')"
  obtains (same) "c' = c"
  | (refused) "registry_get (c_registry c) (w_id work) = None"
      "c' = c\<lparr>c_registry := admit_prepared (c_registry c)\<rparr>" "\<not> is_ok res"
  | (queued) seq where "registry_get (c_registry c) (w_id work) = None" "\<not> c_queue_closed c"
      "length (c_queue c) + c_permits c < c_queue_capacity c" "res = Inr (Registered seq)"
      "c' = c\<lparr>c_queue := c_queue c @ [work],
             c_registry := admit_inserted (c_registry c) (w_id work) (command_digest (w_command work)),
             c_latching := c_latching c + (if is_shutdown (w_command work) then 1 else 0)\<rparr>"
proof -
  obtain reg1 c1 where adm:
    "admit (c_registry c) (w_id work) (command_digest (w_command work)) (try_send work) c = (res, reg1, c1)"
    using assms by (auto simp: submit_admit_def split: prod.splits)
  show thesis
    using adm
  proof (cases rule: admit_cases)
    case registered
    then show thesis using assms adm
      by (elim try_send_cases) (auto simp: submit_admit_def intro!: queued [OF registered(1)])
  next
    case (refused e)
    then have "c1 = c" by (elim try_send_cases) auto
    then show thesis using assms adm refused that(2) by (auto simp: submit_admit_def)
  qed (use assms adm in \<open>auto simp: submit_admit_def intro!: same\<close>)
qed

lemma admit_refused_ok:
  assumes "ctl_ok c"
  shows "ctl_ok (c\<lparr>c_registry := admit_prepared (c_registry c)\<rparr>)"
proof -
  have "card (live_ids (c_registry c)) \<le> rg_capacity (c_registry c)"
    using assms ctl_ok_live_card [OF assms]
    by (cases "c_exec c") (auto simp: ctl_ok_def pending_def)
  then show ?thesis using assms admit_size(1) [of "c_registry c"]
    by (simp add: ctl_ok_def pending_def admit_prepared_ok admit_live_ids)
qed

lemma admit_queued_ok:
  assumes "ctl_ok c" "registry_get (c_registry c) (w_id work) = None"
    and "length (c_queue c) + p < c_queue_capacity c" "p \<le> c_permits c" "c_permits c \<le> Suc p"
    and "\<not> (\<exists>how. c_exec c = Exited how)"
  shows "ctl_ok (c\<lparr>c_queue := c_queue c @ [work],
                   c_registry := admit_inserted (c_registry c) (w_id work) digest, c_permits := p\<rparr>)"
proof -
  have "length (pending c) \<le> Suc (length (c_queue c))" by (cases "c_exec c") (simp_all add: pending_def)
  then have "card (live_ids (c_registry c)) < rg_capacity (c_registry c)"
    using assms(1,3) ctl_ok_live_card [OF assms(1)] by (auto simp: ctl_ok_def)
  moreover have "w_id work \<notin> live_ids (c_registry c)" using assms(2) live_known by blast
  ultimately show ?thesis using assms admit_size(2) [of "c_registry c"]
    by (auto simp: ctl_ok_def pending_def admit_inserted_ok admit_live_ids)
qed

lemma ctl_ok_irrelevant [simp]:
  "ctl_ok (c\<lparr>c_admitting := a\<rparr>) = ctl_ok c"
  "ctl_ok (c\<lparr>c_closing := b\<rparr>) = ctl_ok c"
  "ctl_ok (c\<lparr>c_latching := l\<rparr>) = ctl_ok c"
  "ctl_ok (c\<lparr>c_reserving := r\<rparr>) = ctl_ok c"
  "ctl_ok (c\<lparr>c_dropped := b\<rparr>) = ctl_ok c"
  by (simp_all add: ctl_ok_def pending_def)

lemma ctl_ok_open: "ctl_ok c \<Longrightarrow> \<not> c_queue_closed c \<Longrightarrow> \<not> (\<exists>how. c_exec c = Exited how)"
  by (auto simp: ctl_ok_def)

lemma ctl_ok_permit: "ctl_ok c \<Longrightarrow> 0 < c_permits c \<Longrightarrow> \<not> (\<exists>how. c_exec c = Exited how)"
  by (auto simp: ctl_ok_def)

lemma ctl_ok_permits_less: "ctl_ok c \<Longrightarrow> p \<le> c_permits c \<Longrightarrow> ctl_ok (c\<lparr>c_permits := p\<rparr>)"
  by (auto simp: ctl_ok_def pending_def)

lemma submit_admit_ok:
  assumes "ctl_ok c" "submit_admit work c = (res, c')"
  shows "ctl_ok c'"
  using assms(2)
proof (cases rule: submit_admit_cases)
  case same
  then show ?thesis using assms by simp
next
  case refused
  then show ?thesis using admit_refused_ok [OF assms(1)] by simp
next
  case (queued seq)
  have "ctl_ok (c\<lparr>c_queue := c_queue c @ [work],
      c_registry := admit_inserted (c_registry c) (w_id work) (command_digest (w_command work)),
      c_permits := c_permits c\<rparr>)"
    using assms(1) queued ctl_ok_open by (intro admit_queued_ok) auto
  then show ?thesis using queued by simp
qed

lemma shutdown_admit_cases:
  assumes "shutdown_admit oid c = (res, c')"
  obtains (same) "c' = c\<lparr>c_permits := c_permits c - 1\<rparr>"
  | (queued) "registry_get (c_registry c) oid = None"
      "c' = c\<lparr>c_queue := c_queue c @ [\<lparr>w_id = oid, w_command = CmdShutdown\<rparr>],
             c_registry := admit_inserted (c_registry c) oid (command_digest CmdShutdown),
             c_permits := c_permits c - 1\<rparr>"
  using assms by (auto simp: shutdown_admit_def permit_send_def Let_def split: prod.splits elim!: admit_cases)

lemma shutdown_admit_ok:
  assumes "ctl_ok c" "0 < c_permits c" "shutdown_admit oid c = (res, c')"
  shows "ctl_ok c'"
  using assms(3)
proof (cases rule: shutdown_admit_cases)
  case same
  then show ?thesis using ctl_ok_permits_less [OF assms(1)] by simp
next
  case queued
  have cap: "length (c_queue c) + (c_permits c - 1) < c_queue_capacity c"
    using assms(1,2) by (auto simp: ctl_ok_def)
  show ?thesis
    using admit_queued_ok [OF assms(1), of "\<lparr>w_id = oid, w_command = CmdShutdown\<rparr>" "c_permits c - 1"]
      queued cap ctl_ok_permit [OF assms(1,2)] by simp
qed

lemma reserve_ok:
  assumes "ctl_ok c" "\<not> c_queue_closed c" "length (c_queue c) + c_permits c < c_queue_capacity c"
  shows "ctl_ok (c\<lparr>c_permits := c_permits c + 1\<rparr>)"
  using assms ctl_ok_open [OF assms(1,2)] by (auto simp: ctl_ok_def pending_def)

lemma ctl_step_ok:
  assumes "ctl_ok c" "ctl_step default_ipc exec c c'"
  shows "ctl_ok c'"
  using assms(2)
proof cases
  case Reserve
  then show ?thesis using reserve_ok [OF assms(1)] by (simp add: ctl_ok_def pending_def)
qed (use assms(1) submit_admit_ok shutdown_admit_ok exec_action_ok in auto)

lemma ctl_reach_ok:
  assumes "options_ok options" "ctl_reach default_ipc exec (control_spawn options m) n c"
  shows "ctl_ok c"
  using assms(2) by induction (auto intro: ctl_step_ok ctl_ok_spawn [OF assms(1)])

subsection \<open>Results are final\<close>

text \<open>What one step does to an operation already in the registry.\<close>

definition result_kept :: "registry \<Rightarrow> registry \<Rightarrow> bool" where
  "result_kept reg reg' =
     (\<forall>oid s. registry_get reg oid = Some s \<longrightarrow>
        (if is_terminal_op s then registry_get reg' oid = Some s \<or> registry_get reg' oid = None
         else registry_get reg' oid \<noteq> None))"

lemma result_kept_refl [simp]: "result_kept reg reg"
  by (simp add: result_kept_def)

lemma result_kept_set:
  "oid \<in> live_ids reg \<Longrightarrow> result_kept reg (registry_set reg oid s)"
  by (auto simp: result_kept_def registry_set_get live_ids_def)

lemma result_kept_admit:
  "result_kept reg (admit_prepared reg)"
  "registry_get reg oid = None \<Longrightarrow> result_kept reg (admit_inserted reg oid digest)"
proof -
  have kept: "result_kept reg (evict reg)"
    unfolding result_kept_def
  proof (intro allI impI)
    fix i s
    assume i: "registry_get reg i = Some s"
    show "if is_terminal_op s then registry_get (evict reg) i = Some s \<or> registry_get (evict reg) i = None
          else registry_get (evict reg) i \<noteq> None"
      using evict_get_live [OF i] evict_get_sub [of reg i] i by (cases "registry_get (evict reg) i") auto
  qed
  then show "result_kept reg (admit_prepared reg)" by (simp add: result_kept_def)
  assume fresh: "registry_get reg oid = None"
  then have "registry_get reg i = Some s \<Longrightarrow> i \<noteq> oid" for i s by auto
  then show "result_kept reg (admit_inserted reg oid digest)"
    using kept unfolding result_kept_def admit_inserted_get [OF fresh] by (metis (no_types, lifting))
qed

lemma pending_live:
  assumes "ctl_ok c" "w \<in> set (pending c)"
  shows "w_id w \<in> live_ids (c_registry c)"
  using assms by (simp add: ctl_ok_def)

lemma exec_action_registry:
  assumes "exec_action exec c = Some c'"
  shows "c_registry c' = c_registry c \<or>
         (\<exists>w \<in> set (pending c). \<exists>s. c_registry c' = registry_set (c_registry c) (w_id w) s)"
  using assms
  by (cases "c_exec c"; auto simp: exec_action_def finish_def pending_def split: list.splits if_splits
      prod.splits exec_outcome.splits)

lemma exec_action_kept:
  assumes "ctl_ok c" "exec_action exec c = Some c'"
  shows "result_kept (c_registry c) (c_registry c')"
  using exec_action_registry [OF assms(2)] result_kept_set pending_live [OF assms(1)] by auto

lemma ctl_step_kept:
  assumes "ctl_ok c" "ctl_step default_ipc exec c c'"
  shows "result_kept (c_registry c) (c_registry c')"
  using assms(2)
proof cases
  case (Admit work res d)
  from Admit(3) show ?thesis
    by (cases rule: submit_admit_cases) (use Admit in \<open>auto simp: result_kept_admit\<close>)
next
  case (ShutdownAdmit oid res)
  from ShutdownAdmit(2) show ?thesis
    by (cases rule: shutdown_admit_cases) (auto simp: result_kept_admit)
next
  case Exec
  then show ?thesis using exec_action_kept [OF assms(1)] by simp
qed simp_all

subsection \<open>Every admitted operation is settled\<close>

fun phase_weight :: "exec_phase \<Rightarrow> nat" where
  "phase_weight (Received _) = 4"
| "phase_weight (Executing _) = 3"
| "phase_weight (Closing _) = 2"
| "phase_weight (Draining _) = 1"
| "phase_weight _ = 0"

definition work_left :: "'m control \<Rightarrow> nat" where
  "work_left c = 5 * length (c_queue c) + phase_weight (c_exec c)"

lemma exec_action_decreases:
  assumes "exec_action exec c = Some c'" "pending c \<noteq> []"
  shows "work_left c' < work_left c"
  using assms
  by (cases "c_exec c"; auto simp: exec_action_def work_left_def finish_def pending_def
      split: list.splits if_splits prod.splits exec_outcome.splits)

lemma exec_action_enabled:
  assumes "ctl_ok c" "pending c \<noteq> []"
  shows "\<exists>c'. exec_action exec c = Some c'"
  using assms
  by (cases "c_exec c"; auto simp: exec_action_def pending_def ctl_ok_def split: list.splits prod.splits)

text \<open>Actions of the executor alone.\<close>

inductive exec_steps ::
  "(operation_id \<Rightarrow> core_command \<Rightarrow> 'm \<Rightarrow> exec_outcome \<times> 'm) \<Rightarrow> 'm control \<Rightarrow> 'm control \<Rightarrow> bool"
  for exec
where
  refl: "exec_steps exec c c"
| step: "\<lbrakk>exec_action exec c = Some d; exec_steps exec d e\<rbrakk> \<Longrightarrow> exec_steps exec c e"

lemma exec_steps_settle:
  "ctl_ok c \<Longrightarrow> \<exists>d. exec_steps exec c d \<and> ctl_ok d \<and> pending d = []"
proof (induction "work_left c" arbitrary: c rule: less_induct)
  case less
  show ?case
  proof (cases "pending c = []")
    case True
    then show ?thesis using less.prems exec_steps.refl by blast
  next
    case False
    then obtain c' where c': "exec_action exec c = Some c'" using exec_action_enabled less.prems by blast
    from less.hyps [OF exec_action_decreases [OF c' False] exec_action_ok [OF less.prems c']]
    show ?thesis using exec_steps.step [OF c'] by blast
  qed
qed

lemma pending_empty_terminal:
  assumes "ctl_ok c" "pending c = []" "registry_get (c_registry c) oid = Some s"
  shows "is_terminal_op s"
  using assms by (auto simp: ctl_ok_def live_ids_def)

lemma exited_pending: "ctl_ok c \<Longrightarrow> c_exec c = Exited how \<Longrightarrow> pending c = []"
  by (simp add: ctl_ok_def pending_def)

subsection \<open>Sequence numbers\<close>

definition registry_sequence :: "registry \<Rightarrow> operation_id \<Rightarrow> 64 word option" where
  "registry_sequence reg oid = map_option ro_sequence (map_of (rg_operations reg) oid)"

definition sequence_of :: "registry \<Rightarrow> work \<Rightarrow> nat" where
  "sequence_of reg w = unat (the (registry_sequence reg (w_id w)))"

lemma registry_sequence_set [simp]:
  "registry_sequence (registry_set reg oid s) i = registry_sequence reg i"
  by (auto simp: registry_sequence_def registry_set_def AList.update_conv' split: option.splits)

lemma evict_sequence:
  "i \<in> live_ids reg \<Longrightarrow> registry_sequence (evict reg) i = registry_sequence reg i"
proof (induction reg rule: evict.induct)
  case (1 reg)
  show ?case
  proof (cases "position (is_terminal_entry reg) (rg_order reg)")
    case (Some k)
    let ?reg = "reg\<lparr>rg_order := remove_at k (rg_order reg),
                   rg_operations := AList.delete (rg_order reg ! k) (rg_operations reg)\<rparr>"
    have "rg_order reg ! k \<noteq> i"
      using position_Some [OF Some] 1(2) by (auto simp: is_terminal_entry_iff live_ids_def)
    then have "i \<in> live_ids ?reg" "registry_sequence ?reg i = registry_sequence reg i"
      using 1(2) by (auto simp: live_ids_def registry_get_def registry_sequence_def AList.delete_conv')
    then show ?thesis using 1 Some by (subst evict.simps) simp
  qed (subst evict.simps, simp)
qed

lemma admit_sequence:
  "i \<in> live_ids reg \<Longrightarrow> registry_sequence (admit_prepared reg) i = registry_sequence reg i"
  "registry_get reg oid = None \<Longrightarrow> i \<in> live_ids reg \<Longrightarrow>
     registry_sequence (admit_inserted reg oid digest) i = registry_sequence reg i"
  "registry_get reg oid = None \<Longrightarrow>
     registry_sequence (admit_inserted reg oid digest) oid = Some (rg_next_sequence reg)"
proof -
  have live: "i \<in> live_ids reg \<Longrightarrow> map_of (rg_operations (evict reg)) i \<noteq> None"
    using live_known [of i "evict reg"] by (simp add: registry_get_None)
  show "i \<in> live_ids reg \<Longrightarrow> registry_sequence (admit_prepared reg) i = registry_sequence reg i"
    using evict_sequence [of i reg] by (simp add: admit_prepared_def registry_sequence_def)
  show "registry_get reg oid = None \<Longrightarrow> i \<in> live_ids reg \<Longrightarrow>
     registry_sequence (admit_inserted reg oid digest) i = registry_sequence reg i"
    using evict_sequence [of i reg] live
    by (auto simp: admit_inserted_def registry_sequence_def map_add_def dest: live_known split: option.splits)
  show "registry_get reg oid = None \<Longrightarrow>
     registry_sequence (admit_inserted reg oid digest) oid = Some (rg_next_sequence reg)"
    by (simp add: admit_inserted_def registry_sequence_def new_entry_def evict_fresh map_add_def)
qed

text \<open>The pending work is in strictly increasing sequence order, below the next number to hand out.\<close>

definition in_sequence :: "'m control \<Rightarrow> bool" where
  "in_sequence c =
     (let reg = c_registry c; seqs = map (sequence_of reg) (pending c) in
      sorted_wrt (<) seqs \<and> (\<forall>k \<in> set seqs. k < unat (rg_next_sequence reg)))"

lemma in_sequence_cong:
  assumes "\<forall>w \<in> set (pending c'). sequence_of (c_registry c') w = sequence_of (c_registry c) w"
    and "rg_next_sequence (c_registry c') = rg_next_sequence (c_registry c)"
    and "in_sequence c" "\<exists>pre. pending c = pre @ pending c'"
  shows "in_sequence c'"
proof -
  have eq: "map (sequence_of (c_registry c')) (pending c') = map (sequence_of (c_registry c)) (pending c')"
    using assms(1) by simp
  show ?thesis using assms(3,4) unfolding in_sequence_def Let_def eq assms(2)
    by (auto simp: sorted_wrt_append)
qed

lemma exec_action_sequence:
  assumes "in_sequence c" "exec_action exec c = Some c'"
  shows "in_sequence c'"
proof (rule in_sequence_cong [OF _ _ assms(1)])
  show "\<forall>w \<in> set (pending c'). sequence_of (c_registry c') w = sequence_of (c_registry c) w"
    "rg_next_sequence (c_registry c') = rg_next_sequence (c_registry c)"
    using exec_action_registry [OF assms(2)] by (auto simp: sequence_of_def)
  show "\<exists>pre. pending c = pre @ pending c'"
    using assms(2)
    by (cases "c_exec c"; auto simp: exec_action_def finish_def pending_def
        split: list.splits if_splits prod.splits exec_outcome.splits)
qed

lemma admit_prepared_sequence:
  assumes "ctl_ok c" "in_sequence c" "unat (rg_next_sequence (c_registry c)) + 1 < 2 ^ 64"
  shows "in_sequence (c\<lparr>c_registry := admit_prepared (c_registry c)\<rparr>)"
proof -
  let ?c = "c\<lparr>c_registry := admit_prepared (c_registry c)\<rparr>"
  have nxt: "unat (rg_next_sequence (c_registry c) + 1) = unat (rg_next_sequence (c_registry c)) + 1"
    using assms(3) by (simp add: unat_add_lt)
  have "sequence_of (admit_prepared (c_registry c)) w = sequence_of (c_registry c) w"
    if "w \<in> set (pending c)" for w
    using admit_sequence(1) pending_live [OF assms(1) that] by (simp add: sequence_of_def)
  then have eq: "map (sequence_of (c_registry ?c)) (pending ?c) = map (sequence_of (c_registry c)) (pending c)"
    by (simp add: pending_def)
  show ?thesis using assms(2) unfolding in_sequence_def Let_def eq by (auto simp: nxt less_SucI)
qed

lemma admit_queued_sequence:
  assumes "ctl_ok c" "in_sequence c" "unat (rg_next_sequence (c_registry c)) + 1 < 2 ^ 64"
    and "registry_get (c_registry c) (w_id work) = None"
    and "c_registry c' = admit_inserted (c_registry c) (w_id work) digest"
    and "c_queue c' = c_queue c @ [work]" "c_exec c' = c_exec c"
  shows "in_sequence c'"
proof -
  let ?reg = "c_registry c" and ?reg' = "admit_inserted (c_registry c) (w_id work) digest"
  have nxt: "unat (rg_next_sequence ?reg + 1) = unat (rg_next_sequence ?reg) + 1"
    using assms(3) by (simp add: unat_add_lt)
  have "sequence_of ?reg' w = sequence_of ?reg w" if "w \<in> set (pending c)" for w
    using admit_sequence(2) [OF assms(4)] pending_live [OF assms(1) that] by (simp add: sequence_of_def)
  then have old: "map (sequence_of ?reg') (pending c) = map (sequence_of ?reg) (pending c)" by simp
  have new: "sequence_of ?reg' work = unat (rg_next_sequence ?reg)"
    using admit_sequence(3) [OF assms(4)] by (simp add: sequence_of_def)
  have "map (sequence_of ?reg') (pending c') = map (sequence_of ?reg) (pending c) @ [unat (rg_next_sequence ?reg)]"
    using assms(6,7) old new by (simp add: pending_def)
  then show ?thesis using assms(2) unfolding in_sequence_def Let_def assms(5)
    by (auto simp: sorted_wrt_append nxt less_SucI)
qed

lemma in_sequence_irrelevant [simp]:
  "in_sequence (c\<lparr>c_admitting := a\<rparr>) = in_sequence c"
  "in_sequence (c\<lparr>c_closing := b\<rparr>) = in_sequence c"
  "in_sequence (c\<lparr>c_latching := l\<rparr>) = in_sequence c"
  "in_sequence (c\<lparr>c_reserving := r\<rparr>) = in_sequence c"
  "in_sequence (c\<lparr>c_permits := r\<rparr>) = in_sequence c"
  "in_sequence (c\<lparr>c_dropped := b\<rparr>) = in_sequence c"
  by (simp_all add: in_sequence_def pending_def)

lemma ctl_step_sequence:
  assumes "ctl_ok c" "in_sequence c" "unat (rg_next_sequence (c_registry c)) + 1 < 2 ^ 64"
    and "ctl_step default_ipc exec c c'"
  shows "in_sequence c' \<and> unat (rg_next_sequence (c_registry c')) \<le> unat (rg_next_sequence (c_registry c)) + 1"
proof -
  have nxt: "unat (rg_next_sequence (c_registry c) + 1) = unat (rg_next_sequence (c_registry c)) + 1"
    using assms(3) by (simp add: unat_add_lt)
  show ?thesis
    using assms(4)
  proof cases
    case (Admit work res d)
    from Admit(3) show ?thesis
    proof (cases rule: submit_admit_cases)
      case (queued seq)
      then have "in_sequence d"
        by (intro admit_queued_sequence [OF assms(1-3), of work d]) auto
      then show ?thesis using queued Admit nxt by simp
    qed (use Admit assms nxt admit_prepared_sequence [OF assms(1-3)] in auto)
  next
    case (ShutdownAdmit oid res)
    from ShutdownAdmit(2) show ?thesis
    proof (cases rule: shutdown_admit_cases)
      case queued
      then have "in_sequence c'"
        by (intro admit_queued_sequence [OF assms(1-3), of "\<lparr>w_id = oid, w_command = CmdShutdown\<rparr>" c']) auto
      then show ?thesis using queued nxt by simp
    qed (use assms in auto)
  next
    case Exec
    then show ?thesis using exec_action_sequence [OF assms(2)] exec_action_registry [OF Exec] by auto
  qed (use assms in \<open>auto simp: in_sequence_def pending_def\<close>)
qed

lemma ctl_reach_sequence:
  assumes "options_ok options" "ctl_reach default_ipc exec (control_spawn options m) n c" "n < 2 ^ 64"
  shows "in_sequence c \<and> unat (rg_next_sequence (c_registry c)) \<le> n"
  using assms(2,3)
proof induction
  case start
  show ?case by (simp add: in_sequence_def control_spawn_def pending_def registry_new_def)
next
  case (step n c c')
  then have IH: "in_sequence c" "unat (rg_next_sequence (c_registry c)) \<le> n" by auto
  have "unat (rg_next_sequence (c_registry c)) + 1 < 2 ^ 64" using IH step by simp
  from ctl_step_sequence [OF ctl_reach_ok [OF assms(1) step(1)] IH(1) this step(2)]
  show ?case using IH by simp
qed

subsection \<open>The closing latch\<close>

text \<open>No ordinary transaction is in progress.\<close>

definition only_shutdown_runs :: "'m control \<Rightarrow> bool" where
  "only_shutdown_runs c = (\<forall>w. c_exec c = Executing w \<longrightarrow> is_shutdown (w_command w))"

definition run_shutdowns ::
  "(operation_id \<Rightarrow> core_command \<Rightarrow> 'm \<Rightarrow> exec_outcome \<times> 'm) \<Rightarrow> operation_id list \<Rightarrow> 'm \<Rightarrow> 'm" where
  "run_shutdowns exec oids m = foldl (\<lambda>m oid. snd (exec oid CmdShutdown m)) m oids"

lemma is_shutdown_iff: "is_shutdown cmd \<longleftrightarrow> cmd = CmdShutdown"
  by (cases cmd) auto

lemma exec_action_latched:
  assumes "exec_action exec c = Some c'" "c_closing c" "only_shutdown_runs c"
  shows "c_closing c' \<and> only_shutdown_runs c' \<and>
         (\<exists>oids. c_manager c' = run_shutdowns exec oids (c_manager c))"
proof (cases "c_exec c")
  case (Executing w)
  then have cmd: "w_command w = CmdShutdown"
    using assms(3) by (simp add: only_shutdown_runs_def is_shutdown_iff)
  obtain outcome m where e: "exec (w_id w) CmdShutdown (c_manager c) = (outcome, m)" by (rule prod.exhaust)
  then have c': "c' = finish w outcome (c\<lparr>c_manager := m\<rparr>)"
    using assms(1) Executing cmd by (simp add: exec_action_def)
  have "c_manager c' = run_shutdowns exec [w_id w] (c_manager c)"
    using e by (cases outcome) (simp_all add: c' finish_def set_op_def run_shutdowns_def)
  moreover have "c_closing c' \<and> only_shutdown_runs c'"
    using assms(2) by (cases outcome) (simp_all add: c' finish_def only_shutdown_runs_def)
  ultimately show ?thesis by blast
qed (use assms in \<open>auto simp: exec_action_def only_shutdown_runs_def set_op_def run_shutdowns_def
      intro: exI [of _ "[]"] split: list.splits if_splits\<close>)

lemma submit_admit_manager:
  assumes "submit_admit work c = (res, c')"
  shows "c_manager c' = c_manager c \<and> c_closing c' = c_closing c \<and> c_exec c' = c_exec c"
  using assms by (cases rule: submit_admit_cases) auto

lemma shutdown_admit_manager:
  assumes "shutdown_admit oid c = (res, c')"
  shows "c_manager c' = c_manager c \<and> c_closing c' = c_closing c \<and> c_exec c' = c_exec c"
  using assms by (cases rule: shutdown_admit_cases) auto

lemma ctl_step_latched:
  assumes "ctl_step default_ipc exec c c'" "c_closing c" "only_shutdown_runs c"
  shows "c_closing c' \<and> only_shutdown_runs c' \<and>
         (\<exists>oids. c_manager c' = run_shutdowns exec oids (c_manager c))"
  using assms(1)
proof cases
  case Exec
  then show ?thesis using exec_action_latched assms by blast
qed (use assms(2,3) submit_admit_manager shutdown_admit_manager in
    \<open>fastforce simp: only_shutdown_runs_def run_shutdowns_def intro: exI [of _ "[]"]\<close>)+

section \<open>A concrete run\<close>

text \<open>One stop command checked and admitted by a fresh control plane with the default options, whose
  transactions panic; it shows that the hypotheses of the properties below can be met.\<close>

definition demo_ipc :: local_ipc_settings where
  "demo_ipc = \<lparr>ipc_policy = Disable, keep_http_controller = False\<rparr>"

definition demo_exec :: "operation_id \<Rightarrow> core_command \<Rightarrow> unit \<Rightarrow> exec_outcome \<times> unit" where
  "demo_exec oid cmd m = (Panicked ''boom'', m)"

definition demo_id :: operation_id where
  "demo_id = \<lparr>nanos = 7, op_pid = 7, counter = 7\<rparr>"

definition demo_work :: work where
  "demo_work = \<lparr>w_id = demo_id, w_command = CmdStop\<rparr>"

definition demo_start :: "unit control" where
  "demo_start = control_spawn (control_options_new [] []) ()"

definition demo_checked :: "unit control" where
  "demo_checked = demo_start\<lparr>c_admitting := demo_work # c_admitting demo_start\<rparr>"

definition demo_admitted :: "unit control" where
  "demo_admitted =
     (let c = snd (submit_admit demo_work demo_checked) in c\<lparr>c_admitting := remove1 demo_work (c_admitting c)\<rparr>)"

lemma demo_options_ok: "options_ok (control_options_new [] [])"
  by (simp add: options_ok_def control_options_new_def usize_max_def)

lemma demo_step: "ctl_step demo_ipc demo_exec demo_checked demo_admitted"
  unfolding demo_admitted_def Let_def
  by (rule Admit [OF _ prod.collapse [symmetric]]) (simp add: demo_checked_def)

lemma demo_reach: "ctl_reach demo_ipc demo_exec demo_start 2 demo_admitted"
proof -
  have "ctl_step demo_ipc demo_exec demo_start demo_checked"
    unfolding demo_checked_def
    by (rule Check [where envelope = "\<lparr>env_operation_id = demo_id, env_command = CmdStop\<rparr>"])
      (simp_all add: demo_start_def demo_work_def control_spawn_def submit_check_def)
  then have "ctl_reach demo_ipc demo_exec demo_start (Suc (Suc 0)) demo_admitted"
    using demo_step ctl_reach.start ctl_reach.step by metis
  then show ?thesis by (simp add: numeral_2_eq_2)
qed

lemma demo_admitted_state:
  "registry_get (c_registry demo_admitted) demo_id = Some Queued"
  "pending demo_admitted = [demo_work]" "c_exec demo_admitted = Waiting" "\<not> c_closing demo_admitted"
  by (simp_all add: demo_admitted_def demo_checked_def demo_start_def demo_work_def submit_admit_def
      admit_def control_spawn_def control_options_new_def registry_new_def live_registry_capacity_def
      usize_max_def evict.simps try_send_def registry_get_def pending_def Let_def)

section \<open>Properties\<close>

text \<open>C1: every admitted operation is settled. From any state the control plane can reach, under any
  interleaving of submitters, shutdown callers and the executor, the executor's own actions lead in
  finitely many steps to a state where each operation the registry held is still there and has a
  terminal state, whatever its transaction returned and even if one panicked. When the executor has
  exited, every operation in the registry is already terminal.\<close>

theorem control_settles_every_operation:
  assumes "options_ok options" "ctl_reach default_ipc exec (control_spawn options m) n c"
  shows "(\<exists>d. exec_steps exec c d \<and>
            (\<forall>oid. registry_get (c_registry c) oid \<noteq> None \<longrightarrow>
               (\<exists>s. registry_get (c_registry d) oid = Some s \<and> is_terminal_op s))) \<and>
         (\<forall>how oid s. c_exec c = Exited how \<and> registry_get (c_registry c) oid = Some s \<longrightarrow> is_terminal_op s)"
proof -
  have ok: "ctl_ok c" by (rule ctl_reach_ok [OF assms])
  obtain d where d: "exec_steps exec c d" "ctl_ok d" "pending d = []" using exec_steps_settle [OF ok] by blast
  have "registry_get (c_registry d) oid \<noteq> None" if "registry_get (c_registry c) oid \<noteq> None" for oid
    using d(1) that
  proof induction
    case (step c d e)
    have "registry_get (c_registry d) oid \<noteq> None"
      using exec_action_registry [OF step(1)] step(4) by (auto simp: registry_set_get split: if_splits)
    then show ?case by (rule step.IH)
  qed simp
  then show ?thesis
    using d pending_empty_terminal [OF d(2,3)] pending_empty_terminal [OF ok exited_pending [OF ok]] by blast
qed

theorem control_settles_every_operation_witness:
  "registry_get (c_registry demo_admitted) demo_id = Some Queued \<and>
   (\<exists>d s. exec_steps demo_exec demo_admitted d \<and> registry_get (c_registry d) demo_id = Some s \<and> is_terminal_op s)"
  using control_settles_every_operation [OF demo_options_ok demo_reach [unfolded demo_start_def]]
    demo_admitted_state(1) by fastforce

text \<open>C6: the registry is bounded and never loses live work. In every reachable state the number of
  entries is within the capacity, the operations without a terminal state are exactly the one being
  executed and those waiting in the queue, each listed once, and the queue with its reserved slots
  is within its own capacity.\<close>

theorem control_registry_bounded:
  assumes "options_ok options" "ctl_reach default_ipc exec (control_spawn options m) n c"
  shows "length (rg_operations (c_registry c)) \<le> rg_capacity (c_registry c) \<and>
         live_ids (c_registry c) = w_id ` set (pending c) \<and> distinct (map w_id (pending c)) \<and>
         length (c_queue c) + c_permits c \<le> c_queue_capacity c"
  using ctl_reach_ok [OF assms] by (simp add: ctl_ok_def)

theorem control_registry_bounded_witness:
  "live_ids (c_registry demo_admitted) = {demo_id}"
  using control_registry_bounded [OF demo_options_ok demo_reach [unfolded demo_start_def]]
  by (simp add: demo_admitted_state demo_work_def)

text \<open>C8: a result is final. No step changes the terminal state of an operation or drops an operation
  that has none; the only thing that can happen to a settled entry is eviction.\<close>

theorem control_results_final:
  assumes "options_ok options" "ctl_reach default_ipc exec (control_spawn options m) n c"
    and "ctl_step default_ipc exec c c'" and "registry_get (c_registry c) oid = Some s"
  shows "if is_terminal_op s
         then registry_get (c_registry c') oid = Some s \<or> registry_get (c_registry c') oid = None
         else registry_get (c_registry c') oid \<noteq> None"
  using ctl_step_kept [OF ctl_reach_ok [OF assms(1,2)] assms(3)] assms(4) by (auto simp: result_kept_def)

theorem control_results_final_witness:
  "registry_get (c_registry demo_admitted) demo_id = Some Queued \<and>
   registry_get (c_registry (the (exec_action demo_exec demo_admitted))) demo_id \<noteq> None"
proof -
  have q: "c_queue demo_admitted = [demo_work]" using demo_admitted_state(2,3) by (simp add: pending_def)
  obtain c' where c': "exec_action demo_exec demo_admitted = Some c'"
    using demo_admitted_state(3) q by (auto simp: exec_action_def)
  from control_results_final [OF demo_options_ok demo_reach [unfolded demo_start_def] Exec [OF c'] demo_admitted_state(1)]
  show ?thesis using c' demo_admitted_state(1) by simp
qed

text \<open>C9: operations run in the order of their sequence numbers. While fewer than \<open>2^64\<close> steps were
  taken (so the counter has not wrapped), the pending work, from the operation being executed to the
  last one queued, carries strictly increasing sequence numbers, all below the next one to be given
  out.\<close>

theorem control_fifo:
  assumes "options_ok options" "ctl_reach default_ipc exec (control_spawn options m) n c" "n < 2 ^ 64"
  shows "sorted_wrt (<) (map (sequence_of (c_registry c)) (pending c)) \<and>
         (\<forall>w \<in> set (pending c). sequence_of (c_registry c) w < unat (rg_next_sequence (c_registry c)))"
  using ctl_reach_sequence [OF assms] by (simp add: in_sequence_def Let_def)

theorem control_fifo_witness:
  "sequence_of (c_registry demo_admitted) demo_work < unat (rg_next_sequence (c_registry demo_admitted))"
  using control_fifo [OF demo_options_ok demo_reach [unfolded demo_start_def]]
  by (simp add: demo_admitted_state)

text \<open>C7: nothing runs behind a shutdown. Once the closing latch is down and no ordinary transaction is
  in progress, no later step of any thread lifts the latch or starts an ordinary transaction: the
  manager changes only by shutdown transactions.\<close>

theorem control_nothing_runs_behind_shutdown:
  assumes "rtranclp (ctl_step default_ipc exec) c c'" and "c_closing c" "only_shutdown_runs c"
  shows "c_closing c' \<and> only_shutdown_runs c' \<and>
         (\<exists>oids. c_manager c' = run_shutdowns exec oids (c_manager c))"
  using assms
proof (induction rule: rtranclp_induct)
  case base
  then show ?case by (auto simp: run_shutdowns_def intro: exI [of _ "[]"])
next
  case (step d e)
  then obtain oids where d: "c_closing d" "only_shutdown_runs d" "c_manager d = run_shutdowns exec oids (c_manager c)"
    by blast
  obtain oids' where "c_closing e" "only_shutdown_runs e" "c_manager e = run_shutdowns exec oids' (c_manager d)"
    using ctl_step_latched [OF step(2) d(1,2)] by blast
  then show ?case using d(3) by (auto simp: run_shutdowns_def foldl_append [symmetric] simp del: foldl_append)
qed

theorem control_nothing_runs_behind_shutdown_witness:
  "rtranclp (ctl_step demo_ipc demo_exec) (demo_admitted\<lparr>c_closing := True\<rparr>)
     (the (exec_action demo_exec (demo_admitted\<lparr>c_closing := True\<rparr>))) \<and>
   only_shutdown_runs (the (exec_action demo_exec (demo_admitted\<lparr>c_closing := True\<rparr>)))"
proof -
  let ?c = "demo_admitted\<lparr>c_closing := True\<rparr>"
  have "c_queue demo_admitted = [demo_work]" using demo_admitted_state(2,3) by (simp add: pending_def)
  then obtain c' where c': "exec_action demo_exec ?c = Some c'"
    using demo_admitted_state(3) by (auto simp: exec_action_def)
  have steps: "rtranclp (ctl_step demo_ipc demo_exec) ?c c'" using Exec [OF c'] by blast
  from control_nothing_runs_behind_shutdown [OF steps] c' steps show ?thesis
    by (simp add: only_shutdown_runs_def demo_admitted_state(3))
qed



end
