(* ===== verification/Yaml.thy ===== *)
theory Yaml
  imports Core_Types "HOL-Library.Char_ord" "HOL-Library.List_Lexorder" "HOL-Library.Multiset" "HOL-Library.Sublist"
begin

text \<open>
  YAML documents as the configuration pipeline handles them (\<open>config/mod.rs\<close>, \<open>config/diff.rs\<close>):
  values, mappings with their order-insensitive equality, canonicalization, and the structural diff.

  A mapping keeps its entries in insertion order and has distinct keys.  The code looks only at
  string keys; any other key is an opaque code.  Floats are opaque bit patterns.
\<close>

section \<open>Values\<close>

datatype number = PosInt "64 word" | NegInt int | Float "64 word"

datatype ykey = KStr string | KOther nat

datatype yaml =
    YNull
  | YBool bool
  | YNumber number
  | YString string
  | YSequence "yaml list"
  | YMapping "(ykey \<times> yaml) list"
  | YTagged string yaml

type_synonym mapping = "(ykey \<times> yaml) list"

text \<open>The accessors look through tags.\<close>

fun as_mapping :: "yaml \<Rightarrow> mapping option" where
  "as_mapping (YMapping m) = Some m"
| "as_mapping (YTagged _ v) = as_mapping v"
| "as_mapping _ = None"

fun as_str :: "yaml \<Rightarrow> string option" where
  "as_str (YString s) = Some s"
| "as_str (YTagged _ v) = as_str v"
| "as_str _ = None"

fun as_bool :: "yaml \<Rightarrow> bool option" where
  "as_bool (YBool b) = Some b"
| "as_bool (YTagged _ v) = as_bool v"
| "as_bool _ = None"

fun as_i64 :: "yaml \<Rightarrow> int option" where
  "as_i64 (YNumber (PosInt n)) = (if n < 2 ^ 63 then Some (uint n) else None)"
| "as_i64 (YNumber (NegInt i)) = Some i"
| "as_i64 (YTagged _ v) = as_i64 v"
| "as_i64 _ = None"

fun key_str :: "ykey \<Rightarrow> string option" where
  "key_str (KStr s) = Some s"
| "key_str (KOther _) = None"

text \<open>\<open>Mapping::get\<close>, \<open>insert\<close> (in place when the key is there, at the end otherwise) and \<open>remove\<close>.\<close>

definition mget :: "mapping \<Rightarrow> string \<Rightarrow> yaml option" where
  "mget m k = map_of m (KStr k)"

fun kinsert :: "ykey \<Rightarrow> yaml \<Rightarrow> mapping \<Rightarrow> mapping" where
  "kinsert k v [] = [(k, v)]"
| "kinsert k v ((k', v') # m) = (if k' = k then (k, v) # m else (k', v') # kinsert k v m)"

definition minsert :: "string \<Rightarrow> yaml \<Rightarrow> mapping \<Rightarrow> mapping" where
  "minsert k v m = kinsert (KStr k) v m"

definition mremove :: "string \<Rightarrow> mapping \<Rightarrow> mapping" where
  "mremove k m = filter (\<lambda>(k', _). k' \<noteq> KStr k) m"

fun mkeys :: "mapping \<Rightarrow> string list" where
  "mkeys [] = []"
| "mkeys ((KStr k, _) # m) = k # mkeys m"
| "mkeys ((KOther _, _) # m) = mkeys m"

lemma mget_Some_set: "mget m k = Some v \<Longrightarrow> (KStr k, v) \<in> set m"
  by (simp add: mget_def map_of_SomeD)

lemma map_of_kinsert: "map_of (kinsert k v m) k' = (if k' = k then Some v else map_of m k')"
  by (induction m) auto

lemma mget_minsert [simp]: "mget (minsert k v m) k' = (if k' = k then Some v else mget m k')"
  by (simp add: mget_def minsert_def map_of_kinsert)

lemma mget_mremove [simp]: "mget (mremove k m) k' = (if k' = k then None else mget m k')"
  by (induction m) (auto simp: mget_def mremove_def)

lemma fst_kinsert: "fst ` set (kinsert k v m) = insert k (fst ` set m)"
proof (induction m)
  case (Cons x m)
  then show ?case by (cases x) auto
qed simp

lemma distinct_kinsert: "distinct (map fst m) \<Longrightarrow> distinct (map fst (kinsert k v m))"
  by (induction m) (auto simp: fst_kinsert)

lemma distinct_mremove: "distinct (map fst m) \<Longrightarrow> distinct (map fst (mremove k m))"
  by (simp add: mremove_def distinct_map_filter)

lemma set_mkeys: "set (mkeys m) = {k. KStr k \<in> fst ` set m}"
  by (induction m rule: mkeys.induct) auto

lemma mkeys_mget: "k \<in> set (mkeys m) \<longleftrightarrow> mget m k \<noteq> None"
  by (auto simp: set_mkeys mget_def map_of_eq_None_iff)

lemma size_mapping_member: "(k, v) \<in> set m \<Longrightarrow> size v < size (YMapping m)"
proof (induction m)
  case (Cons x m)
  then show ?case by (cases x) auto
qed simp

lemma size_as_mapping: "as_mapping v = Some m \<Longrightarrow> size (YMapping m) \<le> size v"
  by (induction v rule: as_mapping.induct) auto

lemma size_mget: "mget m k = Some v \<Longrightarrow> size v < size (YMapping m)"
  by (rule size_mapping_member [OF mget_Some_set])

section \<open>Equality\<close>

text \<open>\<open>PartialEq\<close> of values: mappings are equal when they have the same entries in any order.\<close>

function (sequential) value_eq :: "yaml \<Rightarrow> yaml \<Rightarrow> bool" where
  "value_eq (YMapping m) (YMapping n) =
     (length m = length n \<and>
      list_all (\<lambda>(k, v). case map_of n k of None \<Rightarrow> False | Some v' \<Rightarrow> value_eq v v') m)"
| "value_eq (YSequence xs) (YSequence ys) =
     (length xs = length ys \<and> list_all (\<lambda>(x, y). value_eq x y) (zip xs ys))"
| "value_eq (YTagged t x) (YTagged u y) = (t = u \<and> value_eq x y)"
| "value_eq a b = (a = b)"
  by pat_completeness auto
termination
proof (relation "measure (\<lambda>(a, _). size a)", goal_cases)
  case (2 m n z k v v')
  then show ?case using size_mapping_member [of k v m] by simp
next
  case (3 xs ys z x y)
  then have "x \<in> set xs" by (auto dest: set_zip_leftD)
  then show ?case by (induction xs) auto
qed auto

section \<open>Canonicalization\<close>

text \<open>Keys must be strings and are sorted bytewise; tags are refused; the first offence in document
  order is the error.\<close>

fun canonicalize :: "yaml \<Rightarrow> (error, yaml) result"
  and canon_entries :: "mapping \<Rightarrow> (error, (string \<times> yaml) list) result"
  and canon_list :: "yaml list \<Rightarrow> (error, yaml list) result"
where
  "canonicalize (YMapping m) =
     (case canon_entries m of
        Inl e \<Rightarrow> Inl e
      | Inr entries \<Rightarrow>
          Inr (YMapping (foldl (\<lambda>canonical (key, value). minsert key value canonical) []
                           (sort_key fst entries))))"
| "canonicalize (YSequence xs) = (case canon_list xs of Inl e \<Rightarrow> Inl e | Inr ys \<Rightarrow> Inr (YSequence ys))"
| "canonicalize (YTagged _ _) =
     Inl (InvalidConfig ''tagged YAML values are not supported in runtime configs'')"
| "canonicalize YNull = Inr YNull"
| "canonicalize (YBool b) = Inr (YBool b)"
| "canonicalize (YNumber n) = Inr (YNumber n)"
| "canonicalize (YString s) = Inr (YString s)"
| "canon_entries [] = Inr []"
| "canon_entries ((KOther _, _) # m) = Inl (InvalidConfig ''all YAML mapping keys must be strings'')"
| "canon_entries ((KStr key, value) # m) =
     (case canonicalize value of
        Inl e \<Rightarrow> Inl e
      | Inr v \<Rightarrow> (case canon_entries m of Inl e \<Rightarrow> Inl e | Inr rest \<Rightarrow> Inr ((key, v) # rest)))"
| "canon_list [] = Inr []"
| "canon_list (x # xs) =
     (case canonicalize x of
        Inl e \<Rightarrow> Inl e
      | Inr y \<Rightarrow> (case canon_list xs of Inl e \<Rightarrow> Inl e | Inr ys \<Rightarrow> Inr (y # ys)))"

text \<open>Well-formed values have distinct keys in every mapping; canonical ones have strictly sorted
  string keys and no tags.\<close>

fun yaml_ok :: "yaml \<Rightarrow> bool" where
  "yaml_ok (YMapping m) = (distinct (map fst m) \<and> list_all (\<lambda>(_, v). yaml_ok v) m)"
| "yaml_ok (YSequence xs) = list_all yaml_ok xs"
| "yaml_ok (YTagged _ v) = yaml_ok v"
| "yaml_ok _ = True"

fun canonical :: "yaml \<Rightarrow> bool" where
  "canonical (YMapping m) =
     (map fst m = map KStr (mkeys m) \<and> sorted_wrt (<) (mkeys m) \<and> list_all (\<lambda>(_, v). canonical v) m)"
| "canonical (YSequence xs) = list_all canonical xs"
| "canonical (YTagged _ _) = False"
| "canonical _ = True"

lemma as_mapping_Some [simp]: "canonical v \<Longrightarrow> as_mapping v = Some m \<longleftrightarrow> v = YMapping m"
  by (cases v) auto

lemma canon_list_Inr: "canon_list xs = Inr ys \<longleftrightarrow> list_all2 (\<lambda>x y. canonicalize x = Inr y) xs ys"
proof (induction xs arbitrary: ys)
  case (Cons x xs)
  show ?case by (auto simp: Cons.IH [symmetric] list_all2_Cons1 split: sum.splits)
qed auto

lemma canon_entries_Inr:
  "canon_entries m = Inr es \<longleftrightarrow>
     list_all2 (\<lambda>(k, v) (s, w). k = KStr s \<and> canonicalize v = Inr w) m es"
proof (induction m arbitrary: es)
  case (Cons x m)
  obtain k v where x: "x = (k, v)" by (cases x)
  show ?case by (cases k) (auto simp: x Cons.IH [symmetric] list_all2_Cons1 split: sum.splits)
qed auto

lemma foldl_minsert_fresh:
  assumes "distinct (map fst es)" "fst ` set es \<inter> {k. KStr k \<in> fst ` set acc} = {}"
  shows "foldl (\<lambda>c (k, v). minsert k v c) acc es = acc @ map (apfst KStr) es"
  using assms
proof (induction es arbitrary: acc)
  case (Cons x es)
  obtain k v where x: "x = (k, v)" by (cases x)
  have fresh: "KStr k \<notin> fst ` set acc" using Cons.prems(2) x by auto
  have "kinsert (KStr k) v acc = acc @ [(KStr k, v)]"
    using fresh by (induction acc) auto
  then have "minsert k v acc = acc @ [(KStr k, v)]" by (simp add: minsert_def)
  moreover have "foldl (\<lambda>c (k, v). minsert k v c) (acc @ [(KStr k, v)]) es =
      (acc @ [(KStr k, v)]) @ map (apfst KStr) es"
    using Cons.prems x by (intro Cons.IH) auto
  ultimately show ?case by (simp add: x)
qed simp

lemma canon_mapping_form:
  assumes "distinct (map fst es)"
  shows "foldl (\<lambda>c (k, v). minsert k v c) [] (sort_key fst es) = map (apfst KStr) (sort_key fst es)"
proof -
  have "distinct (map fst (sort_key fst es))"
    using assms by (metis distinct_map distinct_sort inj_on_def set_sort)
  then show ?thesis by (subst foldl_minsert_fresh) auto
qed

lemma mkeys_KStr [simp]: "mkeys (map (apfst KStr) es) = map fst es"
  by (induction es) auto

lemma yaml_induct [case_names Null Bool Number String Sequence Mapping Tagged]:
  assumes "P YNull" "\<And>b. P (YBool b)" "\<And>n. P (YNumber n)" "\<And>s. P (YString s)"
    and "\<And>xs. (\<And>x. x \<in> set xs \<Longrightarrow> P x) \<Longrightarrow> P (YSequence xs)"
    and "\<And>m. (\<And>k v. (k, v) \<in> set m \<Longrightarrow> P v) \<Longrightarrow> P (YMapping m)"
    and "\<And>t v. P v \<Longrightarrow> P (YTagged t v)"
  shows "P v"
proof (induction v)
  case (YMapping m)
  show ?case
  proof (rule assms(6))
    fix k v
    assume "(k, v) \<in> set m"
    then show "P v" using YMapping [of "(k, v)" v] by simp
  qed
qed (use assms in auto)

lemma list_all2_entries_keys:
  assumes "list_all2 (\<lambda>(k, v) (s, w). k = KStr s \<and> Q v w) m es"
  shows "map fst m = map (KStr \<circ> fst) es"
  using assms by (induction rule: list_all2_induct) auto

lemma distinct_entries:
  assumes "canon_entries m = Inr es" "distinct (map fst m)"
  shows "distinct (map fst es)"
proof -
  have "map fst m = map KStr (map fst es)"
    using list_all2_entries_keys assms(1) by (force simp: canon_entries_Inr)
  then show ?thesis using assms(2) by (metis distinct_map)
qed

lemma sorted_strict: "distinct ks \<Longrightarrow> sorted ks \<Longrightarrow> sorted_wrt (<) (ks :: string list)"
  by (simp add: strict_sorted_iff)

lemma list_all2_memberD:
  assumes "list_all2 R xs ys" "y \<in> set ys"
  obtains x where "x \<in> set xs" "R x y"
  using assms by (metis in_set_conv_nth list_all2_conv_all_nth)

lemma canonicalize_canonical:
  "yaml_ok v \<Longrightarrow> canonicalize v = Inr w \<Longrightarrow> canonical w"
proof (induction v arbitrary: w rule: yaml_induct)
  case (Sequence xs)
  then obtain ys where ys: "list_all2 (\<lambda>x y. canonicalize x = Inr y) xs ys" and w: "w = YSequence ys"
    by (auto simp: canon_list_Inr split: sum.splits)
  have "canonical y" if "y \<in> set ys" for y
    using ys that Sequence by (auto simp: list_all_iff elim!: list_all2_memberD)
  then show ?case by (simp add: w list_all_iff)
next
  case (Mapping m)
  then obtain es where es: "canon_entries m = Inr es"
    and w: "w = YMapping (foldl (\<lambda>c (k, v). minsert k v c) [] (sort_key fst es))"
    by (auto split: sum.splits)
  have d: "distinct (map fst es)" using distinct_entries [OF es] Mapping.prems by simp
  have "canonical v" if "(k, v) \<in> set es" for k v
    using es that Mapping by (auto simp: canon_entries_Inr list_all_iff elim!: list_all2_memberD)
  moreover have "distinct (map fst (sort_key fst es))"
    using d by (metis distinct_map distinct_sort inj_on_def set_sort)
  ultimately show ?case
    by (auto simp: w canon_mapping_form [OF d] list_all_iff sorted_strict)
qed auto

lemma canonical_fixpoint: "canonical v \<Longrightarrow> canonicalize v = Inr v"
proof (induction v rule: yaml_induct)
  case (Sequence xs)
  then have "canon_list xs = Inr xs"
    by (auto simp: canon_list_Inr list_all2_same list_all_iff)
  then show ?case by simp
next
  case (Mapping m)
  define es where "es = map (\<lambda>(k, v). (the (key_str k), v)) m"
  have keys: "map fst m = map KStr (mkeys m)" and sorted: "sorted_wrt (<) (mkeys m)" using Mapping.prems by auto
  have str: "\<exists>s. k = KStr s" if "(k, v) \<in> set m" for k v
    using that keys by (metis (no_types, lifting) fst_conv image_eqI image_iff list.set_map)
  have m: "m = map (apfst KStr) es" unfolding es_def by (auto simp: map_idI dest!: str intro!: map_idI [symmetric])
  have val: "canonicalize v = Inr v" if "(k, v) \<in> set m" for k v
    using Mapping that by (auto simp: list_all_iff)
  have "(\<lambda>(k, v) (s, w). k = KStr s \<and> canonicalize v = Inr w) x ((\<lambda>(k, v). (the (key_str k), v)) x)"
    if "x \<in> set m" for x
    using that str [of "fst x" "snd x"] val [of "fst x" "snd x"] by (auto simp: case_prod_beta)
  then have "canon_entries m = Inr es"
    by (simp add: canon_entries_Inr es_def list_all2_map2 list_all2_same)
  moreover have "map fst es = mkeys m" by (metis m mkeys_KStr)
  then have "sort_key fst es = es" "distinct (map fst es)"
    using sorted by (auto simp: strict_sorted_iff sort_key_id_if_sorted)
  ultimately show ?case using canon_mapping_form [of es] by (simp add: m [symmetric])
qed auto

section \<open>The canonical form is a normal form for equality\<close>

lemma canonical_yaml_ok: "canonical v \<Longrightarrow> yaml_ok v"
proof (induction v rule: yaml_induct)
  case (Mapping m)
  have "distinct (map KStr (mkeys m))"
    using Mapping.prems by (auto simp: distinct_map inj_on_def strict_sorted_iff)
  then have "distinct (map fst m)" using Mapping.prems by simp
  then show ?case using Mapping by (auto simp: list_all_iff)
qed (auto simp: list_all_iff)

lemma value_eq_refl: "yaml_ok v \<Longrightarrow> value_eq v v"
  by (induction v rule: yaml_induct) (auto simp: list_all_iff zip_same_conv_map)

lemma canon_entries_member:
  assumes "canon_entries m = Inr es" "(k, v) \<in> set m"
  shows "\<exists>s w. k = KStr s \<and> canonicalize v = Inr w \<and> (s, w) \<in> set es"
proof -
  have "list_all2 (\<lambda>(k, v) (s, w). k = KStr s \<and> canonicalize v = Inr w) m es"
    using assms(1) by (simp add: canon_entries_Inr)
  then show ?thesis using assms(2) by (induction rule: list_all2_induct) auto
qed

text \<open>The canonical form has the same content.\<close>

lemma canonicalize_value_eq: "yaml_ok v \<Longrightarrow> canonicalize v = Inr w \<Longrightarrow> value_eq v w"
proof (induction v arbitrary: w rule: yaml_induct)
  case (Sequence xs)
  then obtain ys where ys: "list_all2 (\<lambda>x y. canonicalize x = Inr y) xs ys" and w: "w = YSequence ys"
    by (auto simp: canon_list_Inr split: sum.splits)
  show ?case
    using ys Sequence
    by (fastforce simp: w list_all_iff list_all2_iff dest: set_zip_leftD)
next
  case (Mapping m)
  then obtain es where es: "canon_entries m = Inr es"
    and w: "w = YMapping (foldl (\<lambda>c (k, v). minsert k v c) [] (sort_key fst es))"
    by (auto split: sum.splits)
  let ?n = "map (apfst KStr) (sort_key fst es)"
  have d: "distinct (map fst es)" using distinct_entries [OF es] Mapping.prems by simp
  then have "distinct (map fst (sort_key fst es))"
    by (metis distinct_map distinct_sort inj_on_def set_sort)
  then have n: "distinct (map fst ?n)" by (auto simp: distinct_map inj_on_def)
  have len: "length m = length es" using es by (auto simp: canon_entries_Inr dest: list_all2_lengthD)
  have "\<exists>v'. map_of ?n k = Some v' \<and> value_eq v v'" if kv: "(k, v) \<in> set m" for k v
  proof -
    obtain s v' where sv: "k = KStr s" "canonicalize v = Inr v'" "(s, v') \<in> set es"
      using canon_entries_member [OF es kv] by blast
    then have "map_of ?n k = Some v'" using n by (force intro!: map_of_is_SomeI)
    moreover have "value_eq v v'" using Mapping kv sv(2) by (fastforce simp: list_all_iff)
    ultimately show ?thesis by blast
  qed
  then show ?case by (auto simp: w canon_mapping_form [OF d] len list_all_iff split: option.splits) fastforce+
qed auto

lemma value_eq_mappingD:
  assumes "value_eq (YMapping m) (YMapping n)" "distinct (map fst m)" "distinct (map fst n)"
  shows "fst ` set m = fst ` set n"
    and "(k, v') \<in> set n \<Longrightarrow> \<exists>v. (k, v) \<in> set m \<and> value_eq v v'"
proof -
  have len: "length m = length n" using assms(1) by simp
  have entry: "\<exists>v'. map_of n k = Some v' \<and> value_eq v v'" if "(k, v) \<in> set m" for k v
    using assms(1) that by (auto simp: list_all_iff split: option.splits)
  have "fst ` set m \<subseteq> fst ` set n"
  proof
    fix k
    assume "k \<in> fst ` set m"
    then obtain v where "(k, v) \<in> set m" by auto
    then obtain v' where "map_of n k = Some v'" using entry by blast
    then show "k \<in> fst ` set n" by (metis map_of_eq_None_iff option.distinct(1))
  qed
  moreover have "card (fst ` set m) = card (fst ` set n)"
    using assms(2,3) len by (metis distinct_card length_map list.set_map)
  ultimately show eq: "fst ` set m = fst ` set n" by (simp add: card_subset_eq)
  assume n: "(k, v') \<in> set n"
  then have "k \<in> fst ` set m" using eq by force
  then obtain v where v: "(k, v) \<in> set m" by auto
  then show "\<exists>v. (k, v) \<in> set m \<and> value_eq v v'" using entry [OF v] n assms(3) by auto
qed

lemma canon_entries_perm:
  assumes "canon_entries m = Inr es" "distinct (map fst m)" "distinct (map fst n)"
    and "fst ` set m = fst ` set n"
    and "\<And>k v'. (k, v') \<in> set n \<Longrightarrow> \<exists>v. (k, v) \<in> set m \<and> canonicalize v' = canonicalize v"
  obtains es' where "canon_entries n = Inr es'" "mset es' = mset es"
proof -
  let ?f = "\<lambda>(k, v). (the (key_str k), projr (canonicalize v))"
  have inn: "\<exists>s w. k = KStr s \<and> canonicalize v = Inr w \<and> (s, w) \<in> set es" if "(k, v) \<in> set n" for k v
    using assms(5) [OF that] canon_entries_member [OF assms(1)] by metis
  have "(\<lambda>(k, v) (s, w). k = KStr s \<and> canonicalize v = Inr w) x (?f x) \<and> ?f x \<in> set es"
    if "x \<in> set n" for x
    using inn [of "fst x" "snd x"] that by (auto simp: case_prod_beta)
  then have n_all2: "canon_entries n = Inr (map ?f n)" and sub: "set (map ?f n) \<subseteq> set es"
    by (auto simp: canon_entries_Inr list_all2_map2 list_all2_same)
  have d: "distinct (map ?f n)" "distinct es"
    using distinct_entries [OF n_all2 assms(3)] distinct_entries [OF assms(1,2)]
    by (simp_all only: distinct_map)
  have "length m = length n" using assms(2-4) by (metis distinct_card length_map list.set_map)
  moreover have "length m = length es"
    using assms(1) by (auto simp: canon_entries_Inr dest: list_all2_lengthD)
  ultimately have "card (set (map ?f n)) = card (set es)"
    using distinct_card [OF d(1)] distinct_card [OF d(2)] by simp
  then have "set (map ?f n) = set es" using sub by (simp only: card_subset_eq [OF List.finite_set])
  then have "mset (map ?f n) = mset es" using d by (simp only: set_eq_iff_mset_eq_distinct)
  then show thesis using that n_all2 by blast
qed

lemma sort_entries_eq:
  assumes "mset es' = mset es" "distinct (map fst es)"
  shows "sort_key fst es' = sort_key fst es"
proof (rule sort_key_inj_key_eq)
  show "mset es' = mset (sort_key fst es)" using assms(1) by simp
  show "inj_on fst (set es')" using assms by (metis distinct_map mset_eq_setD)
qed simp

lemma canonicalize_cong:
  assumes "yaml_ok v" "yaml_ok v'" "value_eq v v'" "canonicalize v = Inr w"
  shows "canonicalize v' = Inr w"
  using assms
proof (induction v arbitrary: v' w rule: yaml_induct)
  case (Sequence xs)
  then obtain ys where v': "v' = YSequence ys" by (cases v') auto
  have len: "length xs = length ys" using Sequence.prems by (simp add: v')
  obtain zs where zs: "list_all2 (\<lambda>x y. canonicalize x = Inr y) xs zs" and w: "w = YSequence zs"
    using Sequence.prems by (auto simp: canon_list_Inr split: sum.splits)
  have "canonicalize (ys ! i) = Inr (zs ! i)" if "i < length ys" for i
  proof (rule Sequence.IH [of "xs ! i"])
    show "xs ! i \<in> set xs" using that len by simp
    show "yaml_ok (xs ! i)" "yaml_ok (ys ! i)" "value_eq (xs ! i) (ys ! i)"
      using that len Sequence.prems(1-3) by (auto simp: v' list_all_length)
    show "canonicalize (xs ! i) = Inr (zs ! i)" using that len zs by (simp add: list_all2_conv_all_nth)
  qed
  then have "list_all2 (\<lambda>x y. canonicalize x = Inr y) ys zs"
    using zs len by (simp add: list_all2_conv_all_nth)
  then show ?case by (simp add: v' w canon_list_Inr [symmetric])
next
  case (Mapping m)
  then obtain n where v': "v' = YMapping n" by (cases v') auto
  have d: "distinct (map fst m)" "distinct (map fst n)" using Mapping.prems by (auto simp: v')
  obtain es where es: "canon_entries m = Inr es"
    and w: "w = YMapping (foldl (\<lambda>c (k, v). minsert k v c) [] (sort_key fst es))"
    using Mapping.prems by (auto split: sum.splits)
  note eq = value_eq_mappingD [OF Mapping.prems(3) [unfolded v'] d]
  have step: "\<exists>v. (k, v) \<in> set m \<and> canonicalize v' = canonicalize v" if n: "(k, v') \<in> set n" for k v'
  proof -
    obtain v where v: "(k, v) \<in> set m" "value_eq v v'" using eq(2) [OF n] by blast
    obtain u where u: "canonicalize v = Inr u" using canon_entries_member [OF es v(1)] by blast
    have ok: "yaml_ok v" "yaml_ok v'" using Mapping.prems(1,2) v(1) n by (auto simp: v' list_all_iff)
    show ?thesis using Mapping.IH [OF v(1) ok v(2) u] u v(1) by auto
  qed
  obtain es' where es': "canon_entries n = Inr es'" "mset es' = mset es"
    by (rule canon_entries_perm [OF es d eq(1) step])
  then show ?case using sort_entries_eq [OF es'(2) distinct_entries [OF es d(1)]] by (simp add: v' w)
next
  case (Tagged t v)
  then show ?case by simp
qed auto

lemma canonical_value_eq:
  assumes "canonical a" "canonical b"
  shows "value_eq a b \<longleftrightarrow> a = b"
proof
  assume "value_eq a b"
  then have "canonicalize b = Inr a"
    using canonicalize_cong [OF canonical_yaml_ok canonical_yaml_ok _ canonical_fixpoint] assms by blast
  then show "a = b" using canonical_fixpoint [OF assms(2)] by simp
qed (simp add: value_eq_refl canonical_yaml_ok assms)

section \<open>Paths\<close>

text \<open>\<open>value_at\<close>: the value a path of keys leads to.\<close>

fun value_at :: "yaml \<Rightarrow> string list \<Rightarrow> yaml option" where
  "value_at v [] = Some v"
| "value_at v (k # ks) =
     (case as_mapping v of
        None \<Rightarrow> None
      | Some m \<Rightarrow> (case mget m k of None \<Rightarrow> None | Some w \<Rightarrow> value_at w ks))"

text \<open>\<open>collect_leaves\<close>: the paths to everything that is not a non-empty mapping.\<close>

function collect_leaves :: "yaml \<Rightarrow> string list \<Rightarrow> (string list \<times> yaml) list" where
  "collect_leaves v path =
     (case as_mapping v of
        Some m \<Rightarrow>
          if m \<noteq> []
          then concat (map (\<lambda>(k, w). case k of KStr s \<Rightarrow> collect_leaves w (path @ [s]) | KOther _ \<Rightarrow> []) m)
          else [(path, v)]
      | None \<Rightarrow> [(path, v)])"
  by pat_completeness auto
termination
proof (relation "measure (\<lambda>(v, _). size v)", goal_cases)
  case (2 v path m z k w s)
  then show ?case using size_mapping_member [of k w m] size_as_mapping [of v m] by simp
qed simp

declare collect_leaves.simps [simp del]

lemma canonical_mapping_member:
  "canonical (YMapping m) \<Longrightarrow> mget m k = Some v \<Longrightarrow> canonical v"
  by (auto simp: list_all_iff dest: mget_Some_set)

lemma canonical_mapping_eqI:
  assumes "canonical (YMapping m)" "canonical (YMapping n)" "\<And>k. mget m k = mget n k"
  shows "m = n"
proof -
  have strs: "a = map (apfst KStr) (map (\<lambda>k. (k, the (mget a k))) (mkeys a))"
    if "canonical (YMapping a)" for a
  proof (rule nth_equalityI)
    have len: "length a = length (mkeys a)" using that by (metis canonical.simps(1) length_map)
    then show "length a = length (map (apfst KStr) (map (\<lambda>k. (k, the (mget a k))) (mkeys a)))" by simp
    fix i
    assume i: "i < length a"
    have k: "fst (a ! i) = KStr (mkeys a ! i)" using that i len by (metis canonical.simps(1) nth_map)
    have "distinct (map fst a)" using canonical_yaml_ok [OF that] by simp
    moreover have "(KStr (mkeys a ! i), snd (a ! i)) \<in> set a" using i k by (metis nth_mem prod.collapse)
    ultimately have "mget a (mkeys a ! i) = Some (snd (a ! i))" by (simp add: mget_def)
    then show "a ! i = map (apfst KStr) (map (\<lambda>k. (k, the (mget a k))) (mkeys a)) ! i"
      using i len k by (simp add: prod_eq_iff)
  qed
  have "set (mkeys m) = set (mkeys n)" using assms(3) by (auto simp: mkeys_mget)
  then have "mkeys m = mkeys n"
    using assms(1,2) by (intro sorted_distinct_set_unique) (auto simp: strict_sorted_iff)
  then show ?thesis using strs [OF assms(1)] strs [OF assms(2)] assms(3) by simp
qed

section \<open>Diff\<close>

record diff_entry =
  d_path :: "string list"
  d_new :: "yaml option"

fun opt_eq :: "yaml option \<Rightarrow> yaml option \<Rightarrow> bool" where
  "opt_eq None None = True"
| "opt_eq (Some a) (Some b) = value_eq a b"
| "opt_eq _ _ = False"

definition opt_mapping :: "yaml option \<Rightarrow> mapping option" where
  "opt_mapping v = Option.bind v as_mapping"

definition opt_get :: "mapping option \<Rightarrow> string \<Rightarrow> yaml option" where
  "opt_get m k = Option.bind m (\<lambda>m. mget m k)"

text \<open>The sorted set of the string keys of both mappings.\<close>

definition diff_keys :: "mapping option \<Rightarrow> mapping option \<Rightarrow> string list" where
  "diff_keys a b =
     sort (remdups ((case a of None \<Rightarrow> [] | Some m \<Rightarrow> mkeys m) @ (case b of None \<Rightarrow> [] | Some m \<Rightarrow> mkeys m)))"

definition diff_descends :: "yaml option \<Rightarrow> yaml option \<Rightarrow> bool" where
  "diff_descends current desired =
     (let cm = opt_mapping current; dm = opt_mapping desired in
      (cm \<noteq> None \<or> dm \<noteq> None) \<and>
      (current = None \<or> cm \<noteq> None \<and> (desired = None \<or> dm \<noteq> None)) \<and>
      diff_keys cm dm \<noteq> [])"

fun opt_size :: "yaml option \<Rightarrow> nat" where
  "opt_size None = 0"
| "opt_size (Some v) = Suc (size v)"

lemma opt_get_size:
  "opt_get (opt_mapping v) k = Some w \<Longrightarrow> opt_size (Some w) < opt_size v"
  by (cases v) (fastforce simp: opt_get_def opt_mapping_def bind_eq_Some_conv
      dest: size_mget size_as_mapping)+

lemma opt_get_size_le: "opt_size (opt_get (opt_mapping v) k) \<le> opt_size v"
  using opt_get_size [of v k] by (cases "opt_get (opt_mapping v) k") auto

lemma set_diff_keys: "k \<in> set (diff_keys a b) \<longleftrightarrow> opt_get a k \<noteq> None \<or> opt_get b k \<noteq> None"
  by (cases a; cases b) (auto simp: diff_keys_def opt_get_def mkeys_mget)

lemma diff_child_smaller:
  assumes "key \<in> set (diff_keys (opt_mapping current) (opt_mapping desired))"
  shows "opt_size (opt_get (opt_mapping current) key) + opt_size (opt_get (opt_mapping desired) key)
           < opt_size current + opt_size desired"
proof (cases "opt_get (opt_mapping current) key")
  case (Some w)
  then show ?thesis using opt_get_size [OF Some] opt_get_size_le [of desired key] by simp
next
  case None
  then obtain w where w: "opt_get (opt_mapping desired) key = Some w" using assms by (auto simp: set_diff_keys)
  show ?thesis using opt_get_size [OF w] None w by simp
qed

function diff_value :: "yaml option \<Rightarrow> yaml option \<Rightarrow> string list \<Rightarrow> diff_entry list" where
  "diff_value current desired path =
     (if opt_eq current desired then []
      else if diff_descends current desired
      then concat (map (\<lambda>key. diff_value (opt_get (opt_mapping current) key)
                                 (opt_get (opt_mapping desired) key) (path @ [key]))
                     (diff_keys (opt_mapping current) (opt_mapping desired)))
      else [\<lparr>d_path = path, d_new = desired\<rparr>])"
  by auto
termination
  by (relation "measure (\<lambda>(c, d, _). opt_size c + opt_size d)")
    (auto intro: diff_child_smaller simp del: opt_size.simps)

declare diff_value.simps [simp del]

definition diff :: "mapping \<Rightarrow> mapping \<Rightarrow> diff_entry list" where
  "diff current desired = diff_value (Some (YMapping current)) (Some (YMapping desired)) []"

section \<open>What the diff says\<close>

definition opt_at :: "yaml option \<Rightarrow> string list \<Rightarrow> yaml option" where
  "opt_at v p = Option.bind v (\<lambda>v. value_at v p)"

lemma opt_at_Nil [simp]: "opt_at v [] = v"
  by (cases v) (auto simp: opt_at_def)

lemma opt_at_Cons [simp]: "opt_at v (k # p) = opt_at (opt_get (opt_mapping v) k) p"
  by (cases v) (auto simp: opt_at_def opt_get_def opt_mapping_def split: option.splits)

definition prepend :: "string list \<Rightarrow> diff_entry \<Rightarrow> diff_entry" where
  "prepend path e = e\<lparr>d_path := path @ d_path e\<rparr>"

lemma diff_value_path: "diff_value c d path = map (prepend path) (diff_value c d [])"
proof (induction "opt_size c + opt_size d" arbitrary: c d path rule: less_induct)
  case less
  let ?keys = "diff_keys (opt_mapping c) (opt_mapping d)"
  have child: "diff_value (opt_get (opt_mapping c) k) (opt_get (opt_mapping d) k) (path @ [k]) =
      map (prepend path) (diff_value (opt_get (opt_mapping c) k) (opt_get (opt_mapping d) k) [k])"
    if "k \<in> set ?keys" for k path
    using less [OF diff_child_smaller [OF that], of "path @ [k]"] less [OF diff_child_smaller [OF that], of "[k]"]
    by (simp add: prepend_def comp_def)
  have "map (\<lambda>k. diff_value (opt_get (opt_mapping c) k) (opt_get (opt_mapping d) k) (path @ [k])) ?keys =
      map (map (prepend path)) (map (\<lambda>k. diff_value (opt_get (opt_mapping c) k) (opt_get (opt_mapping d) k) [k]) ?keys)"
    using child by simp
  then show ?case
    by (subst (1 2) diff_value.simps) (simp add: prepend_def map_concat del: map_map map_eq_conv)
qed

lemma diff_value_unfold:
  "diff_value c d [] =
     (if opt_eq c d then []
      else if diff_descends c d
      then concat (map (\<lambda>k. map (prepend [k]) (diff_value (opt_get (opt_mapping c) k) (opt_get (opt_mapping d) k) []))
                     (diff_keys (opt_mapping c) (opt_mapping d)))
      else [\<lparr>d_path = [], d_new = d\<rparr>])"
  by (subst diff_value.simps) (simp add: diff_value_path [where path = "[_]"])

definition canonical_opt :: "yaml option \<Rightarrow> bool" where
  "canonical_opt v = (\<forall>x. v = Some x \<longrightarrow> canonical x)"

lemma canonical_opt_get: "canonical_opt v \<Longrightarrow> canonical_opt (opt_get (opt_mapping v) k)"
  by (cases v) (auto simp: canonical_opt_def opt_get_def opt_mapping_def bind_eq_Some_conv
      simp del: canonical.simps(1) intro: canonical_mapping_member)

lemma canonical_opt_eq: "canonical_opt c \<Longrightarrow> canonical_opt d \<Longrightarrow> opt_eq c d \<longleftrightarrow> c = d"
  by (cases c; cases d) (auto simp: canonical_opt_def canonical_value_eq)

lemma canonical_opt_at: "canonical_opt v \<Longrightarrow> canonical_opt (opt_at v p)"
  by (induction p arbitrary: v) (auto intro: canonical_opt_get)

text \<open>Two different canonical values that the diff descends into differ under some key.\<close>

lemma diff_descends_differs:
  assumes "canonical_opt c" "canonical_opt d" "c \<noteq> d" "diff_descends c d"
  shows "\<exists>k \<in> set (diff_keys (opt_mapping c) (opt_mapping d)).
           opt_get (opt_mapping c) k \<noteq> opt_get (opt_mapping d) k"
proof (rule ccontr)
  assume "\<not> ?thesis"
  then have same: "opt_get (opt_mapping c) k = opt_get (opt_mapping d) k" for k
    by (metis set_diff_keys)
  obtain k where k: "opt_get (opt_mapping c) k \<noteq> None"
  proof -
    obtain k where "k \<in> set (diff_keys (opt_mapping c) (opt_mapping d))"
      using assms(4) by (cases "diff_keys (opt_mapping c) (opt_mapping d)") (auto simp: diff_descends_def Let_def)
    then show thesis using that [of k] same [of k] by (auto simp: set_diff_keys)
  qed
  obtain m n where m: "c = Some (YMapping m)" and n: "d = Some (YMapping n)"
    using k same [of k]
    using assms(1,2) by (cases c; cases d)
      (auto simp: opt_get_def opt_mapping_def bind_eq_Some_conv canonical_opt_def simp del: canonical.simps(1))
  have "m = n"
    using assms(1,2) same by (intro canonical_mapping_eqI) (auto simp: canonical_opt_def m n opt_get_def opt_mapping_def)
  then show False using assms(3) m n by simp
qed

lemma diff_nil_iff:
  "canonical_opt c \<Longrightarrow> canonical_opt d \<Longrightarrow> diff_value c d [] = [] \<longleftrightarrow> c = d"
proof (induction "opt_size c + opt_size d" arbitrary: c d rule: less_induct)
  case less
  show ?case
  proof (cases "c = d \<or> \<not> diff_descends c d")
    case True
    then show ?thesis
      using less.prems by (subst diff_value_unfold) (auto simp: canonical_opt_eq)
  next
    case False
    then obtain k where k: "k \<in> set (diff_keys (opt_mapping c) (opt_mapping d))"
      "opt_get (opt_mapping c) k \<noteq> opt_get (opt_mapping d) k"
      using diff_descends_differs less.prems by blast
    have "diff_value (opt_get (opt_mapping c) k) (opt_get (opt_mapping d) k) [] \<noteq> []"
      using less.hyps [OF diff_child_smaller [OF k(1)]] canonical_opt_get less.prems k(2) by blast
    then show ?thesis
      using less.prems False k(1) by (subst diff_value_unfold) (auto simp: canonical_opt_eq)
  qed
qed

text \<open>Every entry names a path at which the documents differ, with the desired value there.\<close>

lemma diff_value_sound:
  "canonical_opt c \<Longrightarrow> canonical_opt d \<Longrightarrow> e \<in> set (diff_value c d []) \<Longrightarrow>
     opt_at c (d_path e) \<noteq> opt_at d (d_path e) \<and> d_new e = opt_at d (d_path e)"
proof (induction "opt_size c + opt_size d" arbitrary: c d e rule: less_induct)
  case less
  show ?case
  proof (cases "c = d \<or> \<not> diff_descends c d")
    case True
    then show ?thesis
      using less.prems diff_value_unfold [of c d] by (auto simp: canonical_opt_eq split: if_splits)
  next
    case False
    then obtain k e' where k: "k \<in> set (diff_keys (opt_mapping c) (opt_mapping d))" and
      e': "e' \<in> set (diff_value (opt_get (opt_mapping c) k) (opt_get (opt_mapping d) k) [])" "e = prepend [k] e'"
      using less.prems diff_value_unfold [of c d] by (auto simp: canonical_opt_eq)
    show ?thesis
      using less.hyps [OF diff_child_smaller [OF k] canonical_opt_get canonical_opt_get e'(1)] less.prems(1,2) e'(2)
      by (simp add: prepend_def)
  qed
qed

text \<open>Every path at which the documents differ is on the way to, at, or below an entry.\<close>

lemma diff_value_complete:
  "canonical_opt c \<Longrightarrow> canonical_opt d \<Longrightarrow> opt_at c p \<noteq> opt_at d p \<Longrightarrow>
     \<exists>e \<in> set (diff_value c d []). prefix (d_path e) p \<or> prefix p (d_path e)"
proof (induction "opt_size c + opt_size d" arbitrary: c d p rule: less_induct)
  case less
  have ne: "c \<noteq> d" using less.prems(3) by blast
  show ?case
  proof (cases "diff_descends c d")
    case False
    then show ?thesis using ne less.prems by (subst diff_value_unfold) (auto simp: canonical_opt_eq)
  next
    case desc: True
    show ?thesis
    proof (cases p)
      case Nil
      then show ?thesis
        using diff_nil_iff [OF less.prems(1,2)] ne by (cases "diff_value c d []") auto
    next
      case (Cons k p')
      then have differ: "opt_at (opt_get (opt_mapping c) k) p' \<noteq> opt_at (opt_get (opt_mapping d) k) p'"
        using less.prems(3) by simp
      then have k: "k \<in> set (diff_keys (opt_mapping c) (opt_mapping d))"
        using set_diff_keys by metis
      obtain e where "e \<in> set (diff_value (opt_get (opt_mapping c) k) (opt_get (opt_mapping d) k) [])"
        "prefix (d_path e) p' \<or> prefix p' (d_path e)"
        using less.hyps [OF diff_child_smaller [OF k] canonical_opt_get canonical_opt_get differ] less.prems(1,2)
        by blast
      then show ?thesis
        using k ne less.prems(1,2) Cons desc
        by (subst diff_value_unfold) (fastforce simp: canonical_opt_eq prepend_def)
    qed
  qed
qed

section \<open>Properties\<close>

text \<open>C25: Canonicalization is a normal form.  A document that is accepted comes out with the same
  content, with the string keys of every mapping strictly sorted and no tag left; canonicalizing it
  again changes nothing; and a document that differs from it only in the order of its keys comes out
  identical, so the hashes taken of the serialized form do not depend on that order.\<close>

theorem canonicalize_normal_form:
  assumes "yaml_ok v" "canonicalize v = Inr w"
  shows "value_eq v w \<and> canonical w \<and> canonicalize w = Inr w \<and>
    (\<forall>v'. yaml_ok v' \<longrightarrow> value_eq v v' \<longrightarrow> canonicalize v' = Inr w)"
  using assms canonicalize_value_eq canonicalize_canonical canonical_fixpoint canonicalize_cong by blast

lemma canonicalize_normal_form_witness:
  "canonicalize (YMapping [(KStr ''mode'', YString ''rule''), (KStr ''dns'', YNull)]) =
     Inr (YMapping [(KStr ''dns'', YNull), (KStr ''mode'', YString ''rule'')]) \<and>
   canonicalize (YMapping [(KStr ''dns'', YNull), (KStr ''mode'', YString ''rule'')]) =
     Inr (YMapping [(KStr ''dns'', YNull), (KStr ''mode'', YString ''rule'')])"
proof -
  let ?v = "YMapping [(KStr ''mode'', YString ''rule''), (KStr ''dns'', YNull)]"
  let ?w = "YMapping [(KStr ''dns'', YNull), (KStr ''mode'', YString ''rule'')]"
  have ok: "yaml_ok ?v" and canon: "canonicalize ?v = Inr ?w" by code_simp+
  show ?thesis using canonicalize_normal_form [OF ok canon] canon by simp
qed

text \<open>C24: The structural diff of two canonical documents is exact.  It is empty only if they are equal;
  every entry names a path at which they differ and carries the desired value there, absent when the
  desired document has none; and every path at which they differ is on the way to an entry, at it, or
  below it.\<close>

theorem diff_exact:
  assumes "canonical (YMapping current)" "canonical (YMapping desired)"
  shows "(diff current desired = [] \<longleftrightarrow> current = desired) \<and>
    (\<forall>e \<in> set (diff current desired).
       value_at (YMapping current) (d_path e) \<noteq> value_at (YMapping desired) (d_path e) \<and>
       d_new e = value_at (YMapping desired) (d_path e)) \<and>
    (\<forall>p. value_at (YMapping current) p \<noteq> value_at (YMapping desired) p \<longrightarrow>
       (\<exists>e \<in> set (diff current desired). prefix (d_path e) p \<or> prefix p (d_path e)))"
proof -
  let ?c = "Some (YMapping current)" and ?d = "Some (YMapping desired)"
  have co: "canonical_opt ?c" "canonical_opt ?d"
    using assms by (auto simp: canonical_opt_def simp del: canonical.simps(1))
  have at: "opt_at (Some v) p = value_at v p" for v p by (simp add: opt_at_def)
  show ?thesis
    using diff_nil_iff [OF co] diff_value_sound [OF co] diff_value_complete [OF co]
    unfolding diff_def at by simp
qed

lemma diff_exact_witness:
  "map d_path (diff [(KStr ''mode'', YString ''rule'')]
      [(KStr ''mode'', YString ''rule''), (KStr ''tun'', YMapping [(KStr ''enable'', YBool True)])]) =
     [[''tun'', ''enable'']] \<and>
   [(KStr ''mode'', YString ''rule'')] \<noteq>
     [(KStr ''mode'', YString ''rule''), (KStr ''tun'', YMapping [(KStr ''enable'', YBool True)])]"
proof -
  let ?c = "[(KStr ''mode'', YString ''rule'')]"
  let ?d = "[(KStr ''mode'', YString ''rule''), (KStr ''tun'', YMapping [(KStr ''enable'', YBool True)])]"
  have c: "canonical (YMapping ?c)" and d: "canonical (YMapping ?d)" by code_simp+
  have "map d_path (diff ?c ?d) = [[''tun'', ''enable'']]" by code_simp
  then show ?thesis using diff_exact [OF c d] by auto
qed

end
