(* ===== verification/Paths.thy ===== *)
theory Paths
  imports Core_Types
begin

text \<open>
  The Unix path operations of the standard library that the program uses on its artifact,
  controller and configuration paths, and the substring operations of \<open>str\<close> it uses on templates
  and addresses.
\<close>

section \<open>Paths\<close>

definition is_absolute :: "string \<Rightarrow> bool" where
  "is_absolute p = (p \<noteq> [] \<and> hd p = CHR ''/'')"

text \<open>\<open>Path::join\<close>: an absolute second path replaces the first.\<close>

definition path_join :: "string \<Rightarrow> string \<Rightarrow> string" where
  "path_join a b =
     (if is_absolute b then b
      else if a = [] \<or> last a = CHR ''/'' then a @ b
      else a @ CHR ''/'' # b)"

text \<open>\<open>Path::components\<close>: repeated separators and \<open>.\<close> are dropped, except a leading \<open>.\<close>.\<close>

fun split_slash :: "string \<Rightarrow> string \<Rightarrow> string list" where
  "split_slash acc [] = [rev acc]"
| "split_slash acc (c # cs) =
     (if c = CHR ''/'' then rev acc # split_slash [] cs else split_slash (c # acc) cs)"

definition components :: "string \<Rightarrow> string list" where
  "components p =
     (let parts = split_slash [] p;
          normal = filter (\<lambda>c. c \<noteq> [] \<and> c \<noteq> ''.'')
      in if is_absolute p then ''/'' # normal parts
         else if hd parts = ''.'' then ''.'' # normal (tl parts)
         else normal parts)"

text \<open>\<open>Path::starts_with\<close>, \<open>Path::file_name\<close>.\<close>

definition path_starts_with :: "string \<Rightarrow> string \<Rightarrow> bool" where
  "path_starts_with p base = prefix (components base) (components p)"

definition file_name :: "string \<Rightarrow> string option" where
  "file_name p =
     (case rev (components p) of
        [] \<Rightarrow> None
      | c # _ \<Rightarrow> if c \<in> {''/'', ''.'', ''..''} then None else Some c)"

text \<open>\<open>Path::parent\<close>: the text before the last component, without trailing separators and \<open>.\<close>
  components.  The text is kept reversed.\<close>

fun trim_rev :: "string \<Rightarrow> string" where
  "trim_rev (c # d # cs) =
     (if c = CHR ''/'' then trim_rev (d # cs)
      else if c = CHR ''.'' \<and> d = CHR ''/'' then trim_rev (d # cs)
      else c # d # cs)"
| "trim_rev cs = cs"

definition path_parent :: "string \<Rightarrow> string option" where
  "path_parent p =
     (let q = trim_rev (rev p) in
      if q = [] \<or> q = ''/'' then None
      else Some (rev (trim_rev (dropWhile (\<lambda>c. c \<noteq> CHR ''/'') q))))"

section \<open>Substrings\<close>

definition contains :: "string \<Rightarrow> string \<Rightarrow> bool" where
  "contains s pat = list_ex (\<lambda>i. take (length pat) (drop i s) = pat) [0..<Suc (length s)]"

text \<open>\<open>str::replace\<close> with a non-empty pattern.  \<open>skip\<close> is what remains of the occurrence just replaced.\<close>

fun replace_from :: "nat \<Rightarrow> string \<Rightarrow> string \<Rightarrow> string \<Rightarrow> string" where
  "replace_from skip pat by [] = []"
| "replace_from skip pat by (c # cs) =
     (if 0 < skip then replace_from (skip - 1) pat by cs
      else if strip_prefix pat (c # cs) \<noteq> None then by @ replace_from (length pat - 1) pat by cs
      else c # replace_from 0 pat by cs)"

definition replace :: "string \<Rightarrow> string \<Rightarrow> string \<Rightarrow> string" where
  "replace pat by s = replace_from 0 pat by s"

text \<open>\<open>str::rsplit_once\<close> on a single byte.\<close>

definition rsplit_once :: "char \<Rightarrow> string \<Rightarrow> (string \<times> string) option" where
  "rsplit_once d s = map_option (\<lambda>(a, b). (rev b, rev a)) (split_once d (rev s))"

lemma rsplit_once_Some:
  "rsplit_once d s = Some (a, b) \<longleftrightarrow> s = a @ d # b \<and> d \<notin> set b"
proof
  assume "rsplit_once d s = Some (a, b)"
  then have "split_once d (rev s) = Some (rev b, rev a)" by (auto simp: rsplit_once_def)
  then have "rev s = rev b @ d # rev a \<and> d \<notin> set b" by (simp add: split_once_Some)
  then show "s = a @ d # b \<and> d \<notin> set b" by (metis append.assoc append_Cons append_Nil rev_append rev_rev_ident rev.simps(2))
next
  assume "s = a @ d # b \<and> d \<notin> set b"
  then show "rsplit_once d s = Some (a, b)" by (simp add: rsplit_once_def)
qed

lemma components_examples:
  "components ''/run//core/./x/'' = [''/'', ''run'', ''core'', ''x'']"
  "path_parent ''/run//core/./x/'' = Some ''/run//core''" "path_parent ''x'' = Some []"
  "path_parent ''/'' = None" "file_name ''/run/..'' = None" "file_name ''a/b.sock/'' = Some ''b.sock''"
  by code_simp+

lemma is_absolute_join: "is_absolute a \<Longrightarrow> is_absolute (path_join a b)"
  by (auto simp: path_join_def is_absolute_def)

lemma path_join_inj:
  "\<not> is_absolute x \<Longrightarrow> \<not> is_absolute y \<Longrightarrow> path_join a x = path_join a y \<longleftrightarrow> x = y"
  by (simp add: path_join_def)

end
