(* ===== verification/Config.thy ===== *)
theory Config
  imports Yaml Launch_Spec Operation_Id Paths
begin

text \<open>
  The configuration pipeline (\<open>config/mod.rs\<close>, \<open>config/clash.rs\<close>): a source document is read once,
  canonicalized and hashed; an effective document is derived from it for one epoch, with the
  controller rewritten to the manager's own socket when local IPC was selected; the controller is
  resolved to the transport the API client uses (\<open>clash-api/src/client.rs\<close>).  The platform is Unix.

  The YAML text codec, the URL parser and the file system's path resolution are parameters, bundled
  in \<open>config_env\<close>.  The inbound-zeroing of the bootstrap variant is an argument here and comes from
  the Mihomo component.
\<close>

section \<open>Environment\<close>

text \<open>\<open>canonicalize\<close> of the file system answers with \<open>None\<close> when the resolved path is not UTF-8.\<close>

record config_env =
  yaml_parse :: "string \<Rightarrow> (string, yaml) result"
  yaml_print :: "mapping \<Rightarrow> (string, string) result"
  url_parse :: "string \<Rightarrow> (string, url) result"
  fs_canonicalize :: "string \<Rightarrow> (io_error, string option) result"

section \<open>Base URLs\<close>

definition url_text :: "url \<Rightarrow> string" where
  "url_text u =
     url_prefix u @ url_path u @ (case url_query u of None \<Rightarrow> [] | Some q \<Rightarrow> CHR ''?'' # q)
       @ (case url_fragment u of None \<Rightarrow> [] | Some f \<Rightarrow> CHR ''#'' # f)"

definition normalize_base_url :: "url \<Rightarrow> (string, url) result" where
  "normalize_base_url u =
     (if url_scheme u \<noteq> ''http'' \<and> url_scheme u \<noteq> ''https''
      then Inl (''unsupported Clash API URL scheme `'' @ url_scheme u @ ''`'')
      else if url_cannot_be_a_base u
      then Inl (''URL cannot be used as a Clash API base URL: '' @ url_text u)
      else if url_query u \<noteq> None \<or> url_fragment u \<noteq> None
      then Inl (''Clash API base URL must not contain a query or fragment: '' @ url_text u)
      else if url_path u = [] \<or> last (url_path u) \<noteq> CHR ''/''
      then Inr (u\<lparr>url_path := url_path u @ ''/''\<rparr>)
      else Inr u)"

definition parse_complete_url :: "config_env \<Rightarrow> string \<Rightarrow> (string, host) result" where
  "parse_complete_url env v =
     (case url_parse env v of
        Inl source \<Rightarrow> Inl (''invalid Clash API base URL `'' @ v @ ''`: '' @ source)
      | Inr u \<Rightarrow> map_sum id Http (normalize_base_url u))"

definition parse_controller_url :: "config_env \<Rightarrow> string \<Rightarrow> string \<Rightarrow> (string, host) result" where
  "parse_controller_url env v default_scheme =
     (if contains v ''://'' then parse_complete_url env v
      else parse_complete_url env (default_scheme @ ''://'' @ v))"

section \<open>Snapshots\<close>

record config_snapshot =
  snap_source_path :: string
  snap_document :: mapping
  snap_source_hash :: string

record prepared_config =
  prep_bytes :: string
  prep_document :: mapping
  prep_controller :: resolved_controller
  prep_rewrote_controller :: bool
  prep_source_hash :: string
  prep_effective_hash :: string

datatype raw_controller = RawPipe string | RawUnix string | RawHttp string

record config_info =
  info_controller :: "raw_controller option"
  info_secret :: "string option"

definition serialize_mapping :: "config_env \<Rightarrow> mapping \<Rightarrow> (error, string) result" where
  "serialize_mapping env document = map_sum Yaml id (yaml_print env document)"

text \<open>The FNV-1a loop of \<open>semantic_hash\<close>, over the bytes of the canonical text.\<close>

definition semantic_hash :: "string \<Rightarrow> string" where
  "semantic_hash bytes = hex_padded 16 (unat (fnv1a bytes))"

definition from_bytes :: "config_env \<Rightarrow> string \<Rightarrow> string \<Rightarrow> (error, config_snapshot) result" where
  "from_bytes env source_path raw =
     (case yaml_parse env raw of
        Inl e \<Rightarrow> Inl (Yaml e)
      | Inr value \<Rightarrow>
          (case canonicalize value of
             Inl e \<Rightarrow> Inl e
           | Inr (YMapping document) \<Rightarrow>
               (case serialize_mapping env document of
                  Inl e \<Rightarrow> Inl e
                | Inr bytes \<Rightarrow>
                    Inr \<lparr>snap_source_path = source_path, snap_document = document,
                         snap_source_hash = semantic_hash bytes\<rparr>)
           | Inr _ \<Rightarrow> Inl (InvalidConfig ''top-level YAML document must be a mapping'')))"

text \<open>\<open>ConfigSnapshot::load\<close>, with the outcome of reading the file.\<close>

definition load_snapshot :: "config_env \<Rightarrow> string \<Rightarrow> (io_error, string) result \<Rightarrow> (error, config_snapshot) result" where
  "load_snapshot env source_path read =
     (case read of Inl e \<Rightarrow> Inl (Io e) | Inr raw \<Rightarrow> from_bytes env source_path raw)"

section \<open>The controller\<close>

definition EXTERNAL_CONTROLLER :: string where "EXTERNAL_CONTROLLER = ''external-controller''"
definition EXTERNAL_CONTROLLER_PIPE :: string where "EXTERNAL_CONTROLLER_PIPE = ''external-controller-pipe''"
definition EXTERNAL_CONTROLLER_UNIX :: string where "EXTERNAL_CONTROLLER_UNIX = ''external-controller-unix''"
definition EXTERNAL_CONTROLLER_TLS :: string where "EXTERNAL_CONTROLLER_TLS = ''external-controller-tls''"
definition SECRET :: string where "SECRET = ''secret''"

lemmas controller_keys =
  EXTERNAL_CONTROLLER_def EXTERNAL_CONTROLLER_PIPE_def EXTERNAL_CONTROLLER_UNIX_def
  EXTERNAL_CONTROLLER_TLS_def SECRET_def

definition LOCAL_TRANSPORT_FEATURE :: feature where "LOCAL_TRANSPORT_FEATURE = UnixSocketIpc"

definition CONTROLLER_FIELDS :: "string list" where
  "CONTROLLER_FIELDS =
     [EXTERNAL_CONTROLLER, EXTERNAL_CONTROLLER_TLS, EXTERNAL_CONTROLLER_PIPE, EXTERNAL_CONTROLLER_UNIX,
      SECRET]"

definition str_value :: "mapping \<Rightarrow> string \<Rightarrow> string option" where
  "str_value doc key =
     (case Option.bind (mget doc key) as_str of
        None \<Rightarrow> None
      | Some v \<Rightarrow> if v \<noteq> [] then Some v else None)"

definition inspect :: "mapping \<Rightarrow> config_info" where
  "inspect document =
     \<lparr>info_controller =
        (case str_value document EXTERNAL_CONTROLLER_UNIX of
           Some path \<Rightarrow> Some (RawUnix path)
         | None \<Rightarrow> map_option RawHttp (str_value document EXTERNAL_CONTROLLER)),
      info_secret = str_value document SECRET\<rparr>"

definition inspect_http :: "mapping \<Rightarrow> config_info" where
  "inspect_http document =
     \<lparr>info_controller = map_option RawHttp (str_value document EXTERNAL_CONTROLLER),
      info_secret = str_value document SECRET\<rparr>"

definition rewrite_managed_controller :: "mapping \<Rightarrow> string \<Rightarrow> bool \<Rightarrow> mapping" where
  "rewrite_managed_controller document endpoint keep_http =
     minsert EXTERNAL_CONTROLLER_UNIX (YString endpoint)
       (foldl (\<lambda>doc field.
                 if (field \<noteq> EXTERNAL_CONTROLLER \<and> field \<noteq> EXTERNAL_CONTROLLER_TLS) \<or> \<not> keep_http
                 then mremove field doc else doc)
          document
          [EXTERNAL_CONTROLLER, EXTERNAL_CONTROLLER_TLS, EXTERNAL_CONTROLLER_PIPE, EXTERNAL_CONTROLLER_UNIX])"

text \<open>A wildcard listen address is probed through the loopback interface.\<close>

definition probe_address :: "string \<Rightarrow> string" where
  "probe_address address =
     (case rsplit_once (CHR '':'') address of
        Some (h, port) \<Rightarrow>
          if h \<in> {''0.0.0.0'', ''::'', ''[::]'', []} then ''127.0.0.1:'' @ port else address
      | None \<Rightarrow> address)"

definition resolve_controller :: "config_env \<Rightarrow> config_info \<Rightarrow> (error, resolved_controller) result" where
  "resolve_controller env info =
     (case info_controller info of
        None \<Rightarrow> Inl ControllerMissing
      | Some raw \<Rightarrow>
          (case (case raw of
                   RawPipe path \<Rightarrow> Inr (NamedPipe path)
                 | RawUnix path \<Rightarrow> Inr (UnixSocket path)
                 | RawHttp address \<Rightarrow>
                     map_sum Api id (parse_controller_url env (probe_address address) ''http'')) of
             Inl e \<Rightarrow> Inl e
           | Inr host \<Rightarrow> Inr \<lparr>rc_host = host, rc_secret = info_secret info\<rparr>))"

section \<open>The managed endpoint\<close>

definition validate_controller_template :: "string option \<Rightarrow> (error, unit) result" where
  "validate_controller_template template =
     (case template of
        Some v \<Rightarrow>
          if \<not> contains v ''{epoch}''
          then Inl (InvalidManagerOptions ''managed controller_template must contain `{epoch}`'')
          else Inr ()
      | None \<Rightarrow> Inr ())"

definition managed_unix_endpoint :: "config_env \<Rightarrow> string \<Rightarrow> string \<Rightarrow> (error, string) result" where
  "managed_unix_endpoint env runtime_dir endpoint =
     (let candidate = (if is_absolute endpoint then endpoint else path_join runtime_dir endpoint) in
      case path_parent candidate of
        None \<Rightarrow> Inl (InvalidManagerOptions ''managed Unix controller has no parent directory'')
      | Some parent \<Rightarrow>
          (case fs_canonicalize env parent of
             Inl e \<Rightarrow>
               Inl (InvalidManagerOptions
                 (''managed Unix controller parent `'' @ parent @ ''` cannot be canonicalized: '' @ io_text e))
           | Inr None \<Rightarrow> Inl (InvalidManagerOptions ''managed Unix controller path is not UTF-8'')
           | Inr (Some canonical_parent) \<Rightarrow>
               (case fs_canonicalize env runtime_dir of
                  Inl e \<Rightarrow> Inl (Io e)
                | Inr canonical_root \<Rightarrow>
                    if \<not> (case canonical_root of
                            None \<Rightarrow> False
                          | Some root \<Rightarrow> path_starts_with canonical_parent root)
                    then Inl (InvalidManagerOptions
                      (''managed Unix controller `'' @ candidate @ ''` escapes runtime directory `''
                        @ runtime_dir @ ''`''))
                    else
                      (case file_name candidate of
                         None \<Rightarrow> Inl (InvalidManagerOptions ''managed Unix controller must name a socket file'')
                       | Some name \<Rightarrow> Inr (path_join canonical_parent name)))))"

definition render_endpoint_path :: "config_env \<Rightarrow> string \<Rightarrow> string option \<Rightarrow> 64 word \<Rightarrow> (error, string) result" where
  "render_endpoint_path env runtime_dir template epoch =
     (case validate_controller_template template of
        Inl e \<Rightarrow> Inl e
      | Inr _ \<Rightarrow>
          (case template of
             Some t \<Rightarrow> managed_unix_endpoint env runtime_dir (replace ''{epoch}'' (show_nat (unat epoch)) t)
           | None \<Rightarrow> Inr (path_join runtime_dir (''core-'' @ show_nat (unat epoch) @ ''.sock''))))"

definition TEMPLATE_PROBE_RENDERING :: "64 word" where "TEMPLATE_PROBE_RENDERING = 0"

definition validate_managed_endpoint :: "config_env \<Rightarrow> string \<Rightarrow> string option \<Rightarrow> (error, unit) result" where
  "validate_managed_endpoint env runtime_dir template =
     map_sum id (\<lambda>_. ()) (render_endpoint_path env runtime_dir template TEMPLATE_PROBE_RENDERING)"

definition managed_endpoint_path :: "config_env \<Rightarrow> string \<Rightarrow> string option \<Rightarrow> epoch \<Rightarrow> (error, string) result" where
  "managed_endpoint_path env runtime_dir template epoch =
     render_endpoint_path env runtime_dir template (epoch_get epoch)"

text \<open>A socket address holds 108 bytes, the last of them zero.\<close>

definition SUN_PATH_LEN :: nat where "SUN_PATH_LEN = 108"

definition validate_socket_path :: "string \<Rightarrow> (error, unit) result" where
  "validate_socket_path path =
     (if CHR 0x00 \<in> set path
      then Inl (InvalidManagerOptions
        ''invalid controller socket path: paths must not contain interior null bytes'')
      else if SUN_PATH_LEN \<le> length path
      then Inl (InvalidManagerOptions
        ''invalid controller socket path: path must be shorter than SUN_LEN'')
      else Inr ())"

section \<open>Effective documents\<close>

text \<open>The rewritten document before it is canonicalized again.\<close>

definition effective_source ::
    "config_env \<Rightarrow> string option \<Rightarrow> string \<Rightarrow> epoch \<Rightarrow> bool \<Rightarrow> local_ipc_settings option \<Rightarrow> mapping
       \<Rightarrow> (error, mapping) result" where
  "effective_source env controller_template runtime_dir epoch rewrote settings document =
     (if rewrote
      then (case managed_endpoint_path env runtime_dir controller_template epoch of
              Inl e \<Rightarrow> Inl e
            | Inr endpoint \<Rightarrow>
                (case validate_socket_path endpoint of
                   Inl e \<Rightarrow> Inl e
                 | Inr _ \<Rightarrow>
                     Inr (rewrite_managed_controller document endpoint
                            (case settings of None \<Rightarrow> False | Some s \<Rightarrow> keep_http_controller s))))
      else if settings \<noteq> None
      then Inr (mremove EXTERNAL_CONTROLLER_UNIX (mremove EXTERNAL_CONTROLLER_PIPE document))
      else Inr document)"

definition prepare ::
    "config_env \<Rightarrow> (mapping \<Rightarrow> mapping) \<Rightarrow> config_snapshot \<Rightarrow> string option \<Rightarrow> string \<Rightarrow> epoch
       \<Rightarrow> runtime_feature list \<Rightarrow> local_ipc_settings option \<Rightarrow> (error, prepared_config) result" where
  "prepare env zero snap controller_template runtime_dir epoch runtime settings =
     (let rewrote = (LocalIpc \<in> set runtime) in
      case effective_source env controller_template runtime_dir epoch rewrote settings
             (zero (snap_document snap)) of
        Inl e \<Rightarrow> Inl e
      | Inr source \<Rightarrow>
          (case canonicalize (YMapping source) of
             Inl e \<Rightarrow> Inl e
           | Inr value \<Rightarrow>
               (let document = the (as_mapping value);
                    info = (if rewrote then inspect document else inspect_http document)
                in case resolve_controller env info of
                     Inl e \<Rightarrow> Inl e
                   | Inr controller \<Rightarrow>
                       (case serialize_mapping env document of
                          Inl e \<Rightarrow> Inl e
                        | Inr bytes \<Rightarrow>
                            Inr \<lparr>prep_bytes = bytes, prep_document = document,
                                 prep_controller = controller, prep_rewrote_controller = rewrote,
                                 prep_source_hash = snap_source_hash snap,
                                 prep_effective_hash = semantic_hash bytes\<rparr>))))"

definition prepare_full ::
    "config_env \<Rightarrow> config_snapshot \<Rightarrow> string option \<Rightarrow> string \<Rightarrow> epoch
       \<Rightarrow> runtime_feature list \<Rightarrow> local_ipc_settings option \<Rightarrow> (error, prepared_config) result" where
  "prepare_full env = prepare env (\<lambda>document. document)"

section \<open>Canonical documents through the pipeline\<close>

text \<open>A mapping whose keys are distinct strings and whose values are canonical is only reordered by
  canonicalization.\<close>

definition flat_ok :: "mapping \<Rightarrow> bool" where
  "flat_ok m = (distinct (map fst m) \<and> list_all (\<lambda>(k, v). key_str k \<noteq> None \<and> canonical v) m)"

lemma canonical_flat_ok: "canonical (YMapping m) \<Longrightarrow> flat_ok m"
  unfolding flat_ok_def
proof
  assume c: "canonical (YMapping m)"
  show "distinct (map fst m)" using canonical_yaml_ok [OF c] by simp
  have "fst x \<in> set (map fst m)" if "x \<in> set m" for x using that by simp
  then have "key_str (fst x) \<noteq> None" if "x \<in> set m" for x using c that by fastforce
  then show "list_all (\<lambda>(k, v). key_str k \<noteq> None \<and> canonical v) m"
    using c by (auto simp: list_all_iff)
qed

lemma set_kinsert: "set (kinsert k v m) \<subseteq> insert (k, v) (set m)"
  by (induction k v m rule: kinsert.induct) auto

lemma flat_ok_minsert: "flat_ok m \<Longrightarrow> canonical v \<Longrightarrow> flat_ok (minsert k v m)"
  using set_kinsert [of "KStr k" v m]
  by (auto simp: flat_ok_def minsert_def distinct_kinsert list_all_iff)

lemma flat_ok_mremove: "flat_ok m \<Longrightarrow> flat_ok (mremove k m)"
  using distinct_mremove [of m k] by (auto simp: flat_ok_def mremove_def list_all_iff)

lemma flat_ok_yaml_ok: "flat_ok m \<Longrightarrow> yaml_ok (YMapping m)"
  by (auto simp: flat_ok_def list_all_iff canonical_yaml_ok)

lemma flat_ok_canonicalize:
  assumes "flat_ok m"
  shows "\<exists>n. canonicalize (YMapping m) = Inr (YMapping n) \<and> canonical (YMapping n) \<and> (\<forall>k. mget n k = mget m k)"
proof -
  define es where "es = map (\<lambda>(k, v). (the (key_str k), v)) m"
  have "apfst KStr (case x of (k, v) \<Rightarrow> (the (key_str k), v)) = x" if "x \<in> set m" for x
  proof -
    obtain k v where x: "x = (k, v)" by (cases x)
    then have "key_str k \<noteq> None" using assms that by (auto simp: flat_ok_def list_all_iff)
    then show ?thesis by (cases k) (auto simp: x)
  qed
  then have m: "m = map (apfst KStr) es" by (simp add: es_def map_idI)
  have d: "distinct (map fst es)"
    using assms by (simp add: flat_ok_def m distinct_map comp_def) (auto simp: inj_on_def)
  have can: "canonical v" if "(k, v) \<in> set es" for k v
    using assms that by (force simp: flat_ok_def list_all_iff m)
  have entries: "canon_entries m = Inr es"
    unfolding canon_entries_Inr m list_all2_map1
    using can by (auto simp: list_all2_same canonical_fixpoint)
  let ?n = "map (apfst KStr) (sort_key fst es)"
  have step: "canonicalize (YMapping m) = Inr (YMapping ?n)"
    by (simp add: entries canon_mapping_form [OF d])
  have "map_of ?n = map_of m"
  proof (rule map_of_eqI)
    show "set (map fst ?n) = set (map fst m)" by (simp add: m)
    have "distinct (map fst (sort_key fst es))"
      using d by (metis distinct_map distinct_sort inj_on_def set_sort)
    then have n: "distinct (map fst ?n)" by (auto simp: distinct_map inj_on_def)
    have md: "distinct (map fst m)" using assms by (simp add: flat_ok_def)
    show "\<forall>x \<in> set (map fst ?n). map_of ?n x = map_of m x"
    proof
      fix x assume "x \<in> set (map fst ?n)"
      then obtain v where "(x, v) \<in> set ?n" unfolding set_map [of fst] by (metis imageE prod.collapse)
      moreover then have "(x, v) \<in> set m" by (simp add: m)
      ultimately show "map_of ?n x = map_of m x" using n md by simp
    qed
  qed
  then have get: "\<forall>k. mget ?n k = mget m k" by (simp add: mget_def)
  have "canonical (YMapping ?n)" using canonicalize_canonical [OF flat_ok_yaml_ok [OF assms] step] .
  then show ?thesis using step get by blast
qed

lemma file_name_nonempty: "file_name p = Some n \<Longrightarrow> n \<noteq> []"
proof -
  have "[] \<notin> set (components p)" by (auto simp: components_def Let_def)
  moreover assume "file_name p = Some n"
  then have "n \<in> set (components p)"
    by (auto simp: file_name_def rev_eq_Cons_iff split: list.splits if_splits)
  ultimately show "n \<noteq> []" by metis
qed

lemma managed_endpoint_nonempty: "managed_endpoint_path env dir t e = Inr endpoint \<Longrightarrow> endpoint \<noteq> []"
  by (auto simp: managed_endpoint_path_def render_endpoint_path_def managed_unix_endpoint_def path_join_def
      Let_def dest: file_name_nonempty split: sum.splits option.splits if_splits)

lemma flat_ok_rewrite: "flat_ok m \<Longrightarrow> flat_ok (rewrite_managed_controller m endpoint keep)"
  by (auto simp: rewrite_managed_controller_def intro!: flat_ok_minsert flat_ok_mremove)

lemma mget_rewrite:
  "mget (rewrite_managed_controller m endpoint keep) k =
     (if k = EXTERNAL_CONTROLLER_UNIX then Some (YString endpoint)
      else if k = EXTERNAL_CONTROLLER_PIPE \<or> (k = EXTERNAL_CONTROLLER \<or> k = EXTERNAL_CONTROLLER_TLS) \<and> \<not> keep
      then None else mget m k)"
  by (auto simp: rewrite_managed_controller_def controller_keys)

lemma prepare_Inr:
  assumes "prepare env zero snap t dir e runtime settings = Inr p"
    and "flat_ok (zero (snap_document snap))"
  obtains source where
    "effective_source env t dir e (LocalIpc \<in> set runtime) settings (zero (snap_document snap)) = Inr source"
    "canonical (YMapping (prep_document p))" "\<forall>k. mget (prep_document p) k = mget source k"
    "resolve_controller env ((if LocalIpc \<in> set runtime then inspect else inspect_http) (prep_document p))
       = Inr (prep_controller p)"
    "prep_source_hash p = snap_source_hash snap"
    "yaml_print env (prep_document p) = Inr (prep_bytes p)"
    "prep_effective_hash p = semantic_hash (prep_bytes p)"
    "prep_rewrote_controller p = (LocalIpc \<in> set runtime)"
proof -
  obtain source where source:
    "effective_source env t dir e (LocalIpc \<in> set runtime) settings (zero (snap_document snap)) = Inr source"
    using assms(1) by (auto simp: prepare_def Let_def split: sum.splits)
  have "flat_ok source"
    using source assms(2)
    by (auto simp: effective_source_def flat_ok_rewrite flat_ok_mremove split: sum.splits if_splits)
  then obtain n where n: "canonicalize (YMapping source) = Inr (YMapping n)" "canonical (YMapping n)"
    "\<forall>k. mget n k = mget source k"
    using flat_ok_canonicalize by blast
  show thesis
    using assms(1) that [OF source] n(2,3) unfolding prepare_def Let_def source
    by (auto simp: n(1) serialize_mapping_def map_sum_def simp del: canonical.simps canonicalize.simps
        split: sum.splits if_splits)
qed

section \<open>Properties\<close>


text \<open>A toy environment for the examples: the codec knows one document, every URL and path is taken
  as it is.\<close>

definition toy_env :: config_env where
  "toy_env =
     \<lparr>yaml_parse = (\<lambda>_. Inr (YMapping [(KStr ''mode'', YString ''rule''), (KStr ''external-controller'', YString '':9090'')])),
      yaml_print = (\<lambda>m. Inr (map (\<lambda>_. CHR ''-'') m)),
      url_parse = (\<lambda>s. Inr \<lparr>url_scheme = ''http'', url_prefix = s, url_path = ''/'', url_query = None,
                         url_fragment = None, url_cannot_be_a_base = False\<rparr>),
      fs_canonicalize = (\<lambda>p. Inr (Some p))\<rparr>"

lemma yaml_print_toy [simp]: "yaml_print toy_env m = Inr (map (\<lambda>_. CHR ''-'') m)"
  by (simp add: toy_env_def)

lemma toy_endpoint:
  "managed_endpoint_path toy_env ''/run/nyan'' (Some ''core-{epoch}.sock'') (Epoch 7) = Inr ''/run/nyan/core-7.sock''"
  by code_simp

lemma prepare_toy:
  assumes "flat_ok (zero (snap_document snap))"
  shows "\<exists>p. prepare toy_env zero snap (Some ''core-{epoch}.sock'') ''/run/nyan'' (Epoch 7) [LocalIpc] None = Inr p \<and>
    (\<forall>k. mget (prep_document p) k =
       mget (rewrite_managed_controller (zero (snap_document snap)) ''/run/nyan/core-7.sock'' False) k)"
proof -
  let ?source = "rewrite_managed_controller (zero (snap_document snap)) ''/run/nyan/core-7.sock'' False"
  have source: "effective_source toy_env (Some ''core-{epoch}.sock'') ''/run/nyan'' (Epoch 7) True None
      (zero (snap_document snap)) = Inr ?source"
    by (simp add: effective_source_def toy_endpoint validate_socket_path_def SUN_PATH_LEN_def)
  obtain n where n: "canonicalize (YMapping ?source) = Inr (YMapping n)" "\<forall>k. mget n k = mget ?source k"
    using flat_ok_canonicalize [OF flat_ok_rewrite [OF assms]] by blast
  have ctl: "\<exists>c. resolve_controller toy_env (inspect n) = Inr c"
    using n(2) by (simp add: resolve_controller_def inspect_def str_value_def mget_rewrite)
  show ?thesis
    using n ctl unfolding prepare_def by (auto simp: source serialize_mapping_def simp del: canonicalize.simps)
qed


end
