(* ===== verification/Capability.thy ===== *)
theory Capability
  imports Config
begin

text \<open>
  What a core build can do and what the manager turns on: version banners and feature floors
  (\<open>nyanpasu-core-metadata/src/feature.rs\<close>, \<open>feature/clash.rs\<close>), the version cache and the local IPC
  decision (\<open>capability.rs\<close>), and the launch arguments of each kind (\<open>kind.rs\<close>).

  The semver parser, the file's modification time and the version command are parameters.
\<close>

section \<open>White space\<close>

text \<open>The length in bytes of the Unicode white space character a text starts with, or zero.\<close>

definition ws_width :: "string \<Rightarrow> nat" where
  "ws_width s =
     (case map of_char (take 3 s) :: nat list of
        [] \<Rightarrow> 0
      | a # rest \<Rightarrow>
          if (9 \<le> a \<and> a \<le> 13) \<or> a = 32 then 1
          else (case rest of
                  [] \<Rightarrow> 0
                | b # rest' \<Rightarrow>
                    if a = 0xC2 \<and> (b = 0x85 \<or> b = 0xA0) then 2
                    else (case rest' of
                            [] \<Rightarrow> 0
                          | c # _ \<Rightarrow>
                              if a = 0xE1 \<and> b = 0x9A \<and> c = 0x80 \<or>
                                 a = 0xE2 \<and> b = 0x80 \<and> (0x80 \<le> c \<and> c \<le> 0x8A \<or> c = 0xA8 \<or> c = 0xA9 \<or> c = 0xAF) \<or>
                                 a = 0xE2 \<and> b = 0x81 \<and> c = 0x9F \<or>
                                 a = 0xE3 \<and> b = 0x80 \<and> c = 0x80
                              then 3 else 0)))"

text \<open>\<open>str::split_whitespace\<close>: \<open>skip\<close> bytes still belong to a white space character; \<open>acc\<close> is the
  reversed word so far.\<close>

fun split_ws :: "nat \<Rightarrow> string \<Rightarrow> string \<Rightarrow> string list" where
  "split_ws skip acc [] = (if acc = [] then [] else [rev acc])"
| "split_ws skip acc (c # cs) =
     (if 0 < skip then split_ws (skip - 1) acc cs
      else if 0 < ws_width (c # cs)
      then (if acc = [] then [] else [rev acc]) @ split_ws (ws_width (c # cs) - 1) [] cs
      else split_ws 0 (c # acc) cs)"

definition split_whitespace :: "string \<Rightarrow> string list" where
  "split_whitespace s = split_ws 0 [] s"

section \<open>Versions\<close>

type_synonym version = "nat \<times> nat \<times> nat"

datatype core_version = Release version | Nightly | UnknownVersion

definition version_ge :: "version \<Rightarrow> version \<Rightarrow> bool" where
  "version_ge a b =
     (case (a, b) of
        ((a1, a2, a3), (b1, b2, b3)) \<Rightarrow> b1 < a1 \<or> b1 = a1 \<and> (b2 < a2 \<or> b2 = a2 \<and> b3 \<le> a3))"

definition version_char :: "char \<Rightarrow> bool" where
  "version_char c =
     (let b = of_char c :: nat in
      48 \<le> b \<and> b \<le> 57 \<or> 65 \<le> b \<and> b \<le> 90 \<or> 97 \<le> b \<and> b \<le> 122 \<or> c \<in> {CHR ''.'', CHR ''-'', CHR ''+'', CHR ''_''})"

definition trim_token :: "string \<Rightarrow> string" where
  "trim_token t =
     rev (dropWhile (\<lambda>c. \<not> version_char c) (rev (dropWhile (\<lambda>c. \<not> version_char c) t)))"

definition nightly_token :: "string \<Rightarrow> bool" where
  "nightly_token t =
     list_ex (\<lambda>p. case strip_prefix p t of None \<Rightarrow> False | Some rest \<Rightarrow> rest \<noteq> []) [''alpha-'', ''nightly-'']"

text \<open>The loop of \<open>CoreVersion::parse\<close>; the parser answers with major, minor and patch.\<close>

fun parse_tokens :: "(string \<Rightarrow> version option) \<Rightarrow> string list \<Rightarrow> core_version" where
  "parse_tokens semver [] = UnknownVersion"
| "parse_tokens semver (t # ts) =
     (let token = trim_token t;
          version = (case strip_prefix ''v'' token of None \<Rightarrow> token | Some rest \<Rightarrow> rest)
      in case semver version of
           Some v \<Rightarrow> Release v
         | None \<Rightarrow> if nightly_token token then Nightly else parse_tokens semver ts)"

definition parse_version :: "(string \<Rightarrow> version option) \<Rightarrow> string \<Rightarrow> core_version" where
  "parse_version semver raw = parse_tokens semver (split_whitespace raw)"

section \<open>Features\<close>

datatype support = Yes | Since version | No

definition since :: "version \<Rightarrow> core_version option \<Rightarrow> support" where
  "since req v =
     (case v of
        Some (Release r) \<Rightarrow> if version_ge r req then Yes else No
      | Some Nightly \<Rightarrow> Yes
      | Some UnknownVersion \<Rightarrow> No
      | None \<Rightarrow> Since req)"

definition MIHOMO_UNIX :: version where "MIHOMO_UNIX = (1, 18, 4)"
definition MIHOMO_PIPE :: version where "MIHOMO_PIPE = (1, 18, 9)"
definition CLASH_RS_UNIX :: version where "CLASH_RS_UNIX = (0, 9, 1)"
definition CLASH_RS_PIPE :: version where "CLASH_RS_PIPE = (0, 9, 7)"

fun supports :: "core_kind \<Rightarrow> feature \<Rightarrow> core_version option \<Rightarrow> support" where
  "supports Mihomo NamedPipeIpc v = since MIHOMO_PIPE v"
| "supports Mihomo NamedPipeSecurityDescriptor v = since MIHOMO_PIPE v"
| "supports Mihomo UnixSocketIpc v = since MIHOMO_UNIX v"
| "supports Mihomo DisableTcpController v = No"
| "supports ClashRust NamedPipeIpc v = since CLASH_RS_PIPE v"
| "supports ClashRust NamedPipeSecurityDescriptor v = No"
| "supports ClashRust UnixSocketIpc v = since CLASH_RS_UNIX v"
| "supports ClashRust DisableTcpController v = No"
| "supports ClashPremium _ v = No"
| "supports Meow _ v = No"

definition all_features :: "feature list" where
  "all_features = [NamedPipeIpc, UnixSocketIpc, DisableTcpController, NamedPipeSecurityDescriptor]"

definition features :: "core_kind \<Rightarrow> core_version option \<Rightarrow> feature list" where
  "features k v = filter (\<lambda>f. supports k f v = Yes) all_features"

definition potential_features :: "core_kind \<Rightarrow> feature list" where
  "potential_features k = filter (\<lambda>f. supports k f None \<noteq> No) all_features"

section \<open>The version cache\<close>

text \<open>\<open>tokio::fs::metadata\<close> with the modification time it may fail to give, and the version command: the
  error text, or whether it succeeded, its exit code as it is shown, and the two streams.\<close>

record command_output =
  co_success :: bool
  co_code :: string
  co_stdout :: string
  co_stderr :: string

record 'w version_sys =
  vs_metadata :: "string \<Rightarrow> 'w \<Rightarrow> (io_error, (string, nat) result) result \<times> 'w"
  vs_command :: "string \<Rightarrow> 'w \<Rightarrow> (string, command_output) result \<times> 'w"
  vs_semver :: "string \<Rightarrow> version option"

type_synonym version_cache = "((string \<times> nat) \<times> string) list"

definition binary_modified :: "'w version_sys \<Rightarrow> core_spec \<Rightarrow> 'w \<Rightarrow> (error, nat) result \<times> 'w" where
  "binary_modified vs spec w =
     (case vs_metadata vs (cs_binary_path spec) w of
        (Inl _, w) \<Rightarrow> (Inl (BinaryNotFound (cs_binary_path spec)), w)
      | (Inr (Inl detail), w) \<Rightarrow> (Inl (CoreVersionProbeFailed (cs_binary_path spec) detail), w)
      | (Inr (Inr t), w) \<Rightarrow> (Inr t, w))"

text \<open>The leading half of \<open>str::trim\<close>.\<close>

fun drop_ws :: "nat \<Rightarrow> string \<Rightarrow> string" where
  "drop_ws skip [] = []"
| "drop_ws skip (c # cs) =
     (if 0 < skip then drop_ws (skip - 1) cs
      else if 0 < ws_width (c # cs) then drop_ws (ws_width (c # cs) - 1) cs
      else c # cs)"

text \<open>The longest prefix that does not end in white space; \<open>skip\<close> as above.\<close>

fun keep_to_last :: "nat \<Rightarrow> string \<Rightarrow> string" where
  "keep_to_last skip [] = []"
| "keep_to_last skip (c # cs) =
     (let rest = (if 0 < skip then keep_to_last (skip - 1) cs
                  else if 0 < ws_width (c # cs) then keep_to_last (ws_width (c # cs) - 1) cs
                  else keep_to_last 0 cs)
      in if rest = [] \<and> (0 < skip \<or> 0 < ws_width (c # cs)) then [] else c # rest)"

definition trim :: "string \<Rightarrow> string" where
  "trim s = keep_to_last 0 (drop_ws 0 s)"

definition probe_version :: "'w version_sys \<Rightarrow> string \<Rightarrow> 'w \<Rightarrow> (error, string) result \<times> 'w" where
  "probe_version vs path w =
     (case vs_command vs path w of
        (Inl e, w) \<Rightarrow> (Inl (CoreVersionProbeFailed path e), w)
      | (Inr out, w) \<Rightarrow>
          if \<not> co_success out
          then (Inl (CoreVersionProbeFailed path (''process exited with code '' @ co_code out)), w)
          else let stdout = trim (co_stdout out); stderr = trim (co_stderr out);
                   version = (if stdout \<noteq> [] then stdout else stderr)
               in if version = []
                  then (Inl (CoreVersionProbeFailed path ''version command produced no output''), w)
                  else (Inr version, w))"

definition cache_resolve ::
    "'w version_sys \<Rightarrow> core_spec \<Rightarrow> version_cache \<Rightarrow> 'w \<Rightarrow> (error, string) result \<times> version_cache \<times> 'w" where
  "cache_resolve vs spec cache w =
     (case cs_version spec of
        Some v \<Rightarrow> (Inr v, cache, w)
      | None \<Rightarrow>
          (case binary_modified vs spec w of
             (Inl e, w) \<Rightarrow> (Inl e, cache, w)
           | (Inr modified, w) \<Rightarrow>
               let key = (cs_binary_path spec, modified) in
               (case map_of cache key of
                  Some v \<Rightarrow> (Inr v, cache, w)
                | None \<Rightarrow>
                    (case probe_version vs (cs_binary_path spec) w of
                       (Inl e, w) \<Rightarrow> (Inl e, cache, w)
                     | (Inr version, w) \<Rightarrow>
                         (case binary_modified vs spec w of
                            (Inl e, w) \<Rightarrow> (Inl e, cache, w)
                          | (Inr modified', w) \<Rightarrow>
                              if modified' \<noteq> modified
                              then (Inl (CoreVersionProbeFailed (cs_binary_path spec)
                                ''core binary changed during version probe; retry with the replacement binary''), cache, w)
                              else (Inr version,
                                    (key, version) # filter (\<lambda>(old, _). fst old \<noteq> cs_binary_path spec) cache, w))))))"

section \<open>The local IPC decision\<close>

record resolved_features =
  rf_capabilities :: "feature list"
  rf_runtime :: "runtime_feature list"
  rf_version :: "string option"

definition resolve_runtime ::
    "local_ipc_policy \<Rightarrow> core_spec \<Rightarrow> feature list \<Rightarrow> string option \<Rightarrow> (error, runtime_feature list) result" where
  "resolve_runtime policy core capabilities resolved_version =
     (let local_supported = (LOCAL_TRANSPORT_FEATURE \<in> set capabilities) in
      case policy of
        Force \<Rightarrow>
          if local_supported then Inr [LocalIpc]
          else Inl (RequiredLocalIpcUnsupported (cs_kind core)
                 (case resolved_version of
                    Some v \<Rightarrow> v
                  | None \<Rightarrow> (case cs_version core of Some v \<Rightarrow> v | None \<Rightarrow> ''unknown'')))
      | Prefer \<Rightarrow> Inr (if local_supported then [LocalIpc] else [])
      | Disable \<Rightarrow> Inr [])"

definition resolve_features ::
    "'w version_sys \<Rightarrow> core_spec \<Rightarrow> local_ipc_policy \<Rightarrow> version_cache \<Rightarrow> 'w
       \<Rightarrow> (error, resolved_features) result \<times> version_cache \<times> 'w" where
  "resolve_features vs core policy cache w =
     (let finish = (\<lambda>capabilities version cache w.
            (case resolve_runtime policy core capabilities version of
               Inl e \<Rightarrow> (Inl e, cache, w)
             | Inr runtime \<Rightarrow>
                 (Inr \<lparr>rf_capabilities = capabilities, rf_runtime = runtime, rf_version = version\<rparr>, cache, w)))
      in if potential_features (cs_kind core) = [] then finish [] (cs_version core) cache w
         else (case cache_resolve vs core cache w of
                 (Inl e, cache, w) \<Rightarrow> (Inl e, cache, w)
               | (Inr version, cache, w) \<Rightarrow>
                   finish (features (cs_kind core) (Some (parse_version (vs_semver vs) version))) (Some version) cache w))"

section \<open>Launch arguments\<close>

definition run_args :: "core_kind \<Rightarrow> string \<Rightarrow> string \<Rightarrow> string list" where
  "run_args kind working_dir config_path =
     (case kind of
        ClashRust \<Rightarrow> [''-d'', working_dir, ''-c'', config_path]
      | ClashPremium \<Rightarrow> [''-d'', working_dir, ''-f'', config_path]
      | _ \<Rightarrow> [''-m'', ''-d'', working_dir, ''-f'', config_path])"

definition controller_args :: "core_kind \<Rightarrow> host \<Rightarrow> string list" where
  "controller_args kind h =
     (if kind \<noteq> ClashRust then []
      else (case h of
              NamedPipe path \<Rightarrow> [''--controller-ipc'', path]
            | UnixSocket path \<Rightarrow> [''--controller-ipc'', path]
            | Http _ \<Rightarrow> []))"

definition check_args :: "string \<Rightarrow> string \<Rightarrow> string list" where
  "check_args working_dir config_path = [''-t'', ''-d'', working_dir, ''-f'', config_path]"

definition mihomo_safe_paths :: "string \<Rightarrow> string \<Rightarrow> string" where
  "mihomo_safe_paths working_dir config_dir = working_dir @ '':'' @ config_dir"

section \<open>Properties\<close>

lemma version_ge_trans: "version_ge a b \<Longrightarrow> version_ge b c \<Longrightarrow> version_ge a c"
  by (auto simp: version_ge_def split: prod.splits)

text \<open>C32: The local IPC decision follows ability and policy.  When features resolve, local IPC is on
  exactly if the policy allows it and the resolved version of this kind supports Unix sockets; a forced
  policy never resolves without it; and the capabilities are exactly the features that version
  supports.\<close>

theorem local_ipc_decision:
  assumes "resolve_features vs core policy cache w = (Inr r, cache', w')"
  shows "(LocalIpc \<in> set (rf_runtime r) \<longleftrightarrow>
      policy \<noteq> Disable \<and> (\<exists>v. rf_version r = Some v \<and>
        supports (cs_kind core) UnixSocketIpc (Some (parse_version (vs_semver vs) v)) = Yes)) \<and>
    (policy = Force \<longrightarrow> LocalIpc \<in> set (rf_runtime r)) \<and>
    (\<forall>f. f \<in> set (rf_capabilities r) \<longleftrightarrow>
      (\<exists>v. rf_version r = Some v \<and> supports (cs_kind core) f (Some (parse_version (vs_semver vs) v)) = Yes))"
proof -
  have none: "supports (cs_kind core) f v \<noteq> Yes" if "potential_features (cs_kind core) = []" for f v
    using that by (cases "cs_kind core"; cases f) (auto simp: potential_features_def all_features_def since_def)
  have all: "f \<in> set all_features" for f by (cases f) (simp_all add: all_features_def)
  show ?thesis
    using assms none all
    by (auto simp: resolve_features_def resolve_runtime_def Let_def features_def LOCAL_TRANSPORT_FEATURE_def
        split: if_splits sum.splits prod.splits local_ipc_policy.splits)
qed

definition toy_version_sys :: "nat version_sys" where
  "toy_version_sys =
     \<lparr>vs_metadata = (\<lambda>_ w. (Inr (Inr 7), w)),
      vs_command = (\<lambda>_ w. (Inr \<lparr>co_success = True, co_code = ''Some(0)'', co_stdout = ''Mihomo Meta v1.19.2 linux'',
                              co_stderr = []\<rparr>, Suc w)),
      vs_semver = (\<lambda>s. if s = ''1.19.2'' then Some (1, 19, 2) else None)\<rparr>"

definition toy_core :: core_spec where
  "toy_core = \<lparr>cs_kind = Mihomo, cs_binary_path = ''/bin/mihomo'', cs_version = None, cs_features = []\<rparr>"

lemma local_ipc_decision_witness:
  "\<exists>r cache w. resolve_features toy_version_sys toy_core Prefer [] 0 = (Inr r, cache, w) \<and>
     LocalIpc \<in> set (rf_runtime r) \<and> UnixSocketIpc \<in> set (rf_capabilities r)"
proof -
  let ?r = "\<lparr>rf_capabilities = [NamedPipeIpc, UnixSocketIpc, NamedPipeSecurityDescriptor],
    rf_runtime = [LocalIpc], rf_version = Some ''Mihomo Meta v1.19.2 linux''\<rparr>"
  let ?c = "[((''/bin/mihomo'', 7 :: nat), ''Mihomo Meta v1.19.2 linux'')]"
  have r: "resolve_features toy_version_sys toy_core Prefer [] 0 = (Inr ?r, ?c, 1)" by code_simp
  have s: "supports (cs_kind toy_core) UnixSocketIpc
      (Some (parse_version (vs_semver toy_version_sys) ''Mihomo Meta v1.19.2 linux'')) = Yes" by code_simp
  show ?thesis using local_ipc_decision [OF r] r s by auto
qed

text \<open>A newer build never loses a feature.  The features of a release are features of every later
  release of the same kind and of its nightly builds, and a version that cannot be recognized has
  none.\<close>

theorem features_monotone:
  "(version_ge v' v \<longrightarrow> set (features k (Some (Release v))) \<subseteq> set (features k (Some (Release v')))) \<and>
   set (features k (Some (Release v))) \<subseteq> set (features k (Some Nightly)) \<and>
   set (features k (Some Nightly)) = set (potential_features k) \<and> features k (Some UnknownVersion) = []"
proof -
  have rel: "supports k f (Some (Release v)) = Yes \<Longrightarrow> version_ge v' v \<Longrightarrow> supports k f (Some (Release v')) = Yes" for f
    by (cases k; cases f) (auto simp: since_def intro: version_ge_trans split: if_splits)
  have night: "supports k f (Some (Release v)) = Yes \<Longrightarrow> supports k f (Some Nightly) = Yes" for f
    by (cases k; cases f) (auto simp: since_def)
  have pot: "supports k f (Some Nightly) = Yes \<longleftrightarrow> supports k f None \<noteq> No" for f
    by (cases k; cases f) (auto simp: since_def)
  have unknown: "supports k f (Some UnknownVersion) \<noteq> Yes" for f
    by (cases k; cases f) (auto simp: since_def)
  show ?thesis
    using rel night pot unknown by (auto simp: features_def potential_features_def filter_empty_conv)
qed

lemma features_monotone_witness:
  "set (features Mihomo (Some (Release (1, 18, 4)))) \<subseteq> set (features Mihomo (Some (Release (1, 19, 0)))) \<and>
   UnixSocketIpc \<in> set (features Mihomo (Some (Release (1, 18, 4))))"
proof -
  have "version_ge (1, 19, 0) (1, 18, 4)" and "UnixSocketIpc \<in> set (features Mihomo (Some (Release (1, 18, 4))))"
    by code_simp+
  then show ?thesis using features_monotone by blast
qed

end
