(* ===== verification/Effects.thy ===== *)
theory Effects
  imports Capability
begin

text \<open>
  Fallible stateful code.  An operation of type \<open>('s, 'a) act\<close> maps a state to an outcome and a state;
  the outcome is a value, a domain error (the \<open>Err\<close> of a Rust \<open>Result\<close>, which \<open>?\<close> propagates), or a
  panic.  \<open>bnd\<close> is \<open>await?\<close> followed by the rest, \<open>attempt\<close> is matching on a \<open>Result\<close> instead of
  propagating it, \<open>ignore\<close> is \<open>let _ =\<close>, and \<open>cleanup\<close> is a destructor that runs on the way out of a
  failed block.

  Statements about operations are weakest preconditions \<open>wp m Q s\<close>: the outcome and final state of
  \<open>m\<close> from \<open>s\<close> satisfy \<open>Q\<close>.  The collection \<open>wp_rules\<close> holds one equation per combinator.
\<close>

datatype 'a out = Ok 'a | Err error | Panic string

type_synonym ('s, 'a) act = "'s \<Rightarrow> 'a out \<times> 's"

fun is_ok_out :: "'a out \<Rightarrow> bool" where
  "is_ok_out (Ok _) = True"
| "is_ok_out _ = False"

lemma ok_outE:
  assumes "is_ok_out (fst p)"
  obtains x where "p = (Ok x, snd p)"
  using assms by (cases p; cases "fst p") auto

definition ret :: "'a \<Rightarrow> ('s, 'a) act" where
  "ret x s = (Ok x, s)"

definition fail :: "error \<Rightarrow> ('s, 'a) act" where
  "fail e s = (Err e, s)"

definition panic :: "string \<Rightarrow> ('s, 'a) act" where
  "panic p s = (Panic p, s)"

definition bnd :: "('s, 'a) act \<Rightarrow> ('a \<Rightarrow> ('s, 'b) act) \<Rightarrow> ('s, 'b) act" where
  "bnd m f s =
     (case m s of
        (Ok x, s) \<Rightarrow> f x s
      | (Err e, s) \<Rightarrow> (Err e, s)
      | (Panic p, s) \<Rightarrow> (Panic p, s))"

definition attempt :: "('s, 'a) act \<Rightarrow> ('s, (error, 'a) result) act" where
  "attempt m s =
     (case m s of
        (Ok x, s) \<Rightarrow> (Ok (Inr x), s)
      | (Err e, s) \<Rightarrow> (Ok (Inl e), s)
      | (Panic p, s) \<Rightarrow> (Panic p, s))"

definition lift :: "(error, 'a) result \<Rightarrow> ('s, 'a) act" where
  "lift r = (case r of Inl e \<Rightarrow> fail e | Inr x \<Rightarrow> ret x)"

definition gets :: "('s \<Rightarrow> 'a) \<Rightarrow> ('s, 'a) act" where
  "gets f s = (Ok (f s), s)"

definition modify :: "('s \<Rightarrow> 's) \<Rightarrow> ('s, unit) act" where
  "modify f s = (Ok (), f s)"

definition ignore :: "('s, 'a) act \<Rightarrow> ('s, unit) act" where
  "ignore m = bnd (attempt m) (\<lambda>_. ret ())"

text \<open>Runs \<open>c\<close> for its effect when \<open>m\<close> fails, and fails as \<open>m\<close> did.\<close>

definition cleanup :: "('s, unit) act \<Rightarrow> ('s, 'a) act \<Rightarrow> ('s, 'a) act" where
  "cleanup c m = bnd (attempt m) (\<lambda>r. case r of Inl e \<Rightarrow> bnd (ignore c) (\<lambda>_. fail e) | Inr x \<Rightarrow> ret x)"

fun for_each :: "('x \<Rightarrow> ('s, unit) act) \<Rightarrow> 'x list \<Rightarrow> ('s, unit) act" where
  "for_each f [] = ret ()"
| "for_each f (x # xs) = bnd (f x) (\<lambda>_. for_each f xs)"

lemma bnd_assoc: "bnd (bnd m f) g = bnd m (\<lambda>x. bnd (f x) g)"
  by (auto simp: bnd_def fun_eq_iff split: prod.splits out.splits)

section \<open>Weakest preconditions\<close>

definition wp :: "('s, 'a) act \<Rightarrow> ('a out \<Rightarrow> 's \<Rightarrow> bool) \<Rightarrow> 's \<Rightarrow> bool" where
  "wp m Q s = (case m s of (r, s') \<Rightarrow> Q r s')"

named_theorems wp_rules \<open>weakest preconditions of the combinators\<close>

lemma wp_ret [wp_rules]: "wp (ret x) Q s = Q (Ok x) s"
  by (simp add: wp_def ret_def)

lemma wp_fail [wp_rules]: "wp (fail e) Q s = Q (Err e) s"
  by (simp add: wp_def fail_def)

lemma wp_panic [wp_rules]: "wp (panic p) Q s = Q (Panic p) s"
  by (simp add: wp_def panic_def)

lemma wp_bnd [wp_rules]:
  "wp (bnd m f) Q s = wp m (\<lambda>r s'. case r of Ok x \<Rightarrow> wp (f x) Q s' | Err e \<Rightarrow> Q (Err e) s' | Panic p \<Rightarrow> Q (Panic p) s') s"
  by (auto simp: wp_def bnd_def split: prod.splits out.splits)

lemma wp_attempt [wp_rules]:
  "wp (attempt m) Q s =
     wp m (\<lambda>r s'. case r of Ok x \<Rightarrow> Q (Ok (Inr x)) s' | Err e \<Rightarrow> Q (Ok (Inl e)) s' | Panic p \<Rightarrow> Q (Panic p) s') s"
  by (auto simp: wp_def attempt_def split: prod.splits out.splits)

lemma wp_lift [wp_rules]:
  "wp (lift r) Q s = (case r of Inl e \<Rightarrow> Q (Err e) s | Inr x \<Rightarrow> Q (Ok x) s)"
  by (simp add: lift_def wp_rules split: sum.splits)

lemma wp_gets [wp_rules]: "wp (gets f) Q s = Q (Ok (f s)) s"
  by (simp add: wp_def gets_def)

lemma wp_modify [wp_rules]: "wp (modify f) Q s = Q (Ok ()) (f s)"
  by (simp add: wp_def modify_def)

lemma wp_ignore [wp_rules]:
  "wp (ignore m) Q s = wp m (\<lambda>r s'. case r of Ok _ \<Rightarrow> Q (Ok ()) s' | Err _ \<Rightarrow> Q (Ok ()) s' | Panic p \<Rightarrow> Q (Panic p) s') s"
  by (auto simp: wp_def ignore_def bnd_def attempt_def ret_def split: prod.splits out.splits)

lemma wp_cleanup [wp_rules]:
  "wp (cleanup c m) Q s =
     wp m (\<lambda>r s'. case r of Ok x \<Rightarrow> Q (Ok x) s' | Panic p \<Rightarrow> Q (Panic p) s'
       | Err e \<Rightarrow> wp c (\<lambda>r' s''. case r' of Panic p \<Rightarrow> Q (Panic p) s'' | _ \<Rightarrow> Q (Err e) s'') s') s"
  by (auto simp: wp_def cleanup_def ignore_def bnd_def attempt_def ret_def fail_def split: prod.splits out.splits sum.splits)

lemma wp_mono:
  assumes "wp m Q s" and "\<And>r s'. Q r s' \<Longrightarrow> Q' r s'"
  shows "wp m Q' s"
  using assms by (auto simp: wp_def split: prod.splits)

lemma wp_conj: "wp m (\<lambda>r s'. Q r s' \<and> Q' r s') s \<longleftrightarrow> wp m Q s \<and> wp m Q' s"
  by (auto simp: wp_def split: prod.splits)

lemma wp_True [simp]: "wp m (\<lambda>_ _. True) s"
  by (auto simp: wp_def split: prod.splits)

lemma wp_run: "wp m Q s \<Longrightarrow> m s = (r, s') \<Longrightarrow> Q r s'"
  by (simp add: wp_def)

lemma wp_I: "(\<And>r s'. m s = (r, s') \<Longrightarrow> Q r s') \<Longrightarrow> wp m Q s"
  by (auto simp: wp_def split: prod.splits)

text \<open>The sequencing rule: what the first part establishes is what the rest starts from.\<close>

lemma wp_bndI:
  assumes "wp m R s" and "\<And>x s'. R (Ok x) s' \<Longrightarrow> wp (f x) Q s'"
    and "\<And>e s'. R (Err e) s' \<Longrightarrow> Q (Err e) s'" and "\<And>p s'. R (Panic p) s' \<Longrightarrow> Q (Panic p) s'"
  shows "wp (bnd m f) Q s"
  unfolding wp_bnd by (rule wp_mono [OF assms(1)]) (auto split: out.splits intro: assms)

lemma wp_attemptI:
  assumes "wp m R s" and "\<And>x s'. R (Ok x) s' \<Longrightarrow> Q (Ok (Inr x)) s'"
    and "\<And>e s'. R (Err e) s' \<Longrightarrow> Q (Ok (Inl e)) s'" and "\<And>p s'. R (Panic p) s' \<Longrightarrow> Q (Panic p) s'"
  shows "wp (attempt m) Q s"
  unfolding wp_attempt by (rule wp_mono [OF assms(1)]) (auto split: out.splits intro: assms)

section \<open>Relations every operation keeps\<close>

text \<open>\<open>keeps R m\<close>: \<open>m\<close> does not panic and, whatever its outcome, the final state is related to the initial
  one by \<open>R\<close>.  For a reflexive and transitive \<open>R\<close> this passes through every combinator.\<close>

definition keeps :: "('s \<Rightarrow> 's \<Rightarrow> bool) \<Rightarrow> ('s, 'a) act \<Rightarrow> bool" where
  "keeps R m = (\<forall>s. wp m (\<lambda>r s'. R s s' \<and> (\<forall>p. r \<noteq> Panic p)) s)"

locale kept =
  fixes R :: "'s \<Rightarrow> 's \<Rightarrow> bool"
  assumes refl: "R s s"
    and trans: "R s t \<Longrightarrow> R t u \<Longrightarrow> R s u"
begin

lemma keepsD: "keeps R m \<Longrightarrow> m s = (r, s') \<Longrightarrow> R s s' \<and> (\<forall>p. r \<noteq> Panic p)"
  unfolding keeps_def by (drule spec, drule wp_run) auto

lemma keepsI: "(\<And>s r s'. m s = (r, s') \<Longrightarrow> R s s' \<and> (\<forall>p. r \<noteq> Panic p)) \<Longrightarrow> keeps R m"
  unfolding keeps_def by (blast intro: wp_I)

lemma keeps_ret: "keeps R (ret x)" and keeps_fail: "keeps R (fail e)"
  and keeps_gets: "keeps R (gets f)" and keeps_lift: "keeps R (lift r)"
  by (simp_all add: keeps_def wp_rules refl split: sum.splits)

lemma keeps_bnd:
  assumes m: "keeps R m" and f: "\<And>x. keeps R (f x)"
  shows "keeps R (bnd m f)"
proof (rule keepsI)
  fix s r s'
  assume eq: "bnd m f s = (r, s')"
  show "R s s' \<and> (\<forall>p. r \<noteq> Panic p)"
  proof (cases "m s")
    case (Pair o' t)
    note st = keepsD [OF m Pair]
    show ?thesis
    proof (cases o')
      case (Ok x)
      then have "f x t = (r, s')" using eq Pair by (simp add: bnd_def)
      from keepsD [OF f this] show ?thesis using st by (blast intro: trans)
    qed (use eq Pair st in \<open>auto simp: bnd_def\<close>)
  qed
qed

lemma keeps_attempt: "keeps R m \<Longrightarrow> keeps R (attempt m)"
  unfolding keeps_def wp_attempt by (auto elim!: wp_mono split: out.splits)

lemma keeps_modify: "(\<And>s. R s (f s)) \<Longrightarrow> keeps R (modify f)"
  by (simp add: keeps_def wp_rules)

lemma keeps_ignore: "keeps R m \<Longrightarrow> keeps R (ignore m)"
  unfolding ignore_def by (intro keeps_bnd keeps_attempt keeps_ret)

lemma keeps_cleanup: "keeps R c \<Longrightarrow> keeps R m \<Longrightarrow> keeps R (cleanup c m)"
  unfolding cleanup_def
  by (intro keeps_bnd keeps_attempt) (auto split: sum.splits intro: keeps_bnd keeps_ignore keeps_fail keeps_ret)

lemma keeps_for_each: "(\<And>x. keeps R (f x)) \<Longrightarrow> keeps R (for_each f xs)"
  by (induction xs) (auto intro: keeps_bnd keeps_ret)

lemma keeps_if: "(b \<Longrightarrow> keeps R m) \<Longrightarrow> (\<not> b \<Longrightarrow> keeps R n) \<Longrightarrow> keeps R (if b then m else n)"
  by simp

lemma keeps_option:
  "(o' = None \<Longrightarrow> keeps R m) \<Longrightarrow> (\<And>x. o' = Some x \<Longrightarrow> keeps R (n x)) \<Longrightarrow> keeps R (case o' of None \<Rightarrow> m | Some x \<Rightarrow> n x)"
  by (cases o') simp_all

lemma keeps_sum:
  "(\<And>x. o' = Inl x \<Longrightarrow> keeps R (m x)) \<Longrightarrow> (\<And>x. o' = Inr x \<Longrightarrow> keeps R (n x)) \<Longrightarrow>
     keeps R (case o' of Inl x \<Rightarrow> m x | Inr x \<Rightarrow> n x)"
  by (cases o') simp_all

lemma keeps_prod: "(\<And>x y. p = (x, y) \<Longrightarrow> keeps R (m x y)) \<Longrightarrow> keeps R (case p of (x, y) \<Rightarrow> m x y)"
  by (cases p) simp_all

lemmas keeps_combinators =
  keeps_ret keeps_fail keeps_gets keeps_lift keeps_bnd keeps_attempt keeps_ignore keeps_cleanup
  keeps_for_each keeps_if keeps_option keeps_sum keeps_prod

end

end
