(* ===== verification/Runtime_Store.thy ===== *)
theory Runtime_Store
  imports Effects "HOL-Library.Sublist"
begin

text \<open>
  The durable store of runtime configurations (\<open>config/runtime_store.rs\<close>): one stable file per epoch,
  replaced atomically from staged files, with backups and the sweep of left-over artifacts.

  The file system is a parameter: a record of primitives on an abstract world, each returning its
  result with the new world.  The contract they are relied on for is the locale \<open>runtime_fs\<close>, stated
  through the contents of regular files; it is interpreted on an in-memory file system with faults.
\<close>

section \<open>The file system\<close>

datatype file_kind = FileRegular | FileDirectory | FileSymlink | FileSocket | FileOther

text \<open>\<open>tokio::fs\<close> and \<open>nyanpasu_utils::io::atomic_fs\<close>.  A canonical path that is not UTF-8 is \<open>None\<close>,
  and so is a directory entry's name; \<open>fs_write_sync\<close> is the write, flush and sync of an open file.\<close>

record 'w file_sys =
  fs_process_id :: "32 word"
  fs_symlink_metadata :: "string \<Rightarrow> 'w \<Rightarrow> (io_error, file_kind) result \<times> 'w"
  fs_create_dir_all :: "string \<Rightarrow> 'w \<Rightarrow> (io_error, unit) result \<times> 'w"
  fs_set_permissions :: "string \<Rightarrow> nat \<Rightarrow> 'w \<Rightarrow> (io_error, unit) result \<times> 'w"
  fs_canonical :: "string \<Rightarrow> 'w \<Rightarrow> (io_error, string option) result \<times> 'w"
  fs_acquire_dir_lock :: "string \<Rightarrow> 'w \<Rightarrow> (atomic_fs_error, unit) result \<times> 'w"
  fs_validate_absent :: "string \<Rightarrow> 'w \<Rightarrow> (atomic_fs_error, unit) result \<times> 'w"
  fs_validate_existing :: "string \<Rightarrow> 'w \<Rightarrow> (atomic_fs_error, unit) result \<times> 'w"
  fs_create_new :: "string \<Rightarrow> 'w \<Rightarrow> (io_error, unit) result \<times> 'w"
  fs_write_sync :: "string \<Rightarrow> string \<Rightarrow> 'w \<Rightarrow> (io_error, unit) result \<times> 'w"
  fs_read :: "string \<Rightarrow> 'w \<Rightarrow> (io_error, string) result \<times> 'w"
  fs_remove_file :: "string \<Rightarrow> 'w \<Rightarrow> (io_error, unit) result \<times> 'w"
  fs_remove_regular :: "string \<Rightarrow> 'w \<Rightarrow> (atomic_fs_error, unit) result \<times> 'w"
  fs_move_new :: "string \<Rightarrow> string \<Rightarrow> 'w \<Rightarrow> (atomic_fs_error, unit) result \<times> 'w"
  fs_replace :: "string \<Rightarrow> string \<Rightarrow> 'w \<Rightarrow> (atomic_fs_error, unit) result \<times> 'w"
  fs_sync_dir :: "string \<Rightarrow> 'w \<Rightarrow> (io_error, unit) result \<times> 'w"
  fs_read_dir :: "string \<Rightarrow> 'w \<Rightarrow> (io_error, (io_error, string option) result list) result \<times> 'w"

text \<open>The state of the process that the store touches: the world and \<open>TEMP_COUNTER\<close>.\<close>

record 'w sys_state =
  ss_world :: 'w
  ss_temp_counter :: "64 word"

definition on_world :: "('w \<Rightarrow> 'r \<times> 'w) \<Rightarrow> (('w, 'x) sys_state_scheme, 'r) act" where
  "on_world f s = (case f (ss_world s) of (r, w) \<Rightarrow> (Ok r, s\<lparr>ss_world := w\<rparr>))"

definition io :: "('w \<Rightarrow> (io_error, 'a) result \<times> 'w) \<Rightarrow> (('w, 'x) sys_state_scheme, 'a) act" where
  "io f = bnd (on_world f) (\<lambda>r. case r of Inl e \<Rightarrow> fail (Io e) | Inr x \<Rightarrow> ret x)"

definition atomic :: "('w \<Rightarrow> (atomic_fs_error, 'a) result \<times> 'w) \<Rightarrow> (('w, 'x) sys_state_scheme, 'a) act" where
  "atomic f = bnd (on_world f) (\<lambda>r. case r of Inl e \<Rightarrow> fail (from_atomic_fs_error e) | Inr x \<Rightarrow> ret x)"

lemma wp_on_world [wp_rules]:
  "wp (on_world f) Q s = (case f (ss_world s) of (r, w) \<Rightarrow> Q (Ok r) (s\<lparr>ss_world := w\<rparr>))"
  by (auto simp: wp_def on_world_def split: prod.splits)

section \<open>Artifacts\<close>

definition runtime_name :: "64 word \<Rightarrow> string" where
  "runtime_name n = ''config-'' @ show_nat (unat n) @ ''.yaml''"

definition pid_name :: "64 word \<Rightarrow> string" where
  "pid_name n = ''core-'' @ show_nat (unat n) @ ''.pid''"

definition socket_name :: "64 word \<Rightarrow> string" where
  "socket_name n = ''core-'' @ show_nat (unat n) @ ''.sock''"

definition backup_prefix :: "64 word \<Rightarrow> string" where
  "backup_prefix n = ''config-'' @ show_nat (unat n) @ ''.yaml.backup-''"

definition temp_prefix :: "64 word \<Rightarrow> string" where
  "temp_prefix n = ''.config-'' @ show_nat (unat n) @ ''.yaml.tmp-''"

definition pid_temp_prefix :: "64 word \<Rightarrow> string" where
  "pid_temp_prefix n = ''core-'' @ show_nat (unat n) @ ''.pid.tmp-''"

definition artifact_runtime_path :: "string \<Rightarrow> 64 word \<Rightarrow> string" where
  "artifact_runtime_path dir n = path_join dir (runtime_name n)"

definition artifact_pid_path :: "string \<Rightarrow> 64 word \<Rightarrow> string" where
  "artifact_pid_path dir n = path_join dir (pid_name n)"

definition artifact_socket_path :: "string \<Rightarrow> 64 word \<Rightarrow> string" where
  "artifact_socket_path dir n = path_join dir (socket_name n)"

definition runtime_path :: "string \<Rightarrow> epoch \<Rightarrow> string" where
  "runtime_path dir e = artifact_runtime_path dir (epoch_get e)"

definition pid_path :: "string \<Rightarrow> epoch \<Rightarrow> string" where
  "pid_path dir e = artifact_pid_path dir (epoch_get e)"

definition socket_path :: "string \<Rightarrow> epoch \<Rightarrow> string" where
  "socket_path dir e = artifact_socket_path dir (epoch_get e)"

definition or_else :: "'a option \<Rightarrow> 'a option \<Rightarrow> 'a option" where
  "or_else a b = (case a of Some x \<Rightarrow> Some x | None \<Rightarrow> b)"

definition artifact_epoch :: "string \<Rightarrow> 64 word option" where
  "artifact_epoch name =
     Option.bind
       (or_else (Option.bind (strip_prefix ''core-'' name) (strip_suffix ''.pid''))
       (or_else (Option.bind (strip_prefix ''core-'' name) (strip_suffix ''.sock''))
       (or_else (Option.bind (strip_prefix ''config-'' name)
           (\<lambda>v. or_else (strip_suffix ''.yaml'' v) (map_option fst (split_once_str ''.yaml.backup-'' v))))
       (or_else (Option.bind (strip_prefix ''.config-'' name) (\<lambda>v. map_option fst (split_once_str ''.yaml.tmp-'' v)))
         (Option.bind (strip_prefix ''core-'' name) (\<lambda>v. map_option fst (split_once_str ''.pid.tmp-'' v)))))))
       (\<lambda>rest. map_option of_nat (parse_nat (2 ^ 64) rest))"

section \<open>Records\<close>

datatype runtime_commit_durability = Durable | Uncertain string

record runtime_config_commit =
  rcm_path :: string
  rcm_durability :: runtime_commit_durability

fun durability_warning :: "runtime_commit_durability \<Rightarrow> string option" where
  "durability_warning Durable = None"
| "durability_warning (Uncertain w) = Some w"

record runtime_config_backup =
  rb_path :: string
  rb_epoch :: epoch

definition installed_commit :: "string \<Rightarrow> (io_error, unit) result \<Rightarrow> runtime_config_commit" where
  "installed_commit path parent_sync =
     \<lparr>rcm_path = path,
      rcm_durability =
        (case parent_sync of
           Inr _ \<Rightarrow> Durable
         | Inl e \<Rightarrow> Uncertain
             (''runtime config was atomically installed, but parent-directory synchronization failed: ''
                @ io_text e))\<rparr>"

definition validate_directory_metadata :: "string \<Rightarrow> file_kind \<Rightarrow> (error, unit) result" where
  "validate_directory_metadata path kind =
     (if kind \<noteq> FileDirectory then Inl (UnsafeRuntimeArtifact path) else Inr ())"

section \<open>Operations\<close>

definition store_new :: "'w file_sys \<Rightarrow> string \<Rightarrow> (('w, 'x) sys_state_scheme, string) act" where
  "store_new fs dir =
     bnd (on_world (fs_symlink_metadata fs dir)) (\<lambda>r.
     bnd (case r of
            Inr kind \<Rightarrow> lift (validate_directory_metadata dir kind)
          | Inl e \<Rightarrow> if io_kind e = NotFound then io (fs_create_dir_all fs dir) else fail (Io e)) (\<lambda>_.
     bnd (io (fs_set_permissions fs dir 448)) (\<lambda>_.
     bnd (io (fs_canonical fs dir)) (\<lambda>canonical.
     case canonical of
       None \<Rightarrow> fail (InvalidManagerOptions ''runtime directory is not UTF-8'')
     | Some dir \<Rightarrow>
         bnd (io (fs_symlink_metadata fs dir)) (\<lambda>kind.
         bnd (lift (validate_directory_metadata dir kind)) (\<lambda>_. ret dir))))))"

definition acquire_ownership :: "'w file_sys \<Rightarrow> string \<Rightarrow> (('w, 'x) sys_state_scheme, unit) act" where
  "acquire_ownership fs dir = atomic (fs_acquire_dir_lock fs (path_join dir ''.manager.lock''))"

text \<open>The path of the next staged file; the counter wraps.\<close>

definition temp_name :: "'w file_sys \<Rightarrow> epoch \<Rightarrow> 64 word \<Rightarrow> string" where
  "temp_name fs e serial =
     temp_prefix (epoch_get e) @ show_nat (unat (fs_process_id fs)) @ ''-'' @ show_nat (unat serial)"

definition stage :: "'w file_sys \<Rightarrow> string \<Rightarrow> epoch \<Rightarrow> string \<Rightarrow> (('w, 'x) sys_state_scheme, string) act" where
  "stage fs dir e contents =
     bnd (gets ss_temp_counter) (\<lambda>serial.
     bnd (modify (\<lambda>s. s\<lparr>ss_temp_counter := serial + 1\<rparr>)) (\<lambda>_.
     let path = path_join dir (temp_name fs e serial) in
     bnd (atomic (fs_validate_absent fs path)) (\<lambda>_.
     bnd (io (fs_create_new fs path)) (\<lambda>_.
     bnd (io (fs_set_permissions fs path 384)) (\<lambda>_.
     bnd (cleanup (io (fs_remove_file fs path)) (io (fs_write_sync fs path contents))) (\<lambda>_.
     ret path))))))"

text \<open>The destructor of a staged file that was not consumed.\<close>

definition drop_staged :: "'w file_sys \<Rightarrow> string \<Rightarrow> (('w, 'x) sys_state_scheme, unit) act" where
  "drop_staged fs staged = ignore (io (fs_remove_file fs staged))"

definition validate_staged :: "'w file_sys \<Rightarrow> string \<Rightarrow> string \<Rightarrow> epoch \<Rightarrow> (('w, 'x) sys_state_scheme, unit) act" where
  "validate_staged fs dir staged e =
     (if path_parent staged \<noteq> Some dir \<or>
         \<not> (case file_name staged of None \<Rightarrow> False | Some n \<Rightarrow> prefix (temp_prefix (epoch_get e)) n)
      then fail (UnsafeRuntimeArtifact staged)
      else atomic (fs_validate_existing fs staged))"

definition commit_new :: "'w file_sys \<Rightarrow> string \<Rightarrow> string \<Rightarrow> epoch \<Rightarrow> (('w, 'x) sys_state_scheme, string) act" where
  "commit_new fs dir staged e =
     (let target = runtime_path dir e in
      bnd (cleanup (drop_staged fs staged)
        (bnd (validate_staged fs dir staged e) (\<lambda>_.
         bnd (atomic (fs_validate_absent fs target)) (\<lambda>_.
         atomic (fs_move_new fs staged target))))) (\<lambda>_.
      bnd (io (fs_sync_dir fs dir)) (\<lambda>_. ret target)))"

definition commit_replace ::
    "'w file_sys \<Rightarrow> string \<Rightarrow> string \<Rightarrow> epoch \<Rightarrow> (('w, 'x) sys_state_scheme, runtime_config_commit) act" where
  "commit_replace fs dir staged e =
     (let target = runtime_path dir e in
      bnd (cleanup (drop_staged fs staged)
        (bnd (validate_staged fs dir staged e) (\<lambda>_.
         bnd (atomic (fs_validate_existing fs target)) (\<lambda>_.
         atomic (fs_replace fs staged target))))) (\<lambda>_.
      bnd (on_world (fs_sync_dir fs dir)) (\<lambda>parent_sync. ret (installed_commit target parent_sync))))"

definition store_replace ::
    "'w file_sys \<Rightarrow> string \<Rightarrow> epoch \<Rightarrow> string \<Rightarrow> (('w, 'x) sys_state_scheme, runtime_config_commit) act" where
  "store_replace fs dir e contents =
     bnd (stage fs dir e contents) (\<lambda>staged. commit_replace fs dir staged e)"

definition backup_name :: "epoch \<Rightarrow> 64 word \<Rightarrow> string" where
  "backup_name e generation = backup_prefix (epoch_get e) @ show_nat (unat generation)"

definition backup ::
    "'w file_sys \<Rightarrow> string \<Rightarrow> epoch \<Rightarrow> 64 word \<Rightarrow> (('w, 'x) sys_state_scheme, runtime_config_backup) act" where
  "backup fs dir e generation =
     (let target = runtime_path dir e; backup_path = path_join dir (backup_name e generation) in
      bnd (atomic (fs_validate_existing fs target)) (\<lambda>_.
      bnd (io (fs_read fs target)) (\<lambda>contents.
      bnd (stage fs dir e contents) (\<lambda>staged.
      bnd (cleanup (drop_staged fs staged)
        (bnd (atomic (fs_validate_absent fs backup_path)) (\<lambda>_.
         atomic (fs_move_new fs staged backup_path)))) (\<lambda>_.
      bnd (io (fs_sync_dir fs dir)) (\<lambda>_.
      ret \<lparr>rb_path = backup_path, rb_epoch = e\<rparr>))))))"

definition restore ::
    "'w file_sys \<Rightarrow> string \<Rightarrow> runtime_config_backup \<Rightarrow> (('w, 'x) sys_state_scheme, runtime_config_commit) act" where
  "restore fs dir b =
     bnd (atomic (fs_validate_existing fs (rb_path b))) (\<lambda>_.
     bnd (io (fs_read fs (rb_path b))) (\<lambda>contents.
     store_replace fs dir (rb_epoch b) contents))"

definition remove_backup :: "'w file_sys \<Rightarrow> runtime_config_backup \<Rightarrow> (('w, 'x) sys_state_scheme, unit) act" where
  "remove_backup fs b = atomic (fs_remove_regular fs (rb_path b))"

definition remove_socket_artifact :: "'w file_sys \<Rightarrow> string \<Rightarrow> (('w, 'x) sys_state_scheme, unit) act" where
  "remove_socket_artifact fs path =
     bnd (on_world (fs_symlink_metadata fs path)) (\<lambda>r.
     case r of
       Inr kind \<Rightarrow> if kind \<noteq> FileSocket then fail (UnsafeRuntimeArtifact path) else io (fs_remove_file fs path)
     | Inl e \<Rightarrow> if io_kind e = NotFound then ret () else fail (Io e))"

definition epoch_leftover :: "64 word \<Rightarrow> string \<Rightarrow> bool" where
  "epoch_leftover n name =
     (prefix (backup_prefix n) name \<or> prefix (temp_prefix n) name \<or> prefix (pid_temp_prefix n) name)"

definition cleanup_artifacts :: "'w file_sys \<Rightarrow> string \<Rightarrow> 64 word \<Rightarrow> (('w, 'x) sys_state_scheme, unit) act" where
  "cleanup_artifacts fs dir n =
     bnd (for_each (\<lambda>path. atomic (fs_remove_regular fs path)) [artifact_runtime_path dir n, artifact_pid_path dir n]) (\<lambda>_.
     bnd (remove_socket_artifact fs (artifact_socket_path dir n)) (\<lambda>_.
     bnd (io (fs_read_dir fs dir)) (\<lambda>entries.
     bnd (for_each (\<lambda>entry.
            case entry of
              Inl e \<Rightarrow> fail (Io e)
            | Inr None \<Rightarrow> ret ()
            | Inr (Some name) \<Rightarrow>
                if epoch_leftover n name then atomic (fs_remove_regular fs (path_join dir name)) else ret ()) entries) (\<lambda>_.
     io (fs_sync_dir fs dir)))))"

definition store_cleanup_epoch :: "'w file_sys \<Rightarrow> string \<Rightarrow> epoch \<Rightarrow> (('w, 'x) sys_state_scheme, unit) act" where
  "store_cleanup_epoch fs dir e = cleanup_artifacts fs dir (epoch_get e)"

fun collect_epochs :: "64 word list \<Rightarrow> (io_error, string option) result list \<Rightarrow> (error, 64 word list) result" where
  "collect_epochs epochs [] = Inr epochs"
| "collect_epochs epochs (Inl e # entries) = Inl (Io e)"
| "collect_epochs epochs (Inr None # entries) = collect_epochs epochs entries"
| "collect_epochs epochs (Inr (Some name) # entries) =
     collect_epochs (case artifact_epoch name of None \<Rightarrow> epochs | Some n \<Rightarrow> epochs @ [n]) entries"

definition artifact_epochs :: "'w file_sys \<Rightarrow> string \<Rightarrow> (('w, 'x) sys_state_scheme, 64 word list) act" where
  "artifact_epochs fs dir =
     bnd (io (fs_read_dir fs dir)) (\<lambda>entries.
     bnd (lift (collect_epochs [] entries)) (\<lambda>epochs. ret (remdups_adj (sort epochs))))"

end
