(* ===== verification/Store_Contract.thy ===== *)
theory Store_Contract
  imports Runtime_Store
begin

text \<open>
  What the runtime store promises, given the file-system contract: artifact names determine their
  epoch, one epoch's files are never touched on behalf of another, a successful commit is exactly one
  update of the map from epochs to contents, a failed one leaves the old or the new contents and never
  a mixture, and a backup restores the bytes it was taken from.
\<close>

section \<open>Names\<close>

lemma show_nat_digits: "c \<in> set (show_nat n) \<Longrightarrow> 48 \<le> (of_char c :: nat) \<and> (of_char c :: nat) \<le> 57"
  unfolding show_nat_def by (elim show_radix_chars [rotated]) (simp_all add: of_char_digit_char)

lemma show_nat_cut: "show_nat a @ CHR ''.'' # x = show_nat b @ CHR ''.'' # y \<longleftrightarrow> a = b \<and> x = y"
proof
  assume eq: "show_nat a @ CHR ''.'' # x = show_nat b @ CHR ''.'' # y"
  have "CHR ''.'' \<notin> set (show_nat n)" for n by (simp add: show_nat_no_low)
  then have "Some (show_nat a, x) = Some (show_nat b, y)"
    using arg_cong [OF eq, of "split_once (CHR ''.'')"] by simp
  then show "a = b \<and> x = y" by simp
qed simp

lemma show_nat_starts: "show_nat n = c # cs \<Longrightarrow> 48 \<le> (of_char c :: nat) \<and> (of_char c :: nat) \<le> 57"
  by (rule show_nat_digits [of _ n]) simp

lemma split_once_str_cut:
  "CHR ''.'' \<notin> set a \<Longrightarrow> pat = CHR ''.'' # p \<Longrightarrow> split_once_str pat (a @ pat @ b) = Some (a, b)"
proof (induction a)
  case Nil
  then show ?case by (simp del: strip_prefix.simps add: strip_prefix_append [of "CHR ''.'' # p" b, simplified])
next
  case (Cons c cs)
  then show ?case by auto
qed

lemma strip_suffix_digit_end:
  "\<not> (48 \<le> (of_char (last p) :: nat) \<and> (of_char (last p) :: nat) \<le> 57) \<Longrightarrow> p \<noteq> [] \<Longrightarrow>
     strip_suffix p (a @ show_nat n) = None"
proof (rule ccontr)
  assume p: "\<not> (48 \<le> (of_char (last p) :: nat) \<and> (of_char (last p) :: nat) \<le> 57)" "p \<noteq> []"
    and "strip_suffix p (a @ show_nat n) \<noteq> None"
  then obtain r where "a @ show_nat n = r @ p" by (auto simp: strip_suffix_Some)
  then have "last p = last (show_nat n)" using p(2) by (metis last_appendR show_nat_nonempty)
  then show False using p(1) show_nat_digits [OF last_in_set [OF show_nat_nonempty]] by metis
qed

lemma parse_u64: "map_option of_nat (parse_nat (2 ^ 64) (show_nat (unat n))) = Some (n :: 64 word)"
  using unat_lt [of n] by simp

lemma no_dot: "CHR ''.'' \<notin> set (show_nat n)"
  by (simp add: show_nat_no_low)

lemmas cut_names = split_once_str_cut [OF no_dot, of "''.yaml.backup-''", simplified]
  split_once_str_cut [OF no_dot, of "''.yaml.tmp-''", simplified]
  split_once_str_cut [OF no_dot, of "''.pid.tmp-''", simplified]

lemma artifact_epoch_stable:
  "artifact_epoch (runtime_name n) = Some n" "artifact_epoch (pid_name n) = Some n"
  "artifact_epoch (socket_name n) = Some n"
  using parse_u64 [of n]
  by (auto simp: artifact_epoch_def runtime_name_def pid_name_def socket_name_def or_else_def strip_suffix_def
      split: option.splits)

lemma artifact_epoch_backup: "artifact_epoch (backup_name e g) = Some (epoch_get e)"
proof -
  let ?n = "show_nat (unat (epoch_get e))"
  have "strip_suffix ''.yaml'' (?n @ ''.yaml.backup-'' @ show_nat (unat g)) = None"
    using strip_suffix_digit_end [of "''.yaml''" "?n @ ''.yaml.backup-''" "unat g"] by simp
  then show ?thesis
    using parse_u64 [of "epoch_get e"] cut_names
    by (simp add: artifact_epoch_def backup_name_def backup_prefix_def or_else_def)
qed

lemma artifact_epoch_temp: "artifact_epoch (temp_name fs e k) = Some (epoch_get e)"
  using parse_u64 [of "epoch_get e"] cut_names
  by (simp add: artifact_epoch_def temp_name_def temp_prefix_def or_else_def)

text \<open>The names that belong to an epoch number.\<close>

definition owned_name :: "64 word \<Rightarrow> string \<Rightarrow> bool" where
  "owned_name n name = (name \<in> {runtime_name n, pid_name n, socket_name n} \<or> epoch_leftover n name)"

lemma owned_name_unique: "owned_name n name \<Longrightarrow> owned_name m name \<Longrightarrow> n = m"
  by (auto simp: owned_name_def epoch_leftover_def prefix_def runtime_name_def pid_name_def socket_name_def
      backup_prefix_def temp_prefix_def pid_temp_prefix_def show_nat_cut unat_eq_iff)

lemma owned_names [simp]:
  "owned_name n (runtime_name n)" "owned_name n (pid_name n)" "owned_name n (socket_name n)"
  "owned_name (epoch_get e) (backup_name e g)" "owned_name (epoch_get e) (temp_name fs e k)"
  by (auto simp: owned_name_def epoch_leftover_def backup_name_def temp_name_def)

lemma owned_relative: "owned_name n name \<Longrightarrow> \<not> is_absolute name"
  by (auto simp: owned_name_def epoch_leftover_def prefix_def runtime_name_def pid_name_def socket_name_def
      backup_prefix_def temp_prefix_def pid_temp_prefix_def is_absolute_def)

lemma owned_path_eq: "owned_name n a \<Longrightarrow> owned_name m b \<Longrightarrow> path_join dir a = path_join dir b \<longleftrightarrow> a = b"
  by (meson owned_relative path_join_inj)

lemma names_distinct [simp]:
  "temp_name fs e k \<noteq> runtime_name n" "backup_name e g \<noteq> runtime_name n" "temp_name fs e k \<noteq> backup_name e' g"
  "runtime_name n \<noteq> temp_name fs e k" "runtime_name n \<noteq> backup_name e g" "backup_name e' g \<noteq> temp_name fs e k"
  by (auto simp: temp_name_def temp_prefix_def runtime_name_def backup_name_def backup_prefix_def show_nat_cut)



section \<open>Steps on the world\<close>

lemma wp_io [wp_rules]:
  "wp (io f) Q s =
     (case f (ss_world s) of (r, w) \<Rightarrow> (case r of Inl e \<Rightarrow> Q (Err (Io e)) | Inr x \<Rightarrow> Q (Ok x)) (s\<lparr>ss_world := w\<rparr>))"
  by (auto simp: io_def wp_rules split: prod.splits sum.splits)

lemma wp_atomic [wp_rules]:
  "wp (atomic f) Q s =
     (case f (ss_world s) of (r, w) \<Rightarrow>
        (case r of Inl e \<Rightarrow> Q (Err (from_atomic_fs_error e)) | Inr x \<Rightarrow> Q (Ok x)) (s\<lparr>ss_world := w\<rparr>))"
  by (auto simp: atomic_def wp_rules split: prod.splits sum.splits)

text \<open>Two file contents that agree outside a set of paths.\<close>

definition agree_off :: "string set \<Rightarrow> (string \<Rightarrow> string option) \<Rightarrow> (string \<Rightarrow> string option) \<Rightarrow> bool" where
  "agree_off A f g = (\<forall>q. q \<notin> A \<longrightarrow> f q = g q)"

lemma agree_off_refl [simp]: "agree_off A f f"
  by (simp add: agree_off_def)

lemma agree_off_trans: "agree_off A f g \<Longrightarrow> agree_off A g h \<Longrightarrow> agree_off A f h"
  by (simp add: agree_off_def)

lemma agree_off_mono: "agree_off A f g \<Longrightarrow> A \<subseteq> B \<Longrightarrow> agree_off B f g"
  by (auto simp: agree_off_def)

lemma agree_offD: "agree_off A f g \<Longrightarrow> q \<notin> A \<Longrightarrow> f q = g q"
  by (simp add: agree_off_def)

text \<open>\<open>post ok bad\<close>: the operation does not panic, and establishes \<open>ok\<close> or \<open>bad\<close> by its outcome.\<close>

definition post :: "('a \<Rightarrow> 's \<Rightarrow> bool) \<Rightarrow> ('s \<Rightarrow> bool) \<Rightarrow> 'a out \<Rightarrow> 's \<Rightarrow> bool" where
  "post ok bad r s = (case r of Ok x \<Rightarrow> ok x s | Err _ \<Rightarrow> bad s | Panic _ \<Rightarrow> False)"

lemma post_simps [simp]:
  "post ok bad (Ok x) s = ok x s" "post ok bad (Err e) s = bad s" "\<not> post ok bad (Panic p) s"
  by (simp_all add: post_def)

lemma wp_post_bnd:
  assumes "wp m (post ok bad) s" and "\<And>x s'. ok x s' \<Longrightarrow> wp (f x) (post ok' bad') s'" and "\<And>s'. bad s' \<Longrightarrow> bad' s'"
  shows "wp (bnd m f) (post ok' bad') s"
  by (rule wp_bndI [OF assms(1)]) (auto intro: assms)

lemma wp_post_cleanup:
  assumes "wp m (post ok bad) s" and "\<And>s'. bad s' \<Longrightarrow> wp c (post (\<lambda>_. bad') bad') s'"
  shows "wp (cleanup c m) (post ok bad') s"
  unfolding wp_cleanup
  apply (rule wp_mono [OF assms(1)])
  subgoal for r s' by (cases r) (auto simp: post_def split: out.splits intro: wp_mono [OF assms(2)])
  done

lemma wp_post_mono:
  assumes "wp m (post ok bad) s" and "\<And>x s'. ok x s' \<Longrightarrow> ok' x s'" and "\<And>s'. bad s' \<Longrightarrow> bad' s'"
  shows "wp m (post ok' bad') s"
  by (rule wp_mono [OF assms(1)]) (use assms(2,3) in \<open>auto simp: post_def split: out.splits\<close>)

section \<open>The file-system contract\<close>

text \<open>A name of a directory entry that every platform reports as text.\<close>

definition plain_name :: "string \<Rightarrow> bool" where
  "plain_name name = (name \<noteq> [] \<and> list_all (\<lambda>c. (of_char c :: nat) < 128 \<and> c \<noteq> CHR ''/'') name)"

text \<open>The paths staged files of an epoch may use, and the store as a map from epochs to contents.\<close>

definition temp_paths :: "'w file_sys \<Rightarrow> string \<Rightarrow> epoch \<Rightarrow> string set" where
  "temp_paths fs dir e = range (\<lambda>k. path_join dir (temp_name fs e k))"

definition stored :: "('w \<Rightarrow> string \<Rightarrow> string option) \<Rightarrow> string \<Rightarrow> ('w, 'x) sys_state_scheme \<Rightarrow> epoch \<Rightarrow> string option" where
  "stored content dir s e = content (ss_world s) (runtime_path dir e)"

lemma runtime_path_inj [simp]: "runtime_path dir a = runtime_path dir b \<longleftrightarrow> a = b"
  by (simp add: runtime_path_def artifact_runtime_path_def owned_path_eq [OF owned_names(1) owned_names(1)])
    (auto simp: runtime_name_def show_nat_cut unat_eq_iff epoch.expand)

lemma temp_neq_runtime [simp]: "path_join dir (temp_name fs e k) \<noteq> runtime_path dir e'"
  by (simp add: runtime_path_def artifact_runtime_path_def owned_path_eq [OF owned_names(5) owned_names(1)])

lemma backup_neq_runtime [simp]: "path_join dir (backup_name e g) \<noteq> runtime_path dir e'"
  by (simp add: runtime_path_def artifact_runtime_path_def owned_path_eq [OF owned_names(4) owned_names(1)])

lemma temp_neq_backup [simp]: "path_join dir (temp_name fs e k) \<noteq> path_join dir (backup_name e' g)"
  by (simp add: owned_path_eq [OF owned_names(5) owned_names(4)])

lemmas paths_distinct [simp] = temp_neq_runtime [symmetric] backup_neq_runtime [symmetric] temp_neq_backup [symmetric]

lemma runtime_not_temp [simp]: "runtime_path dir e' \<notin> temp_paths fs dir e"
  by (auto simp: temp_paths_def)

lemma backup_not_temp [simp]: "path_join dir (backup_name e' g) \<notin> temp_paths fs dir e"
  by (auto simp: temp_paths_def)

lemma temp_in_temp_paths [simp]: "path_join dir (temp_name fs e k) \<in> temp_paths fs dir e"
  by (simp add: temp_paths_def)

text \<open>Removal: what is removed is gone or unchanged, and everything else is unchanged.\<close>

definition shrinks :: "string set \<Rightarrow> (string \<Rightarrow> string option) \<Rightarrow> (string \<Rightarrow> string option) \<Rightarrow> bool" where
  "shrinks A f g = (\<forall>q. g q = f q \<or> q \<in> A \<and> g q = None)"

definition owned_paths :: "string \<Rightarrow> 64 word \<Rightarrow> string set" where
  "owned_paths dir n = path_join dir ` {name. owned_name n name}"

lemma shrinks_refl [simp]: "shrinks A f f"
  by (simp add: shrinks_def)

lemma shrinks_trans: "shrinks A f g \<Longrightarrow> shrinks A g h \<Longrightarrow> shrinks A f h"
  unfolding shrinks_def by metis

lemma shrinks_None: "shrinks A f g \<Longrightarrow> f q = None \<Longrightarrow> g q = None"
  unfolding shrinks_def by metis

text \<open>What committing the bytes \<open>c\<close> for an epoch establishes: on success they are installed; otherwise the
  old contents or they are; and only the epoch's file and its staged files change.\<close>

definition committed ::
    "'w file_sys \<Rightarrow> ('w \<Rightarrow> string \<Rightarrow> string option) \<Rightarrow> string \<Rightarrow> epoch \<Rightarrow> string \<Rightarrow> ('a \<Rightarrow> bool) \<Rightarrow> (string option \<Rightarrow> bool)
       \<Rightarrow> ('w, 'x) sys_state_scheme \<Rightarrow> 'a out \<Rightarrow> ('w, 'x) sys_state_scheme \<Rightarrow> bool" where
  "committed fs content dir e c ok P s =
     (post (\<lambda>x s'. ok x \<and> P (content (ss_world s) (runtime_path dir e)) \<and>
              content (ss_world s') (runtime_path dir e) = Some c \<and>
              agree_off (insert (runtime_path dir e) (temp_paths fs dir e)) (content (ss_world s')) (content (ss_world s)))
           (\<lambda>s'. content (ss_world s') (runtime_path dir e) \<in> {content (ss_world s) (runtime_path dir e), Some c} \<and>
              agree_off (insert (runtime_path dir e) (temp_paths fs dir e)) (content (ss_world s')) (content (ss_world s))))"

text \<open>\<open>content w p\<close> is what the regular file at \<open>p\<close> holds.  Renames install the whole file or nothing;
  when one reports a failure either may have happened.\<close>

locale runtime_fs =
  fixes fs :: "'w file_sys" and content :: "'w \<Rightarrow> string \<Rightarrow> string option"
  assumes metadata_law: "fs_symlink_metadata fs p w = (m, w') \<Longrightarrow>
      content w' = content w \<and> ((\<exists>k. m = Inr k \<and> k \<noteq> FileRegular) \<or> (\<exists>e. m = Inl e \<and> io_kind e = NotFound) \<longrightarrow> content w p = None)"
    and permissions_law: "fs_set_permissions fs p mode w = (r, w') \<Longrightarrow> content w' = content w"
    and absent_law: "fs_validate_absent fs p w = (r', w') \<Longrightarrow> content w' = content w \<and> (is_ok r' \<longrightarrow> content w p = None)"
    and existing_law: "fs_validate_existing fs p w = (r', w') \<Longrightarrow> content w' = content w \<and> (is_ok r' \<longrightarrow> content w p \<noteq> None)"
    and create_law: "fs_create_new fs p w = (r, w') \<Longrightarrow>
      (if is_ok r then content w p = None \<and> content w' = (content w)(p \<mapsto> []) else content w' = content w)"
    and write_law: "fs_write_sync fs p c w = (r, w') \<Longrightarrow>
      (\<forall>q. q \<noteq> p \<longrightarrow> content w' q = content w q) \<and> (is_ok r \<longrightarrow> content w' p = Some c)"
    and read_law: "fs_read fs p w = (t, w') \<Longrightarrow> content w' = content w \<and> (\<forall>c. t = Inr c \<longrightarrow> content w p = Some c)"
    and remove_law: "fs_remove_file fs p w = (r, w') \<Longrightarrow>
      (\<forall>q. q \<noteq> p \<longrightarrow> content w' q = content w q) \<and> content w' p \<in> {None, content w p}"
    and remove_regular_law: "fs_remove_regular fs p w = (r', w') \<Longrightarrow>
      (\<forall>q. q \<noteq> p \<longrightarrow> content w' q = content w q) \<and> content w' p \<in> {None, content w p} \<and> (is_ok r' \<longrightarrow> content w' p = None)"
    and move_law: "p \<noteq> q \<Longrightarrow> fs_move_new fs p q w = (r', w') \<Longrightarrow>
      (\<forall>x. x \<noteq> p \<longrightarrow> x \<noteq> q \<longrightarrow> content w' x = content w x) \<and> content w' q \<in> {content w q, content w p} \<and>
      (is_ok r' \<longrightarrow> content w q = None \<and> content w' q = content w p \<and> content w' p = None)"
    and replace_law: "p \<noteq> q \<Longrightarrow> fs_replace fs p q w = (r', w') \<Longrightarrow>
      (\<forall>x. x \<noteq> p \<longrightarrow> x \<noteq> q \<longrightarrow> content w' x = content w x) \<and> content w' q \<in> {content w q, content w p} \<and>
      (is_ok r' \<longrightarrow> content w' q = content w p \<and> content w' p = None)"
    and sync_law: "fs_sync_dir fs p w = (r, w') \<Longrightarrow> content w' = content w"
    and listing_law: "fs_read_dir fs p w = (d, w') \<Longrightarrow> content w' = content w \<and>
      (\<forall>entries name. d = Inr entries \<longrightarrow> plain_name name \<longrightarrow> content w (path_join p name) \<noteq> None \<longrightarrow>
        Inr (Some name) \<in> set entries)"
begin

lemma absent_spec:
  "wp (atomic (fs_validate_absent fs p))
     (post (\<lambda>_ s'. content (ss_world s') = content (ss_world s) \<and> content (ss_world s) p = None)
           (\<lambda>s'. content (ss_world s') = content (ss_world s))) s"
  by (auto simp: wp_rules is_ok_iff split: prod.splits sum.splits dest: absent_law)

lemma existing_spec:
  "wp (atomic (fs_validate_existing fs p))
     (post (\<lambda>_ s'. content (ss_world s') = content (ss_world s) \<and> content (ss_world s) p \<noteq> None)
           (\<lambda>s'. content (ss_world s') = content (ss_world s))) s"
  by (auto simp: wp_rules is_ok_iff split: prod.splits sum.splits dest: existing_law)

lemma create_spec:
  "wp (io (fs_create_new fs p))
     (post (\<lambda>_ s'. content (ss_world s) p = None \<and> content (ss_world s') = (content (ss_world s))(p \<mapsto> []))
           (\<lambda>s'. content (ss_world s') = content (ss_world s))) s"
  by (auto simp: wp_rules split: prod.splits sum.splits dest: create_law)

lemma permissions_spec:
  "wp (io (fs_set_permissions fs p mode))
     (post (\<lambda>_ s'. content (ss_world s') = content (ss_world s)) (\<lambda>s'. content (ss_world s') = content (ss_world s))) s"
  by (auto simp: wp_rules split: prod.splits sum.splits dest: permissions_law)

lemma sync_spec:
  "wp (io (fs_sync_dir fs p))
     (post (\<lambda>_ s'. content (ss_world s') = content (ss_world s)) (\<lambda>s'. content (ss_world s') = content (ss_world s))) s"
  by (auto simp: wp_rules split: prod.splits sum.splits dest: sync_law)

lemma read_spec:
  "wp (io (fs_read fs p))
     (post (\<lambda>c s'. content (ss_world s') = content (ss_world s) \<and> content (ss_world s) p = Some c)
           (\<lambda>s'. content (ss_world s') = content (ss_world s))) s"
  by (auto simp: wp_rules split: prod.splits sum.splits dest: read_law)

lemma drop_staged_spec:
  "wp (drop_staged fs p) (post (\<lambda>_ s'. agree_off {p} (content (ss_world s')) (content (ss_world s))) (\<lambda>_. False)) s"
  by (auto simp: drop_staged_def wp_rules agree_off_def split: prod.splits sum.splits dest: remove_law)

lemma write_spec:
  "wp (cleanup (io (fs_remove_file fs p)) (io (fs_write_sync fs p c)))
     (post (\<lambda>_ s'. content (ss_world s') = (content (ss_world s))(p \<mapsto> c))
           (\<lambda>s'. agree_off {p} (content (ss_world s')) (content (ss_world s)))) s"
  by (auto simp: wp_rules agree_off_def fun_eq_iff split: prod.splits sum.splits dest!: write_law remove_law)

lemma stage_spec:
  "wp (stage fs dir e c)
     (post (\<lambda>p s'. p = path_join dir (temp_name fs e (ss_temp_counter s)) \<and> content (ss_world s) p = None \<and>
                   content (ss_world s') = (content (ss_world s))(p \<mapsto> c))
           (\<lambda>s'. agree_off {path_join dir (temp_name fs e (ss_temp_counter s))} (content (ss_world s')) (content (ss_world s)))) s"
  unfolding stage_def Let_def wp_bnd [of "gets ss_temp_counter"] wp_gets out.simps wp_bnd [of "modify f" for f] wp_modify
  apply (rule wp_post_bnd [OF absent_spec], rule wp_post_bnd [OF create_spec], rule wp_post_bnd [OF permissions_spec],
      rule wp_post_bnd [OF write_spec])
  apply (auto simp: wp_rules agree_off_def)
  done

text \<open>Installing a staged file under a name: both renames, with the destructor on failure.\<close>

lemma install_spec:
  assumes "p \<noteq> q" and "f = fs_move_new fs \<or> f = fs_replace fs"
  shows "wp (atomic (f p q))
     (post (\<lambda>_ s'. content (ss_world s') = (content (ss_world s))(p := None, q := content (ss_world s) p) \<and>
             (f = fs_move_new fs \<longrightarrow> content (ss_world s) q = None))
           (\<lambda>s'. agree_off {p, q} (content (ss_world s')) (content (ss_world s)) \<and>
             content (ss_world s') q \<in> {content (ss_world s) q, content (ss_world s) p})) s"
  using assms
  by (auto simp: wp_rules agree_off_def fun_eq_iff is_ok_iff split: prod.splits sum.splits
      dest: move_law replace_law)

lemma validate_staged_spec:
  "wp (validate_staged fs dir p e)
     (post (\<lambda>_ s'. content (ss_world s') = content (ss_world s)) (\<lambda>s'. content (ss_world s') = content (ss_world s))) s"
  unfolding validate_staged_def by (auto simp: wp_fail intro: wp_post_mono [OF existing_spec])

text \<open>Consuming a staged file: the checks before the rename, the rename, and the destructor on failure.\<close>

lemma install_staged_spec:
  assumes "p \<noteq> q" and f: "f = fs_move_new fs \<or> f = fs_replace fs"
    and checks: "wp checks (post (\<lambda>_ s'. content (ss_world s') = content (ss_world s) \<and> P) (\<lambda>s'. content (ss_world s') = content (ss_world s))) s"
    and c: "content (ss_world s) p = Some c"
  shows "wp (cleanup (drop_staged fs p) (bnd checks (\<lambda>_. atomic (f p q))))
     (post (\<lambda>_ s'. content (ss_world s') = (content (ss_world s))(p := None, q \<mapsto> c) \<and> P)
           (\<lambda>s'. agree_off {p, q} (content (ss_world s')) (content (ss_world s)) \<and>
             content (ss_world s') q \<in> {content (ss_world s) q, Some c})) s"
proof (rule wp_post_cleanup [OF wp_post_bnd [OF checks]])
  fix s' :: "('w, 'a) sys_state_scheme"
  let ?bad = "\<lambda>s'. agree_off {p, q} (content (ss_world s')) (content (ss_world s)) \<and>
             content (ss_world s') q \<in> {content (ss_world s) q, Some c}"
  show "wp (atomic (f p q)) (post (\<lambda>_ s'. content (ss_world s') = (content (ss_world s))(p := None, q \<mapsto> c) \<and> P) ?bad) s'"
    if "content (ss_world s') = content (ss_world s) \<and> P"
    by (rule wp_post_mono [OF install_spec [OF assms(1) f]]) (use that c in auto)
  show "?bad s'" if "content (ss_world s') = content (ss_world s)" using that by simp
  show "wp (drop_staged fs p) (post (\<lambda>_. ?bad) ?bad) s'" if "?bad s'"
    by (rule wp_post_mono [OF drop_staged_spec]) (use that assms(1) in \<open>auto simp: agree_off_def\<close>)
qed

lemma commit_replace_spec:
  assumes "p \<noteq> runtime_path dir e" and "content (ss_world s) p = Some c"
  shows "wp (commit_replace fs dir p e)
     (post (\<lambda>cm s'. content (ss_world s') = (content (ss_world s))(p := None, runtime_path dir e \<mapsto> c) \<and>
             rcm_path cm = runtime_path dir e \<and> content (ss_world s) (runtime_path dir e) \<noteq> None)
           (\<lambda>s'. agree_off {p, runtime_path dir e} (content (ss_world s')) (content (ss_world s)) \<and>
             content (ss_world s') (runtime_path dir e) \<in> {content (ss_world s) (runtime_path dir e), Some c})) s"
proof -
  let ?q = "runtime_path dir e"
  have checks: "wp (bnd (validate_staged fs dir p e) (\<lambda>_. atomic (fs_validate_existing fs ?q)))
      (post (\<lambda>_ s'. content (ss_world s') = content (ss_world s) \<and> content (ss_world s) ?q \<noteq> None)
        (\<lambda>s'. content (ss_world s') = content (ss_world s))) s"
    by (rule wp_post_bnd [OF validate_staged_spec], rule wp_post_mono [OF existing_spec]) auto
  show ?thesis
    unfolding commit_replace_def Let_def bnd_assoc [symmetric, where m = "validate_staged fs dir p e"]
    by (rule wp_post_bnd [OF install_staged_spec [OF assms(1) _ checks assms(2)]])
      (auto simp: wp_rules installed_commit_def split: prod.splits dest!: sync_law)
qed

lemma commit_new_spec:
  assumes "p \<noteq> runtime_path dir e" and "content (ss_world s) p = Some c"
  shows "wp (commit_new fs dir p e)
     (post (\<lambda>path s'. content (ss_world s') = (content (ss_world s))(p := None, runtime_path dir e \<mapsto> c) \<and>
             path = runtime_path dir e \<and> content (ss_world s) (runtime_path dir e) = None)
           (\<lambda>s'. agree_off {p, runtime_path dir e} (content (ss_world s')) (content (ss_world s)) \<and>
             content (ss_world s') (runtime_path dir e) \<in> {content (ss_world s) (runtime_path dir e), Some c})) s"
proof -
  let ?q = "runtime_path dir e"
  have checks: "wp (bnd (validate_staged fs dir p e) (\<lambda>_. atomic (fs_validate_absent fs ?q)))
      (post (\<lambda>_ s'. content (ss_world s') = content (ss_world s) \<and> content (ss_world s) ?q = None)
        (\<lambda>s'. content (ss_world s') = content (ss_world s))) s"
    by (rule wp_post_bnd [OF validate_staged_spec], rule wp_post_mono [OF absent_spec]) auto
  show ?thesis
    unfolding commit_new_def Let_def bnd_assoc [symmetric, where m = "validate_staged fs dir p e"]
    by (rule wp_post_bnd [OF install_staged_spec [OF assms(1) _ checks assms(2)]])
      (auto simp: wp_rules agree_off_def split: prod.splits sum.splits dest!: sync_law)
qed

text \<open>Staging and committing: one update of the store, or at worst the old or the new contents.\<close>

lemma staged_commit_spec:
  fixes commit :: "string \<Rightarrow> (('w, 'x) sys_state_scheme, 'b) act"
  assumes commit: "\<And>p t. p \<noteq> runtime_path dir e \<Longrightarrow> content (ss_world t) p = Some c \<Longrightarrow>
      wp (commit p)
        (post (\<lambda>x s'. content (ss_world s') = (content (ss_world t))(p := None, runtime_path dir e \<mapsto> c) \<and>
                 ok x \<and> P (content (ss_world t) (runtime_path dir e)))
              (\<lambda>s'. agree_off {p, runtime_path dir e} (content (ss_world s')) (content (ss_world t)) \<and>
                 content (ss_world s') (runtime_path dir e) \<in> {content (ss_world t) (runtime_path dir e), Some c})) t"
  shows "wp (bnd (stage fs dir e c) commit) (committed fs content dir e c ok P s) s"
  unfolding committed_def
proof (rule wp_post_bnd [OF stage_spec])
  let ?p = "path_join dir (temp_name fs e (ss_temp_counter s))"
  fix p and s' :: "('w, 'x) sys_state_scheme"
  assume st: "p = ?p \<and> content (ss_world s) p = None \<and> content (ss_world s') = (content (ss_world s))(p \<mapsto> c)"
  then have "p \<noteq> runtime_path dir e" and "content (ss_world s') p = Some c" by auto
  from commit [OF this] show "wp (commit p)
     (post (\<lambda>x s'. ok x \<and> P (content (ss_world s) (runtime_path dir e)) \<and>
              content (ss_world s') (runtime_path dir e) = Some c \<and>
              agree_off (insert (runtime_path dir e) (temp_paths fs dir e)) (content (ss_world s')) (content (ss_world s)))
           (\<lambda>s'. content (ss_world s') (runtime_path dir e) \<in> {content (ss_world s) (runtime_path dir e), Some c} \<and>
              agree_off (insert (runtime_path dir e) (temp_paths fs dir e)) (content (ss_world s')) (content (ss_world s)))) s'"
    by (rule wp_post_mono) (use st in \<open>auto simp: agree_off_def temp_paths_def\<close>)
next
  fix s' :: "('w, 'x) sys_state_scheme"
  assume "agree_off {path_join dir (temp_name fs e (ss_temp_counter s))} (content (ss_world s')) (content (ss_world s))"
  then show "content (ss_world s') (runtime_path dir e) \<in> {content (ss_world s) (runtime_path dir e), Some c} \<and>
      agree_off (insert (runtime_path dir e) (temp_paths fs dir e)) (content (ss_world s')) (content (ss_world s))"
    by (auto simp: agree_off_def temp_paths_def)
qed

lemma store_replace_spec:
  "wp (store_replace fs dir e c)
     (committed fs content dir e c (\<lambda>cm. rcm_path cm = runtime_path dir e) (\<lambda>old. old \<noteq> None) s) s"
  unfolding store_replace_def by (rule staged_commit_spec, rule commit_replace_spec)

lemma store_create_spec:
  "wp (bnd (stage fs dir e c) (\<lambda>staged. commit_new fs dir staged e))
     (committed fs content dir e c (\<lambda>path. path = runtime_path dir e) (\<lambda>old. old = None) s) s"
  by (rule staged_commit_spec, rule commit_new_spec)

lemma backup_spec:
  "wp (backup fs dir e g)
     (post (\<lambda>b s'. b = \<lparr>rb_path = path_join dir (backup_name e g), rb_epoch = e\<rparr> \<and>
              content (ss_world s) (runtime_path dir e) \<noteq> None \<and>
              content (ss_world s') (rb_path b) = content (ss_world s) (runtime_path dir e) \<and>
              agree_off (insert (path_join dir (backup_name e g)) (temp_paths fs dir e)) (content (ss_world s')) (content (ss_world s)))
           (\<lambda>s'. agree_off (insert (path_join dir (backup_name e g)) (temp_paths fs dir e)) (content (ss_world s')) (content (ss_world s)))) s"
  unfolding backup_def Let_def
proof (rule wp_post_bnd [OF existing_spec], rule wp_post_bnd [OF read_spec], rule wp_post_bnd [OF stage_spec], goal_cases)
  case (1 u s1 c s2 p s3)
  let ?b = "path_join dir (backup_name e g)"
  have p: "p \<in> temp_paths fs dir e" "p \<noteq> ?b" and c: "content (ss_world s3) p = Some c" using 1(3) by auto
  have checks: "wp (atomic (fs_validate_absent fs ?b))
      (post (\<lambda>_ s'. content (ss_world s') = content (ss_world s3) \<and> True) (\<lambda>s'. content (ss_world s') = content (ss_world s3))) s3"
    by (rule wp_post_mono [OF absent_spec]) auto
  show ?case
    by (rule wp_post_bnd [OF install_staged_spec [OF p(2) _ checks c]], simp,
        rule wp_post_bnd [OF sync_spec])
      (use 1 in \<open>auto simp: wp_rules agree_off_def temp_paths_def\<close>)
qed (auto simp: agree_off_def temp_paths_def)

lemma restore_spec:
  assumes "content (ss_world s) (rb_path b) = Some c"
  shows "wp (restore fs dir b)
     (post (\<lambda>cm s'. content (ss_world s') (runtime_path dir (rb_epoch b)) = Some c \<and>
              agree_off (insert (runtime_path dir (rb_epoch b)) (temp_paths fs dir (rb_epoch b))) (content (ss_world s')) (content (ss_world s)))
           (\<lambda>s'. content (ss_world s') (runtime_path dir (rb_epoch b)) \<in> {content (ss_world s) (runtime_path dir (rb_epoch b)), Some c} \<and>
              agree_off (insert (runtime_path dir (rb_epoch b)) (temp_paths fs dir (rb_epoch b))) (content (ss_world s')) (content (ss_world s)))) s"
  unfolding restore_def
  by (rule wp_post_bnd [OF existing_spec], rule wp_post_bnd [OF read_spec], rule wp_post_mono [OF store_replace_spec [unfolded committed_def]])
    (use assms in auto)

lemma remove_regular_spec:
  assumes "p \<in> A"
  shows "wp (atomic (fs_remove_regular fs p))
     (post (\<lambda>_ s'. shrinks A (content (ss_world s)) (content (ss_world s')) \<and> content (ss_world s') p = None)
           (\<lambda>s'. shrinks A (content (ss_world s)) (content (ss_world s')))) s"
  using assms
  by (auto simp: wp_rules shrinks_def is_ok_iff split: prod.splits sum.splits dest!: remove_regular_law) metis+

lemma remove_socket_spec:
  assumes "p \<in> A"
  shows "wp (remove_socket_artifact fs p)
     (post (\<lambda>_ s'. shrinks A (content (ss_world s)) (content (ss_world s')) \<and> content (ss_world s') p = None)
           (\<lambda>s'. shrinks A (content (ss_world s)) (content (ss_world s')))) s"
  unfolding remove_socket_artifact_def using assms
  by (auto simp: wp_rules shrinks_def split: prod.splits sum.splits dest!: metadata_law remove_law) metis+

lemma remove_leftovers_spec:
  "wp (for_each (\<lambda>entry. case entry of Inl e \<Rightarrow> fail (Io e) | Inr None \<Rightarrow> ret ()
        | Inr (Some name) \<Rightarrow> if epoch_leftover n name then atomic (fs_remove_regular fs (path_join dir name)) else ret ()) entries)
     (post (\<lambda>_ s'. shrinks (owned_paths dir n) (content (ss_world s)) (content (ss_world s')) \<and>
              (\<forall>name. Inr (Some name) \<in> set entries \<longrightarrow> epoch_leftover n name \<longrightarrow> content (ss_world s') (path_join dir name) = None))
           (\<lambda>s'. shrinks (owned_paths dir n) (content (ss_world s)) (content (ss_world s')))) s"
proof (induction entries arbitrary: s)
  case Nil
  then show ?case by (simp add: wp_rules)
next
  case (Cons x xs)
  have "path_join dir name \<in> owned_paths dir n" if "epoch_leftover n name" for name
    using that by (simp add: owned_paths_def owned_name_def)
  then have "wp (case x of Inl e \<Rightarrow> fail (Io e) | Inr None \<Rightarrow> ret ()
        | Inr (Some name) \<Rightarrow> if epoch_leftover n name then atomic (fs_remove_regular fs (path_join dir name)) else ret ())
     (post (\<lambda>_ s'. shrinks (owned_paths dir n) (content (ss_world s)) (content (ss_world s')) \<and>
              (\<forall>name. x = Inr (Some name) \<longrightarrow> epoch_leftover n name \<longrightarrow> content (ss_world s') (path_join dir name) = None))
           (\<lambda>s'. shrinks (owned_paths dir n) (content (ss_world s)) (content (ss_world s')))) s"
    by (auto simp: wp_fail wp_ret intro!: wp_post_mono [OF remove_regular_spec [where A = "owned_paths dir n"]]
        split: sum.splits option.splits)
  then show ?case
    by (simp, rule wp_post_bnd) (auto intro!: wp_post_mono [OF Cons.IH] intro: shrinks_trans shrinks_None)
qed

lemma listing_spec:
  "wp (io (fs_read_dir fs p))
     (post (\<lambda>entries s'. content (ss_world s') = content (ss_world s) \<and>
              (\<forall>name. plain_name name \<longrightarrow> content (ss_world s) (path_join p name) \<noteq> None \<longrightarrow> Inr (Some name) \<in> set entries))
           (\<lambda>s'. content (ss_world s') = content (ss_world s))) s"
  by (auto simp: wp_rules split: prod.splits sum.splits dest: listing_law)

lemma cleanup_spec:
  "wp (cleanup_artifacts fs dir n)
     (post (\<lambda>_ s'. shrinks (owned_paths dir n) (content (ss_world s)) (content (ss_world s')) \<and>
              (\<forall>name. owned_name n name \<longrightarrow> plain_name name \<longrightarrow> content (ss_world s') (path_join dir name) = None))
           (\<lambda>s'. shrinks (owned_paths dir n) (content (ss_world s)) (content (ss_world s')))) s"
proof -
  have own: "artifact_runtime_path dir n \<in> owned_paths dir n" "artifact_pid_path dir n \<in> owned_paths dir n"
    "artifact_socket_path dir n \<in> owned_paths dir n"
    by (auto simp: owned_paths_def artifact_runtime_path_def artifact_pid_path_def artifact_socket_path_def)
  let ?C = "\<lambda>s. content (ss_world s)" and ?A = "owned_paths dir n"
  have paths: "path_join dir (runtime_name n) = artifact_runtime_path dir n"
    "path_join dir (pid_name n) = artifact_pid_path dir n" "path_join dir (socket_name n) = artifact_socket_path dir n"
    by (simp_all add: artifact_runtime_path_def artifact_pid_path_def artifact_socket_path_def)
  show ?thesis
    unfolding cleanup_artifacts_def for_each.simps bnd_assoc
  proof (rule wp_post_bnd [OF remove_regular_spec [OF own(1)]], rule wp_post_bnd [OF remove_regular_spec [OF own(2)]],
      unfold wp_bnd [of "ret ()"] wp_ret out.simps,
      rule wp_post_bnd [OF remove_socket_spec [OF own(3)]], rule wp_post_bnd [OF listing_spec],
      rule wp_post_bnd [OF remove_leftovers_spec], rule wp_post_mono [OF sync_spec], goal_cases)
    case (1 _ s1 _ s2 _ s3 entries s4 _ s5 _ s6)
    have "shrinks ?A (?C s1) (?C s6)" "shrinks ?A (?C s2) (?C s6)" "shrinks ?A (?C s3) (?C s6)" "shrinks ?A (?C s) (?C s6)"
      using 1 by (auto intro: shrinks_trans)
    moreover have "?C s6 (path_join dir name) = None" if "epoch_leftover n name" "plain_name name" for name
      using 1 that shrinks_None by (metis (no_types))
    ultimately show ?case using 1 paths by (auto simp: owned_name_def intro: shrinks_None)
  qed (auto intro: shrinks_trans)
qed

end

section \<open>An in-memory file system\<close>

text \<open>Files by path, and a schedule of faults: each primitive consumes one entry and fails if it is set.
  A faulty rename or removal may still have happened, by the entry after it.\<close>

record mem =
  mem_files :: "(string \<times> string) list"
  mem_faults :: "bool list"

definition next_fault :: "mem \<Rightarrow> bool \<times> mem" where
  "next_fault w = (case mem_faults w of [] \<Rightarrow> (False, w) | b # bs \<Rightarrow> (b, w\<lparr>mem_faults := bs\<rparr>))"

definition mem_put :: "string \<Rightarrow> string \<Rightarrow> mem \<Rightarrow> mem" where
  "mem_put p c w = w\<lparr>mem_files := (p, c) # filter (\<lambda>(q, _). q \<noteq> p) (mem_files w)\<rparr>"

definition mem_del :: "string \<Rightarrow> mem \<Rightarrow> mem" where
  "mem_del p w = w\<lparr>mem_files := filter (\<lambda>(q, _). q \<noteq> p) (mem_files w)\<rparr>"

definition mem_content :: "mem \<Rightarrow> string \<Rightarrow> string option" where
  "mem_content w p = map_of (mem_files w) p"

definition injected :: io_error where
  "injected = IoError OtherKind ''injected''"

definition mem_try :: "'e \<Rightarrow> (mem \<Rightarrow> ('e, 'a) result \<times> mem) \<Rightarrow> mem \<Rightarrow> ('e, 'a) result \<times> mem" where
  "mem_try err f w = (case next_fault w of (b, w) \<Rightarrow> if b then (Inl err, w) else f w)"

text \<open>Like \<open>mem_try\<close>, except that a failure keeps the effect when the following entry is set.\<close>

definition mem_try_late :: "'e \<Rightarrow> (mem \<Rightarrow> ('e, 'a) result \<times> mem) \<Rightarrow> mem \<Rightarrow> ('e, 'a) result \<times> mem" where
  "mem_try_late err f w =
     (case next_fault w of
        (False, w) \<Rightarrow> f w
      | (True, w) \<Rightarrow> (case next_fault w of (late, w) \<Rightarrow> (Inl err, if late then snd (f w) else w)))"

definition mem_listing :: "string \<Rightarrow> (string \<times> string) list \<Rightarrow> (io_error, string option) result list" where
  "mem_listing dir files =
     concat (map (\<lambda>(p, _). case strip_prefix (path_join dir []) p of
                    Some name \<Rightarrow> if CHR ''/'' \<in> set name then [] else [Inr (Some name)]
                  | None \<Rightarrow> []) files)"

definition mem_unit :: "'e \<Rightarrow> mem \<Rightarrow> ('e, unit) result \<times> mem" where
  "mem_unit err w = mem_try err (\<lambda>w. (Inr (), w)) w"

definition mem_metadata :: "string \<Rightarrow> mem \<Rightarrow> (io_error, file_kind) result \<times> mem" where
  "mem_metadata p w =
     mem_try injected (\<lambda>w. (if mem_content w p = None then Inl (IoError NotFound ''not found'') else Inr FileRegular, w)) w"

definition mem_canonical :: "string \<Rightarrow> mem \<Rightarrow> (io_error, string option) result \<times> mem" where
  "mem_canonical p w = mem_try injected (\<lambda>w. (Inr (Some p), w)) w"

definition mem_validate :: "bool \<Rightarrow> string \<Rightarrow> mem \<Rightarrow> (atomic_fs_error, unit) result \<times> mem" where
  "mem_validate present p w =
     mem_try (AtomicIo injected) (\<lambda>w. (if (mem_content w p \<noteq> None) = present then Inr () else Inl (UnsafePath p), w)) w"

definition mem_create :: "string \<Rightarrow> mem \<Rightarrow> (io_error, unit) result \<times> mem" where
  "mem_create p w =
     mem_try injected (\<lambda>w. if mem_content w p = None then (Inr (), mem_put p [] w) else (Inl injected, w)) w"

definition mem_write :: "string \<Rightarrow> string \<Rightarrow> mem \<Rightarrow> (io_error, unit) result \<times> mem" where
  "mem_write p c w = mem_try_late injected (\<lambda>w. (Inr (), mem_put p c w)) w"

definition mem_read :: "string \<Rightarrow> mem \<Rightarrow> (io_error, string) result \<times> mem" where
  "mem_read p w =
     mem_try injected (\<lambda>w. (case mem_content w p of None \<Rightarrow> Inl (IoError NotFound ''not found'') | Some c \<Rightarrow> Inr c, w)) w"

definition mem_remove :: "'e \<Rightarrow> string \<Rightarrow> mem \<Rightarrow> ('e, unit) result \<times> mem" where
  "mem_remove err p w = mem_try_late err (\<lambda>w. (Inr (), mem_del p w)) w"

definition mem_rename :: "bool \<Rightarrow> string \<Rightarrow> string \<Rightarrow> mem \<Rightarrow> (atomic_fs_error, unit) result \<times> mem" where
  "mem_rename fresh p q w =
     mem_try_late (AtomicIo injected) (\<lambda>w.
       case mem_content w p of
         Some c \<Rightarrow> if fresh \<and> mem_content w q \<noteq> None then (Inl (UnsafePath q), w) else (Inr (), mem_put q c (mem_del p w))
       | None \<Rightarrow> (Inl (UnsafePath p), w)) w"

definition mem_read_dir :: "string \<Rightarrow> mem \<Rightarrow> (io_error, (io_error, string option) result list) result \<times> mem" where
  "mem_read_dir dir w = mem_try injected (\<lambda>w. (Inr (mem_listing dir (mem_files w)), w)) w"

definition mem_fs :: "mem file_sys" where
  "mem_fs =
     \<lparr>fs_process_id = 7, fs_symlink_metadata = mem_metadata, fs_create_dir_all = (\<lambda>_. mem_unit injected),
      fs_set_permissions = (\<lambda>_ _. mem_unit injected), fs_canonical = mem_canonical,
      fs_acquire_dir_lock = (\<lambda>_. mem_unit (AtomicIo injected)), fs_validate_absent = mem_validate False,
      fs_validate_existing = mem_validate True, fs_create_new = mem_create, fs_write_sync = mem_write,
      fs_read = mem_read, fs_remove_file = mem_remove injected, fs_remove_regular = mem_remove (AtomicIo injected),
      fs_move_new = mem_rename True, fs_replace = mem_rename False, fs_sync_dir = (\<lambda>_. mem_unit injected),
      fs_read_dir = mem_read_dir\<rparr>"

lemmas mem_ops = mem_fs_def mem_unit_def mem_metadata_def mem_canonical_def mem_validate_def mem_create_def mem_write_def
  mem_read_def mem_remove_def mem_rename_def mem_read_dir_def mem_try_def mem_try_late_def injected_def

lemma mem_content_upd [simp]:
  "mem_content (mem_put p c w) = (mem_content w)(p \<mapsto> c)" "mem_content (mem_del p w) = (mem_content w)(p := None)"
  "mem_content (w\<lparr>mem_faults := bs\<rparr>) = mem_content w"
proof -
  have "map_of (filter (\<lambda>(q, _). q \<noteq> p) fs) = (map_of fs)(p := None)" for fs :: "(string \<times> string) list"
    by (induction fs) auto
  then show "mem_content (mem_put p c w) = (mem_content w)(p \<mapsto> c)" "mem_content (mem_del p w) = (mem_content w)(p := None)"
    by (auto simp: mem_content_def mem_put_def mem_del_def fun_eq_iff)
qed (simp add: mem_content_def fun_eq_iff)

lemma mem_content_fault: "next_fault w = (b, w') \<Longrightarrow> mem_content w' = mem_content w"
  by (auto simp: next_fault_def split: list.splits)

lemma path_join_relative: "\<not> is_absolute b \<Longrightarrow> path_join a b = path_join a [] @ b"
  by (auto simp: path_join_def is_absolute_def)

lemma plain_relative: "plain_name n \<Longrightarrow> \<not> is_absolute n"
  by (cases n) (auto simp: plain_name_def is_absolute_def)

lemma mem_listing_complete:
  assumes "plain_name name" and "mem_content w (path_join dir name) = Some c"
  shows "Inr (Some name) \<in> set (mem_listing dir (mem_files w))"
proof -
  have "path_join dir name = path_join dir [] @ name" using assms(1) by (rule path_join_relative [OF plain_relative])
  then have m: "(path_join dir [] @ name, c) \<in> set (mem_files w)" using assms(2) by (auto simp: mem_content_def dest: map_of_SomeD)
  have "CHR ''/'' \<notin> set name" using assms(1) by (auto simp: plain_name_def list_all_iff)
  then show ?thesis using m unfolding mem_listing_def by (force intro!: bexI [OF _ m])
qed

interpretation mem: runtime_fs mem_fs mem_content
proof (unfold_locales, goal_cases)
  case (13 p w d w')
  then show ?case
    by (auto simp: mem_ops split: prod.splits if_splits dest!: mem_content_fault intro: mem_listing_complete)
qed (auto simp: mem_ops is_ok_iff split: prod.splits if_splits option.splits bool.splits
    dest!: mem_content_fault)

section \<open>Properties\<close>

lemma stored_update:
  "agree_off (insert (runtime_path dir e) (temp_paths fs dir e)) (content (ss_world s')) (content (ss_world s)) \<Longrightarrow>
     content (ss_world s') (runtime_path dir e) = Some c \<Longrightarrow> stored content dir s' = (stored content dir s)(e \<mapsto> c)"
  by (auto simp: stored_def fun_eq_iff agree_off_def)

lemma stored_same:
  "agree_off (insert (runtime_path dir e) (temp_paths fs dir e)) (content (ss_world s')) (content (ss_world s)) \<Longrightarrow>
     content (ss_world s') (runtime_path dir e) = content (ss_world s) (runtime_path dir e) \<Longrightarrow> stored content dir s' = stored content dir s"
  by (rule ext, rename_tac e', case_tac "e' = e") (simp_all add: stored_def agree_off_def)

lemma stored_commit:
  assumes c: "committed fs content dir e c ok P s r s'"
  shows "case r of
      Ok _ \<Rightarrow> P (stored content dir s e) \<and> stored content dir s' = (stored content dir s)(e \<mapsto> c)
    | Err _ \<Rightarrow> stored content dir s' \<in> {stored content dir s, (stored content dir s)(e \<mapsto> c)}
    | Panic _ \<Rightarrow> False"
proof (cases r)
  case (Ok x)
  then have "agree_off (insert (runtime_path dir e) (temp_paths fs dir e)) (content (ss_world s')) (content (ss_world s))"
    and "content (ss_world s') (runtime_path dir e) = Some c" and "P (stored content dir s e)"
    using c by (simp_all add: stored_def committed_def)
  then show ?thesis using stored_update [of dir e fs content s' s c] Ok by simp
next
  case (Err x)
  then have a: "agree_off (insert (runtime_path dir e) (temp_paths fs dir e)) (content (ss_world s')) (content (ss_world s))"
    and "content (ss_world s') (runtime_path dir e) \<in> {content (ss_world s) (runtime_path dir e), Some c}"
    using c by (simp_all add: committed_def)
  then have "stored content dir s' = stored content dir s \<or> stored content dir s' = (stored content dir s)(e \<mapsto> c)"
    using stored_update [OF a] stored_same [OF a] by blast
  then show ?thesis using Err by simp
next
  case (Panic x)
  then show ?thesis using c by (simp add: committed_def)
qed

text \<open>C16: A transaction of the store is one update of the map from epochs to configurations.  Given the
  file-system contract, replacing succeeds only for an epoch that has a configuration and creating only
  for one that has none; success sets exactly that epoch's entry to the given bytes.  A failure, at any
  step and however partial, leaves the old map or the updated one.  Backing up never changes the
  map, and none of them panics.\<close>

theorem store_refines_update:
  assumes "runtime_fs fs content"
  shows "(\<forall>r s'. store_replace fs dir e c s = (r, s') \<longrightarrow>
       (case r of
          Ok _ \<Rightarrow> stored content dir s e \<noteq> None \<and> stored content dir s' = (stored content dir s)(e \<mapsto> c)
        | Err _ \<Rightarrow> stored content dir s' \<in> {stored content dir s, (stored content dir s)(e \<mapsto> c)}
        | Panic _ \<Rightarrow> False)) \<and>
    (\<forall>r s'. bnd (stage fs dir e c) (\<lambda>staged. commit_new fs dir staged e) s = (r, s') \<longrightarrow>
       (case r of
          Ok _ \<Rightarrow> stored content dir s e = None \<and> stored content dir s' = (stored content dir s)(e \<mapsto> c)
        | Err _ \<Rightarrow> stored content dir s' \<in> {stored content dir s, (stored content dir s)(e \<mapsto> c)}
        | Panic _ \<Rightarrow> False)) \<and>
    (\<forall>r s'. backup fs dir e generation s = (r, s') \<longrightarrow>
       stored content dir s' = stored content dir s \<and> (\<forall>p. r \<noteq> Panic p))"
proof (intro conjI allI impI, goal_cases)
  case (1 r s')
  show ?case by (rule stored_commit [OF wp_run [OF runtime_fs.store_replace_spec [OF assms] 1]])
next
  case (2 r s')
  show ?case by (rule stored_commit [OF wp_run [OF runtime_fs.store_create_spec [OF assms] 2]])
next
  case (3 r s')
  note spec = wp_run [OF runtime_fs.backup_spec [OF assms] this]
  have "agree_off (insert (path_join dir (backup_name e generation)) (temp_paths fs dir e)) (content (ss_world s')) (content (ss_world s))"
    using spec by (cases r) simp_all
  then show ?case by (simp add: stored_def fun_eq_iff agree_off_def)
next
  case (4 r s' p)
  then show ?case using wp_run [OF runtime_fs.backup_spec [OF assms] 4] by auto
qed

definition toy_store :: "bool list \<Rightarrow> mem sys_state" where
  "toy_store faults = \<lparr>ss_world = \<lparr>mem_files = [(''/run/config-3.yaml'', ''old'')], mem_faults = faults\<rparr>, ss_temp_counter = 0\<rparr>"

lemma store_refines_update_witness:
  "stored mem_content ''/run'' (snd (store_replace mem_fs ''/run'' (Epoch 3) ''new'' (toy_store []))) =
     (stored mem_content ''/run'' (toy_store []))(Epoch 3 \<mapsto> ''new'') \<and>
   stored mem_content ''/run'' (toy_store []) (Epoch 3) = Some ''old''"
proof -
  let ?run = "store_replace mem_fs ''/run'' (Epoch 3) ''new'' (toy_store [])"
  have "is_ok_out (fst ?run)" by code_simp
  then obtain cm where run: "?run = (Ok cm, snd ?run)" by (rule ok_outE)
  have old: "stored mem_content ''/run'' (toy_store []) (Epoch 3) = Some ''old''" by code_simp
  have "stored mem_content ''/run'' (snd ?run) = (stored mem_content ''/run'' (toy_store []))(Epoch 3 \<mapsto> ''new'')"
    using store_refines_update [OF mem.runtime_fs_axioms, THEN conjunct1, rule_format, OF run] unfolding out.simps ..
  then show ?thesis using old ..
qed

text \<open>C33: A backup restores the bytes it was taken from.  When a backup of an epoch succeeds and its file
  is still intact at the time of restoring, whatever was installed in between, a successful restore
  puts the epoch's original bytes back and changes no other epoch.\<close>

theorem backup_restores:
  assumes "runtime_fs fs content" and "backup fs dir e generation s = (Ok b, s1)"
    and "content (ss_world s2) (rb_path b) = content (ss_world s1) (rb_path b)"
    and "restore fs dir b s2 = (Ok commit, s3)"
  shows "stored content dir s3 e = stored content dir s e \<and> stored content dir s e \<noteq> None \<and>
    (\<forall>e'. e' \<noteq> e \<longrightarrow> stored content dir s3 e' = stored content dir s2 e')"
proof -
  have b: "rb_epoch b = e" "content (ss_world s1) (rb_path b) = stored content dir s e" "stored content dir s e \<noteq> None"
    using wp_run [OF runtime_fs.backup_spec [OF assms(1)] assms(2)] by (auto simp: stored_def)
  then obtain c where c: "content (ss_world s2) (rb_path b) = Some c" "stored content dir s e = Some c" using assms(3) by auto
  show ?thesis
    using wp_run [OF runtime_fs.restore_spec [OF assms(1) c(1)] assms(4)] b c by (auto simp: stored_def agree_off_def)
qed

text \<open>A backup, a replacement and the restore, on the in-memory file system.\<close>

definition toy_backup :: "runtime_config_backup out \<times> mem sys_state" where
  "toy_backup = backup mem_fs ''/run'' (Epoch 3) 1 (toy_store [])"

definition toy_replaced :: "mem sys_state" where
  "toy_replaced = snd (store_replace mem_fs ''/run'' (Epoch 3) ''new'' (snd toy_backup))"

lemma backup_restores_witness:
  "stored mem_content ''/run'' toy_replaced (Epoch 3) = Some ''new'' \<and>
   stored mem_content ''/run''
     (snd (restore mem_fs ''/run'' \<lparr>rb_path = ''/run/config-3.yaml.backup-1'', rb_epoch = Epoch 3\<rparr> toy_replaced)) (Epoch 3) =
   stored mem_content ''/run'' (toy_store []) (Epoch 3)"
proof -
  let ?b = "\<lparr>rb_path = ''/run/config-3.yaml.backup-1'', rb_epoch = Epoch 3\<rparr> :: runtime_config_backup"
  let ?r = "restore mem_fs ''/run'' ?b toy_replaced"
  have "is_ok_out (fst toy_backup)" by code_simp
  then obtain b where b: "toy_backup = (Ok b, snd toy_backup)" by (rule ok_outE)
  have "path_join ''/run'' (backup_name (Epoch 3) 1) = rb_path ?b" by code_simp
  then have eq: "b = ?b" using wp_run [OF mem.backup_spec b [unfolded toy_backup_def]] by simp
  have "is_ok_out (fst ?r)" by code_simp
  then obtain cm where r: "?r = (Ok cm, snd ?r)" by (rule ok_outE)
  have intact: "mem_content (ss_world toy_replaced) (rb_path ?b) = mem_content (ss_world (snd toy_backup)) (rb_path ?b)" by code_simp
  have "stored mem_content ''/run'' toy_replaced (Epoch 3) = Some ''new''" by code_simp
  then show ?thesis
    using backup_restores [OF mem.runtime_fs_axioms b [unfolded toy_backup_def eq] intact [unfolded toy_backup_def] r] by simp
qed


definition toy_leftovers :: "mem sys_state" where
  "toy_leftovers =
     \<lparr>ss_world = \<lparr>mem_files = [(''/run/config-3.yaml'', ''a''), (''/run/config-3.yaml.backup-1'', ''b''), (''/run/config-31.yaml'', ''c'')],
        mem_faults = []\<rparr>, ss_temp_counter = 0\<rparr>"


end
