(* ===== verification/Config_Patch.thy ===== *)
theory Config_Patch
  imports Yaml
begin

text \<open>
  The body of \<open>PATCH /configs\<close> (\<open>clash-api/src/api/configs.rs\<close>): \<open>ConfigPatch\<close> with its nested
  \<open>TunPatch\<close> and \<open>TuicServerPatch\<close>, as the derived deserializer reads it from a YAML value and the
  derived serializer writes it back.

  A patch is its serialized form.  Each field has a type; an optional field that is absent or null is
  not written, and an ill-typed field refuses the whole value.  The texts of IP networks and addresses
  are read and printed by the \<open>ipnet\<close> crate and the standard library; \<open>ip_codec\<close> answers with the
  printed form of a text that parses.
\<close>

record ip_codec =
  ip_net :: "string \<Rightarrow> string option"
  ip_addr :: "string \<Rightarrow> string option"

datatype field_type =
    TI64 | TU32 | TBool | TString | TStrings | TU32s | TI64s | TIpNets | TIpAddrs
  | TEnum "string list"
  | TTunStack
  | TUsers

fun decode_u32 :: "yaml \<Rightarrow> yaml option" where
  "decode_u32 (YNumber (PosInt n)) = (if n < 2 ^ 32 then Some (YNumber (PosInt n)) else None)"
| "decode_u32 _ = None"

fun decode_i64 :: "yaml \<Rightarrow> yaml option" where
  "decode_i64 (YNumber (PosInt n)) = (if n < 2 ^ 63 then Some (YNumber (PosInt n)) else None)"
| "decode_i64 (YNumber (NegInt i)) = Some (YNumber (NegInt i))"
| "decode_i64 _ = None"

fun decode_text :: "(string \<Rightarrow> string option) \<Rightarrow> yaml \<Rightarrow> yaml option" where
  "decode_text f (YString s) = map_option YString (f s)"
| "decode_text _ _ = None"

fun decode_seq :: "(yaml \<Rightarrow> yaml option) \<Rightarrow> yaml \<Rightarrow> yaml option" where
  "decode_seq f (YSequence xs) = map_option YSequence (those (map f xs))"
| "decode_seq _ _ = None"

fun decode_bool :: "yaml \<Rightarrow> yaml option" where
  "decode_bool (YBool b) = Some (YBool b)"
| "decode_bool _ = None"

definition decode_entry :: "ykey \<times> yaml \<Rightarrow> (ykey \<times> yaml) option" where
  "decode_entry e =
     (case e of
        (KStr k, YString v) \<Rightarrow> Some (KStr k, YString v)
      | _ \<Rightarrow> None)"

fun decode_users :: "yaml \<Rightarrow> yaml option" where
  "decode_users (YMapping m) = map_option YMapping (those (map decode_entry m))"
| "decode_users _ = None"

text \<open>\<open>TunStack\<close> has a catch-all variant that is written back as \<open>Unknown\<close>.\<close>

definition tun_stack :: "string \<Rightarrow> string option" where
  "tun_stack s = Some (if s \<in> {''gVisor'', ''system'', ''mixed''} then s else ''Unknown'')"

fun decode_field :: "ip_codec \<Rightarrow> field_type \<Rightarrow> yaml \<Rightarrow> yaml option" where
  "decode_field c TI64 v = decode_i64 v"
| "decode_field c TU32 v = decode_u32 v"
| "decode_field c TBool v = decode_bool v"
| "decode_field c TString v = decode_text Some v"
| "decode_field c TStrings v = decode_seq (decode_text Some) v"
| "decode_field c TU32s v = decode_seq decode_u32 v"
| "decode_field c TI64s v = decode_seq decode_i64 v"
| "decode_field c TIpNets v = decode_seq (decode_text (ip_net c)) v"
| "decode_field c TIpAddrs v = decode_seq (decode_text (ip_addr c)) v"
| "decode_field c (TEnum names) v = decode_text (\<lambda>s. if s \<in> set names then Some s else None) v"
| "decode_field c TTunStack v = decode_text tun_stack v"
| "decode_field c TUsers v = decode_users v"

section \<open>Structures\<close>

text \<open>One optional field: absent or null gives nothing to write.\<close>

definition decode_optional :: "(yaml \<Rightarrow> yaml option) \<Rightarrow> string \<Rightarrow> mapping \<Rightarrow> mapping option" where
  "decode_optional f name m =
     (case mget m name of
        None \<Rightarrow> Some []
      | Some YNull \<Rightarrow> Some []
      | Some v \<Rightarrow> map_option (\<lambda>w. [(KStr name, w)]) (f v))"

text \<open>All fields, in declaration order; keys that are no field are ignored.\<close>

fun decode_fields :: "((yaml \<Rightarrow> yaml option) \<times> string) list \<Rightarrow> mapping \<Rightarrow> mapping option" where
  "decode_fields [] m = Some []"
| "decode_fields ((f, name) # fs) m =
     (case decode_optional f name m of
        None \<Rightarrow> None
      | Some entry \<Rightarrow> map_option (\<lambda>rest. entry @ rest) (decode_fields fs m))"

text \<open>\<open>enable\<close> is a plain flag that defaults to false, is not optional and is always written.\<close>

definition decode_enable :: "mapping \<Rightarrow> mapping option" where
  "decode_enable m =
     (case mget m ''enable'' of
        None \<Rightarrow> Some [(KStr ''enable'', YBool False)]
      | Some v \<Rightarrow> map_option (\<lambda>w. [(KStr ''enable'', w)]) (decode_bool v))"

definition decode_struct :: "ip_codec \<Rightarrow> (string \<times> field_type) list \<Rightarrow> yaml \<Rightarrow> yaml option" where
  "decode_struct c fs v =
     (case v of
        YMapping m \<Rightarrow>
          (case decode_enable m of
             None \<Rightarrow> None
           | Some flag \<Rightarrow>
               map_option (\<lambda>rest. YMapping (flag @ rest))
                 (decode_fields (map (\<lambda>(name, t). (decode_field c t, name)) fs) m))
      | _ \<Rightarrow> None)"

definition tun_patch_fields :: "(string \<times> field_type) list" where
  "tun_patch_fields =
     [(''device'', TString), (''stack'', TTunStack), (''dns-hijack'', TStrings), (''auto-route'', TBool),
      (''auto-detect-interface'', TBool), (''mtu'', TU32), (''gso'', TBool), (''gso-max-size'', TU32),
      (''inet6-address'', TIpNets), (''iproute2-table-index'', TI64), (''iproute2-rule-index'', TI64),
      (''auto-redirect'', TBool), (''auto-redirect-input-mark'', TU32), (''auto-redirect-output-mark'', TU32),
      (''auto-redirect-iproute2-fallback-rule-index'', TI64), (''loopback-address'', TIpAddrs),
      (''strict-route'', TBool), (''route-address'', TIpNets), (''route-address-set'', TStrings),
      (''route-exclude-address'', TIpNets), (''route-exclude-address-set'', TStrings),
      (''include-interface'', TStrings), (''exclude-interface'', TStrings), (''include-uid'', TU32s),
      (''include-uid-range'', TStrings), (''exclude-uid'', TU32s), (''exclude-uid-range'', TStrings),
      (''include-android-user'', TI64s), (''include-package'', TStrings), (''exclude-package'', TStrings),
      (''include-mac-address'', TStrings), (''exclude-mac-address'', TStrings),
      (''endpoint-independent-nat'', TBool), (''udp-timeout'', TI64), (''icmp-timeout'', TI64),
      (''file-descriptor'', TI64), (''inet4-route-address'', TIpNets), (''inet6-route-address'', TIpNets),
      (''inet4-route-exclude-address'', TIpNets), (''inet6-route-exclude-address'', TIpNets),
      (''recvmsgx'', TBool), (''sendmsgx'', TBool)]"

definition tuic_server_patch_fields :: "(string \<times> field_type) list" where
  "tuic_server_patch_fields =
     [(''listen'', TString), (''token'', TStrings), (''users'', TUsers), (''certificate'', TString),
      (''private-key'', TString), (''congestion-controller'', TString), (''max-idle-time'', TI64),
      (''authentication-timeout'', TI64), (''alpn'', TStrings), (''max-udp-relay-packet-size'', TI64),
      (''cwnd'', TI64), (''bbr-profile'', TString)]"

definition tunnel_mode :: field_type where "tunnel_mode = TEnum [''global'', ''rule'', ''direct'']"
definition find_process_mode :: field_type where "find_process_mode = TEnum [''strict'', ''always'', ''off'']"
definition log_level :: field_type where
  "log_level = TEnum [''debug'', ''info'', ''warning'', ''error'', ''silent'']"

definition config_patch_fields :: "ip_codec \<Rightarrow> ((yaml \<Rightarrow> yaml option) \<times> string) list" where
  "config_patch_fields c =
     map (\<lambda>(name, t). (decode_field c t, name))
       [(''port'', TI64), (''socks-port'', TI64), (''redir-port'', TI64), (''tproxy-port'', TI64),
        (''mixed-port'', TI64)] @
     [(decode_struct c tun_patch_fields, ''tun''), (decode_struct c tuic_server_patch_fields, ''tuic-server'')] @
     map (\<lambda>(name, t). (decode_field c t, name))
       [(''ss-config'', TString), (''vmess-config'', TString), (''tcptun-config'', TString),
        (''udptun-config'', TString), (''allow-lan'', TBool), (''skip-auth-prefixes'', TIpNets),
        (''lan-allowed-ips'', TIpNets), (''lan-disallowed-ips'', TIpNets), (''bind-address'', TString),
        (''mode'', tunnel_mode), (''log-level'', log_level), (''ipv6'', TBool), (''sniffing'', TBool),
        (''tcp-concurrent'', TBool), (''find-process-mode'', find_process_mode), (''interface-name'', TString)]"

definition decode_config_patch :: "ip_codec \<Rightarrow> mapping \<Rightarrow> mapping option" where
  "decode_config_patch c m = decode_fields (config_patch_fields c) m"

section \<open>What a decoded patch holds\<close>

definition field_out :: "(yaml \<Rightarrow> yaml option) \<Rightarrow> yaml option \<Rightarrow> yaml option" where
  "field_out f v = (case v of None \<Rightarrow> None | Some YNull \<Rightarrow> None | Some w \<Rightarrow> f w)"

lemma mget_append: "mget (a @ b) k = (case mget a k of None \<Rightarrow> mget b k | Some v \<Rightarrow> Some v)"
  by (cases "mget a k") (auto simp: mget_def map_add_def)

lemma mget_Nil [simp]: "mget [] k = None"
  by (simp add: mget_def)

lemma decode_optional_mget:
  "decode_optional f name m = Some p \<Longrightarrow> mget p k = (if k = name then field_out f (mget m name) else None)"
  by (auto simp: decode_optional_def field_out_def mget_def split: option.splits yaml.splits)

lemma decode_fields_other:
  "decode_fields fs m = Some p \<Longrightarrow> k \<notin> snd ` set fs \<Longrightarrow> mget p k = None"
  by (induction fs m arbitrary: p rule: decode_fields.induct)
    (auto simp: mget_append decode_optional_mget split: option.splits)

lemma decode_fields_mget:
  "decode_fields fs m = Some p \<Longrightarrow> distinct (map snd fs) \<Longrightarrow> (f, k) \<in> set fs \<Longrightarrow>
     mget p k = field_out f (mget m k)"
proof (induction fs m arbitrary: p rule: decode_fields.induct)
  case (2 g name fs m)
  then obtain entry rest where e: "decode_optional g name m = Some entry" and
    r: "decode_fields fs m = Some rest" and p: "p = entry @ rest"
    by (auto split: option.splits)
  show ?case
  proof (cases "k = name")
    case True
    then have "f = g" using 2(3,4) by force
    then show ?thesis
      using True decode_fields_other [OF r, of k] 2(3)
      by (auto simp: p mget_append decode_optional_mget [OF e] split: option.splits)
  next
    case False
    then show ?thesis
      using 2 e r by (auto simp: p mget_append decode_optional_mget [OF e])
  qed
qed simp

lemma decode_fields_ok:
  "decode_fields fs m = Some p \<Longrightarrow> (f, k) \<in> set fs \<Longrightarrow> mget m k = Some v \<Longrightarrow> v \<noteq> YNull \<Longrightarrow> f v \<noteq> None"
  by (induction fs m arbitrary: p rule: decode_fields.induct)
    (auto simp: decode_optional_def split: option.splits yaml.splits)

lemma decode_fields_Some:
  "(\<And>f k v. (f, k) \<in> set fs \<Longrightarrow> mget m k = Some v \<Longrightarrow> f v \<noteq> None) \<Longrightarrow> \<exists>p. decode_fields fs m = Some p"
proof (induction fs)
  case (Cons x fs)
  obtain f name where x: "x = (f, name)" by (cases x)
  have "decode_optional f name m \<noteq> None"
    using Cons.prems [of f name] by (auto simp: x decode_optional_def split: option.splits yaml.splits)
  moreover have "\<exists>p. decode_fields fs m = Some p" by (rule Cons.IH) (rule Cons.prems, simp_all)
  ultimately show ?case by (auto simp: x)
qed simp

lemma decode_struct_mget:
  assumes "decode_struct c fs (YMapping m) = Some w" "distinct (map fst fs)" "''enable'' \<notin> fst ` set fs"
  shows "\<exists>p. w = YMapping p \<and> (\<forall>v. mget m ''enable'' = Some v \<longrightarrow> mget p ''enable'' = Some v) \<and>
           (\<forall>name t. (name, t) \<in> set fs \<longrightarrow> mget p name = field_out (decode_field c t) (mget m name))"
proof -
  let ?fs = "map (\<lambda>(name, t). (decode_field c t, name)) fs"
  obtain flag rest where flag: "decode_enable m = Some flag" and
    rest: "decode_fields ?fs m = Some rest" and w: "w = YMapping (flag @ rest)"
    using assms(1) by (auto simp: decode_struct_def split: option.splits)
  have d: "distinct (map snd ?fs)"
    using assms(2) by (simp add: comp_def case_prod_beta)
  have bool: "decode_bool v = Some u \<Longrightarrow> u = v" for u v by (cases v) auto
  have en: "mget flag ''enable'' = Some v" if "mget m ''enable'' = Some v" for v
    using flag that bool by (auto simp: decode_enable_def mget_def split: option.splits)
  have other: "mget flag name = None" if "name \<noteq> ''enable''" for name
    using flag that by (auto simp: decode_enable_def mget_def split: option.splits)
  have "mget (flag @ rest) name = field_out (decode_field c t) (mget m name)" if "(name, t) \<in> set fs" for name t
  proof -
    have "name \<noteq> ''enable''" using assms(3) that by force
    moreover have "(decode_field c t, name) \<in> set ?fs" using that by force
    ultimately show ?thesis using decode_fields_mget [OF rest d] by (simp add: mget_append other)
  qed
  then show ?thesis using en by (auto simp: w mget_append)
qed

end
