(* ===== verification/Mihomo.thy ===== *)
theory Mihomo
  imports Config Config_Patch
begin

text \<open>
  Classification of Mihomo configuration changes (\<open>config/mihomo.rs\<close>): which changes can be patched
  or reloaded in place, which need a new process; the inbound-zeroing of the bootstrap document of a
  graceful switch and the patch that restores it; and the test whether two epochs may overlap.
\<close>

section \<open>Field tables\<close>

definition INBOUND_PORT_FIELDS :: "string list" where
  "INBOUND_PORT_FIELDS = [''port'', ''socks-port'', ''redir-port'', ''tproxy-port'', ''mixed-port'']"

definition PATCH_FIELDS :: "string list" where
  "PATCH_FIELDS =
     [''port'', ''socks-port'', ''redir-port'', ''tproxy-port'', ''mixed-port'', ''tun'', ''tuic-server'',
      ''ss-config'', ''vmess-config'', ''tcptun-config'', ''udptun-config'', ''allow-lan'',
      ''skip-auth-prefixes'', ''lan-allowed-ips'', ''lan-disallowed-ips'', ''bind-address'', ''mode'',
      ''log-level'', ''ipv6'', ''sniffing'', ''tcp-concurrent'', ''find-process-mode'', ''interface-name'']"

definition TUN_PATCH_FIELDS :: "string list" where
  "TUN_PATCH_FIELDS =
     [''enable'', ''device'', ''stack'', ''dns-hijack'', ''auto-route'', ''auto-detect-interface'', ''mtu'',
      ''gso'', ''gso-max-size'', ''inet6-address'', ''iproute2-table-index'', ''iproute2-rule-index'',
      ''auto-redirect'', ''auto-redirect-input-mark'', ''auto-redirect-output-mark'',
      ''auto-redirect-iproute2-fallback-rule-index'', ''loopback-address'', ''strict-route'',
      ''route-address'', ''route-address-set'', ''route-exclude-address'', ''route-exclude-address-set'',
      ''include-interface'', ''exclude-interface'', ''include-uid'', ''include-uid-range'', ''exclude-uid'',
      ''exclude-uid-range'', ''include-android-user'', ''include-package'', ''exclude-package'',
      ''include-mac-address'', ''exclude-mac-address'', ''endpoint-independent-nat'', ''udp-timeout'',
      ''icmp-timeout'', ''file-descriptor'', ''inet4-route-address'', ''inet6-route-address'',
      ''inet4-route-exclude-address'', ''inet6-route-exclude-address'', ''recvmsgx'', ''sendmsgx'']"

definition TUIC_SERVER_PATCH_FIELDS :: "string list" where
  "TUIC_SERVER_PATCH_FIELDS =
     [''enable'', ''listen'', ''token'', ''users'', ''certificate'', ''private-key'',
      ''congestion-controller'', ''max-idle-time'', ''authentication-timeout'', ''alpn'',
      ''max-udp-relay-packet-size'', ''cwnd'', ''bbr-profile'']"

definition RELOAD_FIELDS :: "string list" where
  "RELOAD_FIELDS =
     [''proxies'', ''proxy-groups'', ''proxy-providers'', ''rule-providers'', ''providers'', ''rules'',
      ''hosts'', ''dns'']"

section \<open>Bootstrap documents\<close>

definition zero_listener :: "string \<Rightarrow> mapping \<Rightarrow> mapping" where
  "zero_listener key document =
     (case Option.bind (mget document key) as_i64 of
        Some v \<Rightarrow> if v \<noteq> 0 then minsert key (YNumber (PosInt 0)) document else document
      | None \<Rightarrow> document)"

text \<open>\<open>get_mut\<close> followed by an update inside the \<open>tun\<close> mapping is the re-insertion of the updated one.\<close>

definition zero_inbounds :: "mapping \<Rightarrow> mapping" where
  "zero_inbounds document =
     (let document = fold zero_listener INBOUND_PORT_FIELDS document in
      case Option.bind (mget document ''tun'') as_mapping of
        Some tun \<Rightarrow>
          if Option.bind (mget tun ''enable'') as_bool = Some True
          then minsert ''tun'' (YMapping (minsert ''enable'' (YBool False) tun)) document
          else document
      | None \<Rightarrow> document)"

definition prepare_bootstrap ::
    "config_env \<Rightarrow> config_snapshot \<Rightarrow> string option \<Rightarrow> string \<Rightarrow> epoch
       \<Rightarrow> runtime_feature list \<Rightarrow> local_ipc_settings option \<Rightarrow> (error, prepared_config) result" where
  "prepare_bootstrap env = prepare env zero_inbounds"

section \<open>Classification\<close>

text \<open>A projection is the list of leaves the runtime must show after the patch.\<close>

type_synonym projection = "(string list \<times> yaml) list"

datatype config_change =
    ChNoop
  | ChPatch mapping projection
  | ChReload
  | ChSwitch

definition verify :: "projection \<Rightarrow> yaml \<Rightarrow> bool" where
  "verify expected actual =
     list_all (\<lambda>(path, v). case value_at actual path of None \<Rightarrow> False | Some w \<Rightarrow> value_eq w v) expected"

definition patch_nested_path_is_supported :: "string list \<Rightarrow> bool" where
  "patch_nested_path_is_supported path =
     (case path of
        [] \<Rightarrow> False
      | root # rest \<Rightarrow>
          if root = ''tun'' then (case rest of [] \<Rightarrow> False | f # _ \<Rightarrow> f \<in> set TUN_PATCH_FIELDS)
          else if root = ''tuic-server''
          then (case rest of [] \<Rightarrow> False | f # _ \<Rightarrow> f \<in> set TUIC_SERVER_PATCH_FIELDS)
          else rest = [])"

definition filter_mapping :: "yaml \<Rightarrow> string list \<Rightarrow> (error, yaml) result" where
  "filter_mapping v allowed =
     (case as_mapping v of
        None \<Rightarrow> Inl (InvalidConfig ''patchable nested config must be a mapping'')
      | Some m \<Rightarrow>
          if list_all (\<lambda>(k, _). key_str k \<noteq> None) m
          then Inr (YMapping (filter (\<lambda>(k, _). the (key_str k) \<in> set allowed) m))
          else Inl (InvalidConfig ''config keys must be strings''))"

definition is_dns_listen :: "string list \<Rightarrow> bool" where
  "is_dns_listen path = (take 2 path = [''dns'', ''listen''])"

definition dns_listen :: "mapping \<Rightarrow> yaml option" where
  "dns_listen document =
     Option.bind (Option.bind (mget document ''dns'') as_mapping) (\<lambda>dns. mget dns ''listen'')"

definition patch_value :: "string \<Rightarrow> yaml \<Rightarrow> (error, yaml) result" where
  "patch_value root v =
     (if root = ''tun'' then filter_mapping v TUN_PATCH_FIELDS
      else if root = ''tuic-server'' then filter_mapping v TUIC_SERVER_PATCH_FIELDS
      else Inr v)"

text \<open>The loop of \<open>build_patch\<close> over the changed roots; \<open>None\<close> in the result is a root the desired
  document does not have.\<close>

fun patch_document :: "mapping \<Rightarrow> string list \<Rightarrow> mapping \<Rightarrow> (error, mapping option) result" where
  "patch_document desired [] document = Inr (Some document)"
| "patch_document desired (root # roots) document =
     (case mget desired root of
        None \<Rightarrow> Inr None
      | Some v \<Rightarrow>
          (case patch_value root v of
             Inl e \<Rightarrow> Inl e
           | Inr w \<Rightarrow> patch_document desired roots (minsert root w document)))"

definition enable_missing :: "mapping \<Rightarrow> string \<Rightarrow> bool" where
  "enable_missing document root =
     (mget document root \<noteq> None \<and>
      Option.bind (Option.bind (Option.bind (mget document root) as_mapping) (\<lambda>m. mget m ''enable'')) as_bool = None)"

definition changed_roots :: "diff_entry list \<Rightarrow> string list" where
  "changed_roots changes = sort (remdups (concat (map (\<lambda>e. take 1 (d_path e)) changes)))"

definition build_patch :: "ip_codec \<Rightarrow> mapping \<Rightarrow> diff_entry list \<Rightarrow> (error, config_change) result" where
  "build_patch c desired changes =
     (case patch_document desired (changed_roots changes) [] of
        Inl e \<Rightarrow> Inl e
      | Inr None \<Rightarrow> Inr ChSwitch
      | Inr (Some document) \<Rightarrow>
          if enable_missing document ''tun'' \<or> enable_missing document ''tuic-server'' then Inr ChSwitch
          else (case decode_config_patch c document of
                  None \<Rightarrow> Inr ChSwitch
                | Some patch \<Rightarrow> Inr (ChPatch patch (collect_leaves (YMapping patch) []))))"

definition patchable :: "diff_entry list \<Rightarrow> bool" where
  "patchable changes =
     list_all (\<lambda>e. d_new e \<noteq> None \<and>
       (case d_path e of [] \<Rightarrow> False | root # _ \<Rightarrow> root \<in> set PATCH_FIELDS \<and> patch_nested_path_is_supported (d_path e)))
     changes"

definition reloadable :: "diff_entry list \<Rightarrow> bool" where
  "reloadable changes =
     list_all (\<lambda>e. case d_path e of
         [] \<Rightarrow> False
       | root # rest \<Rightarrow> root \<in> set RELOAD_FIELDS \<and> \<not> is_dns_listen (d_path e) \<and> \<not> (root = ''dns'' \<and> rest = []))
     changes"

definition classify_documents :: "ip_codec \<Rightarrow> mapping \<Rightarrow> mapping \<Rightarrow> (error, config_change) result" where
  "classify_documents c current desired =
     (if \<not> opt_eq (dns_listen current) (dns_listen desired) then Inr ChSwitch
      else let changes = diff current desired in
        if changes = [] then Inr ChNoop
        else if patchable changes then build_patch c desired changes
        else if reloadable changes then Inr ChReload
        else Inr ChSwitch)"

definition restoration_patch :: "ip_codec \<Rightarrow> mapping \<Rightarrow> mapping \<Rightarrow> (error, (mapping \<times> projection) option) result" where
  "restoration_patch c bootstrap desired =
     (case classify_documents c bootstrap desired of
        Inl e \<Rightarrow> Inl e
      | Inr ChNoop \<Rightarrow> Inr None
      | Inr (ChPatch patch projection) \<Rightarrow> Inr (Some (patch, projection))
      | Inr _ \<Rightarrow>
          Inl (InvalidConfig ''graceful bootstrap cannot be restored losslessly with ConfigPatch''))"

record classification_view =
  view_source :: mapping
  view_effective :: mapping
  view_spec :: instance_spec

definition process_spec_changed :: "instance_spec \<Rightarrow> instance_spec \<Rightarrow> bool" where
  "process_spec_changed current desired =
     (cs_kind (is_core current) \<noteq> cs_kind (is_core desired) \<or>
      cs_binary_path (is_core current) \<noteq> cs_binary_path (is_core desired) \<or>
      cs_version (is_core current) \<noteq> cs_version (is_core desired) \<or>
      cs_features (is_core current) \<noteq> cs_features (is_core desired) \<or>
      is_working_dir current \<noteq> is_working_dir desired \<or>
      opt_startup_timeout (is_options current) \<noteq> opt_startup_timeout (is_options desired) \<or>
      opt_health (is_options current) \<noteq> opt_health (is_options desired) \<or>
      opt_restart_policy (is_options current) \<noteq> opt_restart_policy (is_options desired) \<or>
      opt_backoff (is_options current) \<noteq> opt_backoff (is_options desired))"

definition classify :: "ip_codec \<Rightarrow> classification_view \<Rightarrow> classification_view \<Rightarrow> (error, config_change) result" where
  "classify c current desired =
     (if process_spec_changed (view_spec current) (view_spec desired) then Inr ChSwitch
      else let source_diff = diff (view_source current) (view_source desired) in
        if cs_kind (is_core (view_spec desired)) \<noteq> Mihomo
        then (if source_diff = [] \<and> diff (view_effective current) (view_effective desired) = []
              then Inr ChNoop else Inr ChSwitch)
        else if list_ex (\<lambda>e. (case d_path e of [] \<Rightarrow> False | root # _ \<Rightarrow> root \<in> set CONTROLLER_FIELDS) \<or>
                              is_dns_listen (d_path e)) source_diff
        then Inr ChSwitch
        else classify_documents c (view_effective current) (view_effective desired))"

section \<open>Overlap\<close>

datatype overlap_block = DnsListen | InboundSurface

definition nonempty_collection :: "yaml \<Rightarrow> bool" where
  "nonempty_collection v =
     (case v of
        YNull \<Rightarrow> False
      | YString s \<Rightarrow> s \<noteq> []
      | YSequence xs \<Rightarrow> xs \<noteq> []
      | YMapping m \<Rightarrow> m \<noteq> []
      | _ \<Rightarrow> True)"

definition inbound_like :: "string \<Rightarrow> bool" where
  "inbound_like key =
     (strip_suffix ''-port'' key \<noteq> None \<or> contains key ''listener'' \<or> contains key ''inbound'' \<or>
      contains key ''tunnel'')"

definition tun_blocks :: "mapping \<Rightarrow> bool" where
  "tun_blocks document =
     (case mget document ''tun'' of
        None \<Rightarrow> False
      | Some tun \<Rightarrow>
          (case as_mapping tun of
             None \<Rightarrow> True
           | Some tun \<Rightarrow> (case mget tun ''enable'' of None \<Rightarrow> False | Some enable \<Rightarrow> as_bool enable = None)))"

definition tuic_blocks :: "mapping \<Rightarrow> bool" where
  "tuic_blocks document =
     (case mget document ''tuic-server'' of
        None \<Rightarrow> False
      | Some tuic \<Rightarrow>
          (case as_mapping tuic of
             None \<Rightarrow> True
           | Some tuic \<Rightarrow>
               (case mget tuic ''enable'' of
                  Some enable \<Rightarrow> as_bool enable \<noteq> Some False
                | None \<Rightarrow> tuic \<noteq> [])))"

definition port_blocks :: "mapping \<Rightarrow> bool" where
  "port_blocks document =
     list_ex (\<lambda>key. case mget document key of None \<Rightarrow> False | Some v \<Rightarrow> as_i64 v = None) INBOUND_PORT_FIELDS"

definition legacy_blocks :: "mapping \<Rightarrow> bool" where
  "legacy_blocks document =
     list_ex (\<lambda>key. case mget document key of None \<Rightarrow> False | Some v \<Rightarrow> as_str v \<noteq> Some [])
       [''ss-config'', ''vmess-config'', ''tcptun-config'', ''udptun-config'']"

definition collection_blocks :: "mapping \<Rightarrow> bool" where
  "collection_blocks document =
     list_ex (\<lambda>key. case mget document key of None \<Rightarrow> False | Some v \<Rightarrow> nonempty_collection v)
       [''listeners'', ''tunnels'']"

definition key_blocks :: "mapping \<Rightarrow> bool" where
  "key_blocks document =
     list_ex (\<lambda>key. inbound_like key \<and> key \<notin> set PATCH_FIELDS \<and> key \<noteq> ''listeners'' \<and> key \<noteq> ''tunnels'')
       (mkeys document)"

text \<open>A present and decided \<open>dns.listen\<close> ends the test; otherwise every listener the document can
  open besides the numeric ports and the tunnel flag blocks the overlap.\<close>

definition overlap_block :: "mapping \<Rightarrow> overlap_block option" where
  "overlap_block document =
     (case dns_listen document of
        Some listen \<Rightarrow>
          (case as_str listen of
             Some s \<Rightarrow> if s = [] then None else Some DnsListen
           | None \<Rightarrow> if listen = YNull then None else Some InboundSurface)
      | None \<Rightarrow>
          if port_blocks document \<or> tun_blocks document \<or> tuic_blocks document \<or>
             legacy_blocks document \<or> collection_blocks document \<or> key_blocks document
          then Some InboundSurface
          else None)"

section \<open>Classification theorems\<close>

text \<open>Which path a change belongs to at the level the patch knows: a root, or a field of a nested
  structure.\<close>

definition patch_key :: "string list \<Rightarrow> string list" where
  "patch_key path = (if take 1 path = [''tun''] \<or> take 1 path = [''tuic-server''] then take 2 path else take 1 path)"

lemma canonical_opt_mapping: "canonical (YMapping m) \<Longrightarrow> canonical_opt (Some (YMapping m))"
  by (simp add: canonical_opt_def del: canonical.simps)

lemma value_at_one [simp]: "value_at (YMapping m) [k] = mget m k"
  by (cases "mget m k") simp_all

lemma diff_complete:
  assumes "canonical (YMapping current)" "canonical (YMapping desired)"
    and "value_at (YMapping current) p \<noteq> value_at (YMapping desired) p"
  shows "\<exists>e \<in> set (diff current desired). prefix (d_path e) p \<or> prefix p (d_path e)"
  using diff_value_complete [OF canonical_opt_mapping canonical_opt_mapping, of current desired p] assms
  by (simp add: diff_def opt_at_def)

lemma diff_sound:
  assumes "canonical (YMapping current)" "canonical (YMapping desired)" "e \<in> set (diff current desired)"
  shows "value_at (YMapping current) (d_path e) \<noteq> value_at (YMapping desired) (d_path e)"
    "d_new e = value_at (YMapping desired) (d_path e)"
  using diff_value_sound [OF canonical_opt_mapping canonical_opt_mapping, of current desired e] assms
  by (simp_all add: diff_def opt_at_def)

text \<open>An entry is a leaf: the walk could not descend further.\<close>

lemma diff_value_leaf:
  "canonical_opt c \<Longrightarrow> canonical_opt d \<Longrightarrow> e \<in> set (diff_value c d []) \<Longrightarrow>
     \<not> diff_descends (opt_at c (d_path e)) (opt_at d (d_path e))"
proof (induction "opt_size c + opt_size d" arbitrary: c d e rule: less_induct)
  case less
  show ?case
  proof (cases "c = d \<or> \<not> diff_descends c d")
    case True
    then show ?thesis
      using less.prems diff_value_unfold [of c d] by (auto simp: canonical_opt_eq split: if_splits)
  next
    case False
    then obtain k e' where k: "k \<in> set (diff_keys (opt_mapping c) (opt_mapping d))" and
      e': "e' \<in> set (diff_value (opt_get (opt_mapping c) k) (opt_get (opt_mapping d) k) [])" "e = prepend [k] e'"
      using less.prems diff_value_unfold [of c d] by (auto simp: canonical_opt_eq)
    show ?thesis
      using less.hyps [OF diff_child_smaller [OF k] canonical_opt_get canonical_opt_get e'(1)] less.prems(1,2) e'(2)
      by (simp add: prepend_def)
  qed
qed

lemma diff_leaf:
  assumes "canonical (YMapping current)" "canonical (YMapping desired)" "e \<in> set (diff current desired)"
    and "value_at (YMapping current) (d_path e) = Some (YMapping m)"
    and "value_at (YMapping desired) (d_path e) = Some (YMapping n)"
  shows "mget m k = None" "mget n k = None"
proof -
  have "\<not> diff_descends (Some (YMapping m)) (Some (YMapping n))"
    using diff_value_leaf [OF canonical_opt_mapping canonical_opt_mapping, of current desired e] assms
    by (simp add: diff_def opt_at_def)
  then have "k \<notin> set (diff_keys (Some m) (Some n))" by (auto simp: diff_descends_def opt_mapping_def)
  then show "mget m k = None" "mget n k = None" by (simp_all add: set_diff_keys opt_get_def)
qed

lemma diff_Nil_iff:
  assumes "canonical (YMapping current)" "canonical (YMapping desired)"
  shows "diff current desired = [] \<longleftrightarrow> current = desired"
  using diff_nil_iff [OF canonical_opt_mapping canonical_opt_mapping, of current desired] assms
  by (simp add: diff_def)

lemma diff_root:
  assumes "canonical (YMapping current)" "canonical (YMapping desired)" "e \<in> set (diff current desired)"
  shows "d_path e \<noteq> []"
proof
  assume root: "d_path e = []"
  have "diff_keys (Some current) (Some desired) \<noteq> []"
  proof
    assume "diff_keys (Some current) (Some desired) = []"
    then have "mget current k = mget desired k" for k
      using set_diff_keys [of k "Some current" "Some desired"] by (simp add: opt_get_def)
    then have "current = desired" using canonical_mapping_eqI assms(1,2) by blast
    then show False using diff_Nil_iff assms by force
  qed
  then have "diff_descends (Some (YMapping current)) (Some (YMapping desired))"
    by (simp add: diff_descends_def opt_mapping_def)
  then show False
    using assms(3) root diff_value_unfold [of "Some (YMapping current)" "Some (YMapping desired)"]
    by (auto simp: diff_def prepend_def split: if_splits)
qed

lemma diff_top_complete:
  assumes "canonical (YMapping current)" "canonical (YMapping desired)" "mget current k \<noteq> mget desired k"
  shows "\<exists>e \<in> set (diff current desired). \<exists>rest. d_path e = k # rest"
proof -
  have "value_at (YMapping current) [k] \<noteq> value_at (YMapping desired) [k]"
    using assms(3) by (simp del: value_at.simps)
  then obtain e where e: "e \<in> set (diff current desired)" "prefix (d_path e) [k] \<or> prefix [k] (d_path e)"
    using diff_complete assms(1,2) by blast
  then show ?thesis using diff_root [OF assms(1,2) e(1)]
    by (cases "d_path e") (auto simp: prefix_def)
qed

lemma canonical_dns_listen:
  assumes "canonical (YMapping m)"
  shows "canonical_opt (dns_listen m)"
proof -
  have "canonical v" if "mget m ''dns'' = Some d" "as_mapping d = Some n" "mget n ''listen'' = Some v" for d n v
  proof -
    have "canonical d" using canonical_mapping_member [OF assms that(1)] .
    then show ?thesis using that(2,3) canonical_mapping_member by (auto simp del: canonical.simps)
  qed
  then show ?thesis by (auto simp: canonical_opt_def dns_listen_def bind_eq_Some_conv)
qed

lemma build_patch_cases:
  "build_patch c desired changes = Inr ch \<Longrightarrow> ch = ChSwitch \<or> (\<exists>p proj. ch = ChPatch p proj)"
  by (auto simp: build_patch_def split: sum.splits option.splits if_splits)

lemma classify_documents_in_place:
  assumes "canonical (YMapping current)" "canonical (YMapping desired)"
    and "classify_documents c current desired = Inr ch" "ch \<noteq> ChSwitch"
  shows "dns_listen current = dns_listen desired"
    "ch = ChNoop \<longrightarrow> current = desired"
    "mget current k \<noteq> mget desired k \<Longrightarrow> ch = ChPatch p proj \<Longrightarrow> k \<in> set PATCH_FIELDS \<and> mget desired k \<noteq> None"
    "mget current k \<noteq> mget desired k \<Longrightarrow> ch = ChReload \<Longrightarrow> k \<in> set RELOAD_FIELDS"
proof -
  let ?d = "diff current desired"
  note cd = assms(3) [unfolded classify_documents_def Let_def]
  show "dns_listen current = dns_listen desired"
    using cd assms(4) canonical_opt_eq canonical_dns_listen assms(1,2) by (auto split: if_splits)
  show "ch = ChNoop \<longrightarrow> current = desired"
    using cd build_patch_cases diff_Nil_iff [OF assms(1,2)] by (auto split: if_splits)
  show "k \<in> set PATCH_FIELDS \<and> mget desired k \<noteq> None"
    if differ: "mget current k \<noteq> mget desired k" and ch: "ch = ChPatch p proj"
  proof -
    obtain e rest where e: "e \<in> set ?d" "d_path e = k # rest"
      using diff_top_complete [OF assms(1,2) differ] by blast
    have "patchable ?d" using cd ch by (auto split: if_splits)
    then have "k \<in> set PATCH_FIELDS" "d_new e \<noteq> None"
      using e by (auto simp: patchable_def list_all_iff)
    then show ?thesis using diff_sound(2) [OF assms(1,2) e(1)] e(2) by (auto split: option.splits)
  qed
  show "k \<in> set RELOAD_FIELDS" if differ: "mget current k \<noteq> mget desired k" and ch: "ch = ChReload"
  proof -
    obtain e rest where e: "e \<in> set ?d" "d_path e = k # rest"
      using diff_top_complete [OF assms(1,2) differ] by blast
    have "reloadable ?d" using cd ch build_patch_cases by (auto split: if_splits)
    then show ?thesis using e by (auto simp: reloadable_def list_all_iff)
  qed
qed

text \<open>C22: A change is applied in place only when that is safe.  Whatever is classified as nothing to do,
  a patch or a reload leaves the process specification as it is and every controller key of the source
  document unchanged, and keeps the DNS listener.  Nothing to do means the effective documents are
  equal.  A patch touches only patchable keys and deletes none; a reload touches only reloadable keys;
  both are for Mihomo alone.  Every other change is a switch.\<close>

theorem classify_in_place:
  assumes "canonical (YMapping (view_source cur))" "canonical (YMapping (view_source des))"
    and "canonical (YMapping (view_effective cur))" "canonical (YMapping (view_effective des))"
    and "classify c cur des = Inr ch" "ch \<noteq> ChSwitch"
  shows "\<not> process_spec_changed (view_spec cur) (view_spec des) \<and>
    (\<forall>k \<in> set CONTROLLER_FIELDS. mget (view_source cur) k = mget (view_source des) k) \<and>
    dns_listen (view_effective cur) = dns_listen (view_effective des) \<and>
    (ch = ChNoop \<longrightarrow> view_effective cur = view_effective des) \<and>
    (\<forall>p proj k. ch = ChPatch p proj \<longrightarrow> mget (view_effective cur) k \<noteq> mget (view_effective des) k \<longrightarrow>
       k \<in> set PATCH_FIELDS \<and> mget (view_effective des) k \<noteq> None) \<and>
    (\<forall>k. ch = ChReload \<longrightarrow> mget (view_effective cur) k \<noteq> mget (view_effective des) k \<longrightarrow>
       k \<in> set RELOAD_FIELDS) \<and>
    (ch = ChNoop \<or> cs_kind (is_core (view_spec des)) = Mihomo)"
proof -
  let ?sd = "diff (view_source cur) (view_source des)"
  have spec: "\<not> process_spec_changed (view_spec cur) (view_spec des)"
    using assms(5,6) by (auto simp: classify_def)
  show ?thesis
  proof (cases "cs_kind (is_core (view_spec des)) = Mihomo")
    case False
    then have "ch = ChNoop" "?sd = []"
      "diff (view_effective cur) (view_effective des) = []"
      using assms(5,6) spec by (auto simp: classify_def Let_def split: if_splits)
    then show ?thesis
      using spec diff_Nil_iff assms(1-4) by auto
  next
    case True
    then have ctl: "list_all (\<lambda>e. \<not> (case d_path e of [] \<Rightarrow> False | root # _ \<Rightarrow> root \<in> set CONTROLLER_FIELDS)) ?sd"
      and docs: "classify_documents c (view_effective cur) (view_effective des) = Inr ch"
      using assms(5,6) spec by (auto simp: classify_def Let_def list_all_iff list_ex_iff split: if_splits)
    have keys: "mget (view_source cur) k = mget (view_source des) k" if "k \<in> set CONTROLLER_FIELDS" for k
    proof (rule ccontr)
      assume "\<not> ?thesis"
      then show False using diff_top_complete [OF assms(1,2)] ctl that by (fastforce simp: list_all_iff)
    qed
    note in_place = classify_documents_in_place [OF assms(3,4) docs assms(6)]
    show ?thesis using spec keys in_place True by blast
  qed
qed

text \<open>The identity codec and a specification for the examples.\<close>

definition toy_ip :: ip_codec where
  "toy_ip = \<lparr>ip_net = Some, ip_addr = Some\<rparr>"

definition toy_spec :: instance_spec where
  "toy_spec =
     \<lparr>is_core = \<lparr>cs_kind = Mihomo, cs_binary_path = ''/bin/mihomo'', cs_version = Some ''1.19.0'', cs_features = []\<rparr>,
      is_config_path = ''/etc/config.yaml'', is_working_dir = ''/etc'', is_pid_file = None,
      is_options = instance_options_default 0 0\<rparr>"

definition toy_view :: "mapping \<Rightarrow> classification_view" where
  "toy_view m = \<lparr>view_source = m, view_effective = m, view_spec = toy_spec\<rparr>"

lemma classify_in_place_witness:
  "classify toy_ip (toy_view [(KStr ''mode'', YString ''rule'')])
     (toy_view [(KStr ''mode'', YString ''rule''), (KStr ''rules'', YSequence [])]) = Inr ChReload \<and>
   mget [(KStr ''mode'', YString ''rule'')] SECRET =
     mget [(KStr ''mode'', YString ''rule''), (KStr ''rules'', YSequence [])] SECRET"
proof -
  let ?a = "[(KStr ''mode'', YString ''rule'')]"
  let ?b = "[(KStr ''mode'', YString ''rule''), (KStr ''rules'', YSequence [])]"
  have "canonical (YMapping ?a)" "canonical (YMapping ?b)" by code_simp+
  then have views: "canonical (YMapping (view_source (toy_view ?a)))" "canonical (YMapping (view_source (toy_view ?b)))"
    "canonical (YMapping (view_effective (toy_view ?a)))" "canonical (YMapping (view_effective (toy_view ?b)))"
    by (simp_all add: toy_view_def)
  have diff: "diff ?a ?b = [\<lparr>d_path = [''rules''], d_new = Some (YSequence [])\<rparr>]" by code_simp
  have docs: "classify_documents toy_ip ?a ?b = Inr ChReload" by code_simp
  have c: "classify toy_ip (toy_view ?a) (toy_view ?b) = Inr ChReload"
    by (simp add: classify_def toy_view_def process_spec_changed_def toy_spec_def diff docs
        CONTROLLER_FIELDS_def controller_keys is_dns_listen_def)
  then show ?thesis
    using classify_in_place [OF views c] by (simp add: toy_view_def CONTROLLER_FIELDS_def)
qed

section \<open>What a patch carries\<close>

lemma patch_document_mget:
  assumes "patch_document desired roots acc = Inr (Some doc)" "distinct roots"
  shows "mget doc k =
    (if k \<in> set roots
     then (case patch_value k (the (mget desired k)) of Inl _ \<Rightarrow> None | Inr w \<Rightarrow> Some w)
     else mget acc k)"
    "k \<in> set roots \<Longrightarrow> \<exists>v w. mget desired k = Some v \<and> patch_value k v = Inr w \<and> mget doc k = Some w"
  using assms
  by (induction desired roots acc rule: patch_document.induct) (auto split: option.splits sum.splits)

lemma set_take_1: "k \<in> set (take 1 p) \<longleftrightarrow> (\<exists>rest. p = k # rest)"
  by (cases p) auto

lemma set_changed_roots: "k \<in> set (changed_roots changes) \<longleftrightarrow> (\<exists>e \<in> set changes. \<exists>rest. d_path e = k # rest)"
  unfolding changed_roots_def by (auto simp: set_take_1 simp del: One_nat_def)

lemma distinct_changed_roots: "distinct (changed_roots changes)"
  by (simp add: changed_roots_def)

text \<open>The decoder of a patch key: of a root, or of a field below \<open>tun\<close> or \<open>tuic-server\<close>.\<close>

definition nested_fields :: "string \<Rightarrow> (string \<times> field_type) list" where
  "nested_fields root = (if root = ''tun'' then tun_patch_fields else tuic_server_patch_fields)"

fun patch_decoder :: "ip_codec \<Rightarrow> string list \<Rightarrow> yaml \<Rightarrow> yaml option" where
  "patch_decoder c [root] v =
     Option.bind (map_of (map prod.swap (config_patch_fields c)) root) (\<lambda>f. f v)"
| "patch_decoder c [root, f] v =
     (if f = ''enable'' then decode_bool v
      else Option.bind (map_of (nested_fields root) f) (\<lambda>t. decode_field c t v))"
| "patch_decoder c _ v = None"

lemma patch_tables:
  "map snd (config_patch_fields c) = PATCH_FIELDS" "distinct PATCH_FIELDS"
  "''enable'' # map fst tun_patch_fields = TUN_PATCH_FIELDS" "distinct TUN_PATCH_FIELDS"
  "''enable'' # map fst tuic_server_patch_fields = TUIC_SERVER_PATCH_FIELDS" "distinct TUIC_SERVER_PATCH_FIELDS"
  by (simp_all add: config_patch_fields_def PATCH_FIELDS_def tun_patch_fields_def TUN_PATCH_FIELDS_def
      tuic_server_patch_fields_def TUIC_SERVER_PATCH_FIELDS_def)

lemma filter_mapping_mget:
  assumes "filter_mapping (YMapping m) allowed = Inr w"
  shows "\<exists>n. w = YMapping n \<and> (\<forall>k. mget n k = (if k \<in> set allowed then mget m k else None))"
proof -
  have keys: "list_all (\<lambda>(k, _). key_str k \<noteq> None) m"
    and w: "w = YMapping (filter (\<lambda>(k, _). the (key_str k) \<in> set allowed) m)"
    using assms by (auto simp: filter_mapping_def split: if_splits)
  have "mget (filter (\<lambda>(k, _). the (key_str k) \<in> set allowed) m) k = (if k \<in> set allowed then mget m k else None)" for k
    using keys by (induction m) (auto simp: mget_def split: ykey.splits)
  then show ?thesis using w by blast
qed

lemma config_patch_member:
  assumes "(f, root) \<in> set (config_patch_fields c)"
  shows "map_of (map prod.swap (config_patch_fields c)) root = Some f"
  using assms patch_tables(1) [of c] patch_tables(2) by (intro map_of_is_SomeI) (auto simp: comp_def)

lemma patch_root_member:
  assumes "root \<in> set PATCH_FIELDS"
  obtains f where "(f, root) \<in> set (config_patch_fields c)"
  using assms unfolding patch_tables(1) [of c, symmetric] by auto

lemma nested_member:
  "(decode_struct c tun_patch_fields, ''tun'') \<in> set (config_patch_fields c)"
  "(decode_struct c tuic_server_patch_fields, ''tuic-server'') \<in> set (config_patch_fields c)"
  by (simp_all add: config_patch_fields_def)

lemma nested_tables:
  assumes "root = ''tun'' \<or> root = ''tuic-server''"
  shows "distinct (map fst (nested_fields root))" "''enable'' \<notin> fst ` set (nested_fields root)"
    "(decode_struct c (nested_fields root), root) \<in> set (config_patch_fields c)"
proof -
  have "distinct (''enable'' # map fst (nested_fields root))"
    using assms patch_tables(4,6) unfolding patch_tables(3,5) [symmetric] by (auto simp: nested_fields_def)
  then show "distinct (map fst (nested_fields root))" "''enable'' \<notin> fst ` set (nested_fields root)" by auto
  show "(decode_struct c (nested_fields root), root) \<in> set (config_patch_fields c)"
    using assms nested_member by (auto simp: nested_fields_def)
qed

lemma patch_carries_root:
  assumes "decode_config_patch c doc = Some p" "root \<in> set PATCH_FIELDS" "mget doc root = Some v" "v \<noteq> YNull"
  shows "mget p root = patch_decoder c [root] v \<and> patch_decoder c [root] v \<noteq> None"
proof -
  obtain f where f: "(f, root) \<in> set (config_patch_fields c)" using patch_root_member assms(2) .
  have d: "distinct (map snd (config_patch_fields c))" using patch_tables(1) [of c] patch_tables(2) by simp
  have "mget p root = f v"
    using decode_fields_mget [OF assms(1) [unfolded decode_config_patch_def] d f] assms(3,4)
    by (simp add: field_out_def split: yaml.splits)
  moreover have "f v \<noteq> None"
    using decode_fields_ok [OF assms(1) [unfolded decode_config_patch_def] f assms(3,4)] .
  ultimately show ?thesis using config_patch_member [OF f] by simp
qed

lemma decode_struct_ok:
  assumes "decode_struct c fs (YMapping m) = Some w" "(name, t) \<in> set fs" "mget m name = Some v" "v \<noteq> YNull"
  shows "decode_field c t v \<noteq> None"
proof -
  obtain rest where "decode_fields (map (\<lambda>(name, t). (decode_field c t, name)) fs) m = Some rest"
    using assms(1) by (auto simp: decode_struct_def split: option.splits)
  then show ?thesis using assms(2-4) by (intro decode_fields_ok) force+
qed

lemma patch_carries_nested:
  assumes "decode_config_patch c doc = Some p" "root = ''tun'' \<or> root = ''tuic-server''"
    and "mget doc root = Some (YMapping n)" "f \<in> insert ''enable'' (fst ` set (nested_fields root))"
    and "mget n f = Some v" "v \<noteq> YNull" "f = ''enable'' \<Longrightarrow> as_bool v \<noteq> None"
  shows "value_at (YMapping p) [root, f] = patch_decoder c [root, f] v \<and> patch_decoder c [root, f] v \<noteq> None"
proof -
  note tables = nested_tables [OF assms(2)]
  have "root \<in> set PATCH_FIELDS" using assms(2) by (auto simp: PATCH_FIELDS_def)
  then obtain w where w: "mget p root = Some w" "decode_struct c (nested_fields root) (YMapping n) = Some w"
    using patch_carries_root [OF assms(1) _ assms(3)] config_patch_member [OF tables(3)] by auto
  obtain q where q: "w = YMapping q" "\<forall>v. mget n ''enable'' = Some v \<longrightarrow> mget q ''enable'' = Some v"
    "\<forall>name t. (name, t) \<in> set (nested_fields root) \<longrightarrow> mget q name = field_out (decode_field c t) (mget n name)"
    using decode_struct_mget [OF w(2) tables(1,2)] by blast
  have at: "value_at (YMapping p) [root, f] = mget q f" using w(1) q(1) by (cases "mget q f") simp_all
  show ?thesis
  proof (cases "f = ''enable''")
    case True
    then show ?thesis
      using at q(2) assms(5,7) w(2) by (auto simp: decode_struct_def decode_enable_def split: option.splits) 
        (cases v; simp)+
  next
    case False
    then obtain t where t: "(f, t) \<in> set (nested_fields root)" using assms(4) by auto
    then have "map_of (nested_fields root) f = Some t" using tables(1) by simp
    then show ?thesis
      using at q(3) t assms(5,6) False decode_struct_ok [OF w(2) t assms(5,6)]
      by (auto simp: field_out_def split: yaml.splits)
  qed
qed

lemma patch_changes_decoded:
  assumes "classify_documents c current desired = Inr (ChPatch p proj)"
  obtains doc where "patchable (diff current desired)"
    "patch_document desired (changed_roots (diff current desired)) [] = Inr (Some doc)"
    "\<not> enable_missing doc ''tun''" "\<not> enable_missing doc ''tuic-server''"
    "decode_config_patch c doc = Some p" "proj = collect_leaves (YMapping p) []"
  using assms
  by (auto simp: classify_documents_def build_patch_def Let_def split: if_splits sum.splits option.splits)

text \<open>C23: A patch carries every change.  When a change of documents is classified as a patch, then for
  each difference the patch holds, at the key the patch structure has for it (a root, or a field below
  \<open>tun\<close> or \<open>tuic-server\<close>), exactly the desired value as the structure decodes it, provided that value
  is not null; and the projection checked afterwards lists every leaf of the patch.\<close>

theorem patch_carries_changes:
  assumes "canonical (YMapping current)" "canonical (YMapping desired)"
    and "classify_documents c current desired = Inr (ChPatch p proj)"
    and "e \<in> set (diff current desired)"
    and "value_at (YMapping desired) (patch_key (d_path e)) = Some v" "v \<noteq> YNull"
  shows "value_at (YMapping p) (patch_key (d_path e)) = patch_decoder c (patch_key (d_path e)) v \<and>
    patch_decoder c (patch_key (d_path e)) v \<noteq> None \<and> proj = collect_leaves (YMapping p) []"
proof -
  obtain doc where doc: "patchable (diff current desired)"
    "patch_document desired (changed_roots (diff current desired)) [] = Inr (Some doc)"
    "\<not> enable_missing doc ''tun''" "\<not> enable_missing doc ''tuic-server''"
    "decode_config_patch c doc = Some p" "proj = collect_leaves (YMapping p) []"
    using patch_changes_decoded [OF assms(3)] .
  obtain root rest where path: "d_path e = root # rest" and root: "root \<in> set PATCH_FIELDS"
    and nested: "patch_nested_path_is_supported (root # rest)"
    using doc(1) assms(4) by (cases "d_path e") (auto simp: patchable_def list_all_iff)
  have "root \<in> set (changed_roots (diff current desired))" using assms(4) path by (auto simp: set_changed_roots)
  then obtain v0 w where v0: "mget desired root = Some v0" "patch_value root v0 = Inr w" "mget doc root = Some w"
    using patch_document_mget(2) [OF doc(2) distinct_changed_roots] by blast
  show ?thesis
  proof (cases "root = ''tun'' \<or> root = ''tuic-server''")
    case False
    then have key: "patch_key (d_path e) = [root]" by (simp add: path patch_key_def)
    moreover have "w = v" using assms(5) v0 False unfolding key by (simp add: patch_value_def)
    ultimately show ?thesis
      using patch_carries_root [OF doc(5) root v0(3)] assms(6) doc(6) by (simp del: value_at.simps patch_decoder.simps)
  next
    case True
    define allowed where "allowed = (if root = ''tun'' then TUN_PATCH_FIELDS else TUIC_SERVER_PATCH_FIELDS)"
    have allowed: "set allowed = insert ''enable'' (fst ` set (nested_fields root))"
      using True unfolding allowed_def patch_tables(3,5) [symmetric] by (auto simp: nested_fields_def)
    obtain f rest' where rest: "rest = f # rest'" "f \<in> set allowed"
      using nested True by (auto simp: patch_nested_path_is_supported_def allowed_def split: list.splits)
    then have key: "patch_key (d_path e) = [root, f]" using True by (auto simp: path patch_key_def)
    have "filter_mapping v0 allowed = Inr w" using v0(2) True by (auto simp: patch_value_def allowed_def)
    moreover obtain m0 where m0: "v0 = YMapping m0" "mget m0 f = Some v"
      using assms(5) v0(1) canonical_mapping_member [OF assms(2) v0(1)] unfolding key
      by (auto split: option.splits simp del: canonical.simps)
    ultimately obtain n where n: "w = YMapping n" "mget n f = Some v"
      using filter_mapping_mget rest(2) by fastforce
    have "as_bool v \<noteq> None" if "f = ''enable''"
      using True doc(3,4) v0(3) n that by (auto simp: enable_missing_def)
    then show ?thesis
      using patch_carries_nested [OF doc(5) True v0(3) [unfolded n(1)] _ n(2) assms(6)] rest(2) allowed doc(6)
      unfolding key by blast
  qed
qed

lemma patch_carries_changes_witness:
  "\<exists>p. classify_documents toy_ip [(KStr ''mixed-port'', YNumber (PosInt 7890)), (KStr ''mode'', YString ''rule'')]
     [(KStr ''mixed-port'', YNumber (PosInt 7891)), (KStr ''mode'', YString ''rule'')]
     = Inr (ChPatch p (collect_leaves (YMapping p) [])) \<and>
   value_at (YMapping p) [''mixed-port''] = Some (YNumber (PosInt 7891))"
proof -
  let ?a = "[(KStr ''mixed-port'', YNumber (PosInt 7890)), (KStr ''mode'', YString ''rule'')]"
  let ?b = "[(KStr ''mixed-port'', YNumber (PosInt 7891)), (KStr ''mode'', YString ''rule'')]"
  let ?p = "[(KStr ''mixed-port'', YNumber (PosInt 7891))]"
  let ?e = "\<lparr>d_path = [''mixed-port''], d_new = Some (YNumber (PosInt 7891))\<rparr>"
  have a: "canonical (YMapping ?a)" and b: "canonical (YMapping ?b)" by code_simp+
  have c: "classify_documents toy_ip ?a ?b = Inr (ChPatch ?p [([''mixed-port''], YNumber (PosInt 7891))])"
    by code_simp
  have e: "?e \<in> set (diff ?a ?b)" by code_simp
  have at: "value_at (YMapping ?b) (patch_key (d_path ?e)) = Some (YNumber (PosInt 7891))" by code_simp
  have dec: "patch_decoder toy_ip (patch_key (d_path ?e)) (YNumber (PosInt 7891)) = Some (YNumber (PosInt 7891))"
    and key: "patch_key (d_path ?e) = [''mixed-port'']"
    by code_simp+
  show ?thesis
    using patch_carries_changes [OF a b c e at] c dec unfolding key by auto
qed


end
