(* ===== verification/Bootstrap.thy ===== *)
theory Bootstrap
  imports Mihomo
begin

text \<open>
  What the bootstrap document of a graceful switch is good for: it differs from the full document in the
  numeric inbound ports and the tunnel flag only, the patch that restores it is always found, and when
  the overlap test passes it opens no listener.
\<close>

section \<open>The zeroed document\<close>

definition zero_port :: "yaml \<Rightarrow> yaml" where
  "zero_port v = (case as_i64 v of Some i \<Rightarrow> if i \<noteq> 0 then YNumber (PosInt 0) else v | None \<Rightarrow> v)"

definition zero_tun :: "yaml \<Rightarrow> yaml" where
  "zero_tun v =
     (case as_mapping v of
        Some tun \<Rightarrow>
          if Option.bind (mget tun ''enable'') as_bool = Some True
          then YMapping (minsert ''enable'' (YBool False) tun) else v
      | None \<Rightarrow> v)"

definition zero_value :: "string \<Rightarrow> yaml \<Rightarrow> yaml" where
  "zero_value k v =
     (if k \<in> set INBOUND_PORT_FIELDS then zero_port v else if k = ''tun'' then zero_tun v else v)"

lemma mget_zero_listener:
  "mget (zero_listener key d) k = (if k = key then map_option zero_port (mget d k) else mget d k)"
  by (cases "mget d key") (auto simp: zero_listener_def zero_port_def split: option.splits)

lemma zero_port_idem [simp]: "zero_port (zero_port v) = zero_port v"
  by (auto simp: zero_port_def split: option.splits)

lemma mget_zero_listeners:
  "mget (fold zero_listener keys d) k = (if k \<in> set keys then map_option zero_port (mget d k) else mget d k)"
  by (induction keys arbitrary: d) (auto simp: mget_zero_listener option.map_comp comp_def)

lemma mget_zero_inbounds: "mget (zero_inbounds d) k = map_option (zero_value k) (mget d k)"
proof -
  have tun: "''tun'' \<notin> set INBOUND_PORT_FIELDS" by (simp add: INBOUND_PORT_FIELDS_def)
  show ?thesis
    by (cases "mget d ''tun''"; cases "mget d k")
      (auto simp: zero_inbounds_def Let_def mget_zero_listeners tun zero_value_def zero_tun_def
        split: option.splits)
qed

lemma kinsert_keys: "map_of m k \<noteq> None \<Longrightarrow> map fst (kinsert k v m) = map fst m"
  by (induction k v m rule: kinsert.induct) auto

lemma mkeys_conv: "mkeys m = concat (map (\<lambda>k. case key_str k of None \<Rightarrow> [] | Some s \<Rightarrow> [s]) (map fst m))"
  by (induction m rule: mkeys.induct) simp_all

lemma canonical_minsert_present:
  assumes "canonical (YMapping m)" "mget m k \<noteq> None" "canonical v"
  shows "canonical (YMapping (minsert k v m))"
proof -
  have keys: "map fst (minsert k v m) = map fst m"
    using assms(2) kinsert_keys by (simp add: minsert_def mget_def)
  moreover have "mkeys (minsert k v m) = mkeys m" by (simp only: mkeys_conv keys)
  ultimately show ?thesis
    using assms(1,3) set_kinsert [of "KStr k" v m]
    by (auto simp: list_all_iff minsert_def)
qed

lemma canonical_zero_value: "canonical v \<Longrightarrow> canonical (zero_value k v)"
  by (auto simp: zero_value_def zero_port_def zero_tun_def bind_eq_Some_conv simp del: canonical.simps(1)
      intro!: canonical_minsert_present split: option.splits)

lemma flat_ok_zero_listener: "flat_ok m \<Longrightarrow> flat_ok (zero_listener k m)"
  by (auto simp: zero_listener_def intro!: flat_ok_minsert split: option.splits)

lemma flat_ok_zero_listeners: "flat_ok m \<Longrightarrow> flat_ok (fold zero_listener keys m)"
  by (induction keys arbitrary: m) (simp_all add: flat_ok_zero_listener)

lemma flat_ok_zero_inbounds:
  assumes "canonical (YMapping d)"
  shows "flat_ok (zero_inbounds d)"
proof -
  let ?d = "fold zero_listener INBOUND_PORT_FIELDS d"
  have flat: "flat_ok ?d" using canonical_flat_ok [OF assms] by (rule flat_ok_zero_listeners)
  have tun: "mget ?d ''tun'' = mget d ''tun''"
    by (simp add: mget_zero_listener INBOUND_PORT_FIELDS_def)
  show ?thesis
  proof (cases "Option.bind (mget d ''tun'') as_mapping")
    case None
    then show ?thesis using flat by (simp add: zero_inbounds_def Let_def tun)
  next
    case (Some m)
    then obtain v where v: "mget d ''tun'' = Some v" "as_mapping v = Some m" by (auto simp: bind_eq_Some_conv)
    have m: "canonical (YMapping m)"
      using canonical_mapping_member [OF assms v(1)] v(2) by (simp del: canonical.simps(1))
    have "flat_ok (minsert ''tun'' (YMapping (minsert ''enable'' (YBool False) m)) ?d)"
      if "Option.bind (mget m ''enable'') as_bool = Some True"
    proof (intro flat_ok_minsert canonical_minsert_present)
      show "mget m ''enable'' \<noteq> None" using that by (cases "mget m ''enable''") auto
    qed (use flat m in simp_all)
    then show ?thesis using flat by (simp add: zero_inbounds_def Let_def tun Some)
  qed
qed

lemma controller_key_untouched:
  "k \<in> {EXTERNAL_CONTROLLER, EXTERNAL_CONTROLLER_TLS, EXTERNAL_CONTROLLER_PIPE, EXTERNAL_CONTROLLER_UNIX} \<Longrightarrow>
     zero_value k v = v"
  by (auto simp: zero_value_def INBOUND_PORT_FIELDS_def controller_keys)

lemma effective_source_zero:
  assumes "effective_source env t dir e rewrote settings d = Inr full"
    and "effective_source env t dir e rewrote settings (zero_inbounds d) = Inr boot"
  shows "mget boot k = map_option (zero_value k) (mget full k)"
proof -
  show ?thesis
  proof (cases rewrote)
    case True
    define keep where "keep = (case settings of None \<Rightarrow> False | Some s \<Rightarrow> keep_http_controller s)"
    obtain endpoint where full: "full = rewrite_managed_controller d endpoint keep" and
      boot: "boot = rewrite_managed_controller (zero_inbounds d) endpoint keep"
    proof (cases "managed_endpoint_path env dir t e")
      case (Inr endpoint)
      then show thesis
        using True assms that [of endpoint]
        by (cases "validate_socket_path endpoint") (simp_all add: effective_source_def keep_def)
    qed (use True assms in \<open>simp add: effective_source_def\<close>)
    show ?thesis
      unfolding full boot mget_rewrite mget_zero_inbounds by (auto simp: controller_key_untouched)
  next
    case False
    then show ?thesis
      using assms by (cases settings) (auto simp: effective_source_def mget_zero_inbounds)
  qed
qed

lemma bootstrap_documents:
  assumes "canonical (YMapping (snap_document snap))"
    and "prepare_full env snap t dir e runtime settings = Inr full"
    and "prepare_bootstrap env snap t dir e runtime settings = Inr boot"
  shows "canonical (YMapping (prep_document full))" "canonical (YMapping (prep_document boot))"
    "mget (prep_document boot) k = map_option (zero_value k) (mget (prep_document full) k)"
proof -
  obtain s1 where s1:
    "effective_source env t dir e (LocalIpc \<in> set runtime) settings (snap_document snap) = Inr s1"
    "canonical (YMapping (prep_document full))" "\<forall>k. mget (prep_document full) k = mget s1 k"
    by (rule prepare_Inr [OF assms(2) [unfolded prepare_full_def] canonical_flat_ok [OF assms(1)]])
  obtain s2 where s2:
    "effective_source env t dir e (LocalIpc \<in> set runtime) settings (zero_inbounds (snap_document snap)) = Inr s2"
    "canonical (YMapping (prep_document boot))" "\<forall>k. mget (prep_document boot) k = mget s2 k"
    by (rule prepare_Inr [OF assms(3) [unfolded prepare_bootstrap_def] flat_ok_zero_inbounds [OF assms(1)]])
  show "canonical (YMapping (prep_document full))" "canonical (YMapping (prep_document boot))" using s1(2) s2(2) by blast+
  show "mget (prep_document boot) k = map_option (zero_value k) (mget (prep_document full) k)"
    using effective_source_zero [OF s1(1) s2(1)] s1(3) s2(3) by simp
qed

section \<open>Restoring\<close>

text \<open>A zeroed document and the one it came from.\<close>

definition zeroed :: "mapping \<Rightarrow> mapping \<Rightarrow> bool" where
  "zeroed boot full =
     (canonical (YMapping boot) \<and> canonical (YMapping full) \<and>
      (\<forall>k. mget boot k = map_option (zero_value k) (mget full k)))"

lemma value_at_Cons:
  "value_at (YMapping m) (k # p) = Option.bind (mget m k) (\<lambda>v. value_at v p)"
  by (cases "mget m k") simp_all

lemma zero_port_number: "zero_port v \<noteq> v \<Longrightarrow> canonical v \<Longrightarrow> \<exists>n. v = YNumber n"
  by (cases v) (auto simp: zero_port_def split: option.splits)

lemma zero_tun_mapping:
  assumes "canonical v" "zero_tun v \<noteq> v"
  shows "\<exists>m. v = YMapping m \<and> mget m ''enable'' = Some (YBool True) \<and>
    zero_tun v = YMapping (minsert ''enable'' (YBool False) m)"
proof -
  obtain m where m: "v = YMapping m" using assms by (cases v) (auto simp: zero_tun_def)
  have enable: "Option.bind (mget m ''enable'') as_bool = Some True"
    using assms(2) by (simp add: m zero_tun_def split: if_splits)
  then obtain w where w: "mget m ''enable'' = Some w" "as_bool w = Some True" by (auto simp: bind_eq_Some_conv)
  have "canonical w" using canonical_mapping_member assms(1) w(1) unfolding m by blast
  then have "w = YBool True" using w(2) by (cases w) auto
  then show ?thesis using w enable by (simp add: m zero_tun_def)
qed

lemma zeroed_diff_path:
  assumes z: "zeroed boot full" and e: "e \<in> set (diff boot full)"
  shows "(\<exists>k \<in> set INBOUND_PORT_FIELDS. d_path e = [k]) \<or>
     d_path e = [''tun'', ''enable''] \<and> (\<exists>m. mget full ''tun'' = Some (YMapping m) \<and> mget m ''enable'' = Some (YBool True))"
proof -
  have can: "canonical (YMapping boot)" "canonical (YMapping full)" using z by (auto simp: zeroed_def)
  obtain k rest where path: "d_path e = k # rest"
    using diff_root [OF can e] by (cases "d_path e") auto
  have "value_at (YMapping boot) (k # rest) \<noteq> value_at (YMapping full) (k # rest)"
    using diff_sound(1) [OF can e] path by simp
  moreover have "mget boot k = map_option (zero_value k) (mget full k)" using z by (simp add: zeroed_def)
  ultimately obtain v where v: "mget full k = Some v" "value_at (zero_value k v) rest \<noteq> value_at v rest"
    unfolding value_at_Cons by (cases "mget full k") auto
  have cv: "canonical v" using canonical_mapping_member [OF can(2) v(1)] .
  have ne: "zero_value k v \<noteq> v" using v(2) by auto
  show ?thesis
  proof (cases "k \<in> set INBOUND_PORT_FIELDS")
    case True
    then have zp: "zero_port v \<noteq> v" "value_at (zero_port v) rest \<noteq> value_at v rest"
      using ne v(2) by (auto simp: zero_value_def)
    then obtain n where "v = YNumber n" using zero_port_number cv by blast
    then have "rest = []" using zp by (cases rest) (auto simp: zero_port_def split: option.splits if_splits)
    then show ?thesis using True path by simp
  next
    case False
    then have tun: "k = ''tun''" "zero_tun v \<noteq> v" using ne by (auto simp: zero_value_def split: if_splits)
    then obtain m where m: "v = YMapping m" "mget m ''enable'' = Some (YBool True)"
      "zero_tun v = YMapping (minsert ''enable'' (YBool False) m)"
      using zero_tun_mapping [OF cv] by blast
    have zm: "zero_value k v = YMapping (minsert ''enable'' (YBool False) m)"
      using False tun(1) m by (simp add: zero_value_def)
    have "rest \<noteq> []"
    proof
      assume "rest = []"
      then have "value_at (YMapping boot) (d_path e) = Some (zero_value k v)"
        "value_at (YMapping full) (d_path e) = Some (YMapping m)"
        using path v(1) m(1) z by (simp_all add: value_at_Cons zeroed_def)
      then show False using diff_leaf(2) [OF can e] m(2) zm by fastforce
    qed
    then obtain f rest' where rest: "rest = f # rest'" by (cases rest) auto
    have "value_at (YMapping (minsert ''enable'' (YBool False) m)) rest \<noteq> value_at (YMapping m) rest"
      using v(2) zm m(1) by simp
    then have differ: "Option.bind (mget (minsert ''enable'' (YBool False) m) f) (\<lambda>v. value_at v rest')
        \<noteq> Option.bind (mget m f) (\<lambda>v. value_at v rest')"
      unfolding rest value_at_Cons .
    then have "f = ''enable''" by (auto split: if_splits)
    moreover have "rest' = []"
      using differ m(2) calculation by (cases rest') auto
    ultimately show ?thesis using path rest tun(1) v(1) m by simp
  qed
qed

lemma patchable_zeroed:
  assumes "zeroed boot full"
  shows "patchable (diff boot full)"
  unfolding patchable_def list_all_iff
proof (intro ballI conjI)
  fix e assume e: "e \<in> set (diff boot full)"
  have can: "canonical (YMapping boot)" "canonical (YMapping full)" using assms by (auto simp: zeroed_def)
  note differ = diff_sound [OF can e]
  have boot: "mget boot k = map_option (zero_value k) (mget full k)" for k using assms by (simp add: zeroed_def)
  from zeroed_diff_path [OF assms e] show "d_new e \<noteq> None"
  proof
    assume "\<exists>k \<in> set INBOUND_PORT_FIELDS. d_path e = [k]"
    then obtain k where "d_path e = [k]" by blast
    then show ?thesis using differ boot [of k] by (cases "mget full k") (simp_all del: value_at.simps)
  next
    assume "d_path e = [''tun'', ''enable''] \<and>
      (\<exists>m. mget full ''tun'' = Some (YMapping m) \<and> mget m ''enable'' = Some (YBool True))"
    then show ?thesis using differ(2) by auto
  qed
  show "case d_path e of [] \<Rightarrow> False
      | root # _ \<Rightarrow> root \<in> set PATCH_FIELDS \<and> patch_nested_path_is_supported (d_path e)"
    using zeroed_diff_path [OF assms e]
    by (auto simp: INBOUND_PORT_FIELDS_def PATCH_FIELDS_def patch_nested_path_is_supported_def
        TUN_PATCH_FIELDS_def)
qed

lemma zeroed_dns:
  assumes "zeroed boot full"
  shows "dns_listen boot = dns_listen full"
proof -
  have "zero_value ''dns'' v = v" for v by (simp add: zero_value_def INBOUND_PORT_FIELDS_def)
  moreover have "mget boot ''dns'' = map_option (zero_value ''dns'') (mget full ''dns'')"
    using assms unfolding zeroed_def by blast
  ultimately have "mget boot ''dns'' = mget full ''dns''" by (cases "mget full ''dns''") simp_all
  then show ?thesis by (simp add: dns_listen_def)
qed

text \<open>The document the restoring patch is decoded from: the changed ports and the patchable part of the
  tunnel.\<close>

lemma zeroed_roots:
  assumes "zeroed boot full" "root \<in> set (changed_roots (diff boot full))"
  shows "root \<in> set INBOUND_PORT_FIELDS \<or>
    root = ''tun'' \<and> (\<exists>m. mget full ''tun'' = Some (YMapping m) \<and> mget m ''enable'' = Some (YBool True))"
proof -
  obtain e rest where e: "e \<in> set (diff boot full)" "d_path e = root # rest"
    using assms(2) by (auto simp: set_changed_roots)
  show ?thesis using zeroed_diff_path [OF assms(1) e(1)] e(2) by auto
qed

lemma patch_document_Inr:
  assumes "\<And>k. k \<in> set roots \<Longrightarrow> \<exists>v w. mget desired k = Some v \<and> patch_value k v = Inr w"
  shows "\<exists>doc. patch_document desired roots acc = Inr (Some doc)"
  using assms
proof (induction roots arbitrary: acc)
  case (Cons k roots)
  obtain v w where "mget desired k = Some v" "patch_value k v = Inr w" using Cons.prems [of k] by auto
  then show ?case using Cons.IH [of "minsert k w acc"] Cons.prems by simp
qed simp

lemma canonical_filter_mapping:
  assumes "canonical (YMapping m)"
  shows "\<exists>n. filter_mapping (YMapping m) allowed = Inr (YMapping n)"
  using canonical_flat_ok [OF assms] by (auto simp: filter_mapping_def flat_ok_def list_all_iff)

lemma port_decoder:
  assumes "k \<in> set INBOUND_PORT_FIELDS" "(f, k) \<in> set (config_patch_fields c)"
  shows "f = decode_i64"
proof -
  have "(decode_i64, k) \<in> set (config_patch_fields c)"
  proof -
    have "decode_field c TI64 = decode_i64" by (rule ext) simp
    then show ?thesis using assms(1) by (auto simp: config_patch_fields_def INBOUND_PORT_FIELDS_def)
  qed
  then show ?thesis using config_patch_member [OF assms(2)] config_patch_member by fastforce
qed

lemma decode_i64_as_i64: "canonical v \<Longrightarrow> as_i64 v \<noteq> None \<Longrightarrow> decode_i64 v = Some v"
  by (induction v rule: decode_i64.induct) (auto split: if_splits)

text \<open>What the changed roots hold in the full document.\<close>

lemma zeroed_changed_port:
  assumes "zeroed boot full" "k \<in> set INBOUND_PORT_FIELDS" "mget boot k \<noteq> mget full k"
  obtains v where "mget full k = Some v" "decode_i64 v = Some v"
proof -
  obtain v where v: "mget full k = Some v" "zero_port v \<noteq> v"
    using assms by (cases "mget full k") (auto simp: zeroed_def zero_value_def)
  moreover have "canonical v" using assms(1) v(1) canonical_mapping_member unfolding zeroed_def by blast
  moreover have "as_i64 v \<noteq> None" using v(2) by (auto simp: zero_port_def split: option.splits)
  ultimately show thesis using that decode_i64_as_i64 by blast
qed

lemma changed_root_differs:
  assumes "zeroed boot full" "root \<in> set (changed_roots (diff boot full))"
  shows "mget boot root \<noteq> mget full root"
proof -
  have can: "canonical (YMapping boot)" "canonical (YMapping full)" using assms by (auto simp: zeroed_def)
  obtain e rest where e: "e \<in> set (diff boot full)" "d_path e = root # rest"
    using assms(2) by (auto simp: set_changed_roots)
  then show ?thesis using diff_sound(1) [OF can e(1)] by (auto simp: value_at_Cons simp del: value_at.simps)
qed

lemma zeroed_patch_document:
  assumes "zeroed boot full"
  obtains doc where "patch_document full (changed_roots (diff boot full)) [] = Inr (Some doc)"
    "\<And>k. k \<notin> set INBOUND_PORT_FIELDS \<Longrightarrow> k \<noteq> ''tun'' \<Longrightarrow> mget doc k = None"
    "\<And>k v. k \<in> set INBOUND_PORT_FIELDS \<Longrightarrow> mget doc k = Some v \<Longrightarrow> mget full k = Some v \<and> decode_i64 v = Some v"
    "\<And>w. mget doc ''tun'' = Some w \<Longrightarrow> \<exists>m. mget full ''tun'' = Some (YMapping m) \<and>
       mget m ''enable'' = Some (YBool True) \<and> filter_mapping (YMapping m) TUN_PATCH_FIELDS = Inr w"
proof -
  let ?roots = "changed_roots (diff boot full)"
  have can: "canonical (YMapping full)" using assms by (simp add: zeroed_def)
  have tun: "\<exists>m n. mget full ''tun'' = Some (YMapping m) \<and> mget m ''enable'' = Some (YBool True) \<and>
      filter_mapping (YMapping m) TUN_PATCH_FIELDS = Inr (YMapping n)" if root: "''tun'' \<in> set ?roots"
  proof -
    have "''tun'' \<notin> set INBOUND_PORT_FIELDS" by (simp add: INBOUND_PORT_FIELDS_def)
    then obtain m where m: "mget full ''tun'' = Some (YMapping m)" "mget m ''enable'' = Some (YBool True)"
      using zeroed_roots [OF assms root] by blast
    then show ?thesis
      using canonical_filter_mapping [OF canonical_mapping_member [OF can m(1)]] by blast
  qed
  have port: "\<exists>v. mget full k = Some v \<and> decode_i64 v = Some v \<and> patch_value k v = Inr v"
    if k: "k \<in> set ?roots" "k \<in> set INBOUND_PORT_FIELDS" for k
  proof -
    obtain v where "mget full k = Some v" "decode_i64 v = Some v"
      using zeroed_changed_port [OF assms k(2) changed_root_differs [OF assms k(1)]] .
    moreover have "k \<noteq> ''tun'' \<and> k \<noteq> ''tuic-server''" using k(2) by (auto simp: INBOUND_PORT_FIELDS_def)
    ultimately show ?thesis by (simp add: patch_value_def)
  qed
  have "\<exists>v w. mget full k = Some v \<and> patch_value k v = Inr w" if root: "k \<in> set ?roots" for k
  proof (cases "k \<in> set INBOUND_PORT_FIELDS")
    case True
    then show ?thesis using port [OF root] by blast
  next
    case False
    then have "k = ''tun''" using zeroed_roots [OF assms root] by blast
    then show ?thesis using tun root by (fastforce simp: patch_value_def)
  qed
  then obtain doc where doc: "patch_document full ?roots [] = Inr (Some doc)"
    using patch_document_Inr by blast
  note get = patch_document_mget [OF doc distinct_changed_roots]
  have in_roots: "k \<in> set ?roots" if "mget doc k = Some w" for k w
    using get(1) [of k] that by (auto split: if_splits)
  show thesis
  proof (rule that [OF doc])
    show "mget doc k = None" if "k \<notin> set INBOUND_PORT_FIELDS" "k \<noteq> ''tun''" for k
    proof (rule ccontr)
      assume "mget doc k \<noteq> None"
      then have "k \<in> set ?roots" using in_roots by blast
      then show False using zeroed_roots [OF assms] that by blast
    qed
    show "mget full k = Some v \<and> decode_i64 v = Some v"
      if k: "k \<in> set INBOUND_PORT_FIELDS" "mget doc k = Some v" for k v
    proof -
      obtain u where u: "mget full k = Some u" "decode_i64 u = Some u" "patch_value k u = Inr u"
        using port [OF in_roots [OF k(2)] k(1)] by blast
      then show ?thesis using get(2) [OF in_roots [OF k(2)]] k(2) by simp
    qed
    show "\<exists>m. mget full ''tun'' = Some (YMapping m) \<and> mget m ''enable'' = Some (YBool True) \<and>
        filter_mapping (YMapping m) TUN_PATCH_FIELDS = Inr w" if w: "mget doc ''tun'' = Some w" for w
    proof -
      obtain m n where m: "mget full ''tun'' = Some (YMapping m)" "mget m ''enable'' = Some (YBool True)"
        "filter_mapping (YMapping m) TUN_PATCH_FIELDS = Inr (YMapping n)"
        using tun [OF in_roots [OF w]] by blast
      then show ?thesis using get(2) [OF in_roots [OF w]] w by (simp add: patch_value_def)
    qed
  qed
qed

lemma mget_doc_tun:
  assumes "filter_mapping (YMapping m) TUN_PATCH_FIELDS = Inr w" "mget m ''enable'' = Some (YBool True)"
  shows "\<exists>n. w = YMapping n \<and> mget n ''enable'' = Some (YBool True)"
  using filter_mapping_mget [OF assms(1)] assms(2) by (auto simp: TUN_PATCH_FIELDS_def)

text \<open>The patchable fields of the tunnel have the types the patch structure wants.\<close>

definition tun_well_typed :: "ip_codec \<Rightarrow> mapping \<Rightarrow> bool" where
  "tun_well_typed c d =
     (case mget d ''tun'' of
        Some tun \<Rightarrow>
          (case filter_mapping tun TUN_PATCH_FIELDS of
             Inl _ \<Rightarrow> True
           | Inr w \<Rightarrow> decode_struct c tun_patch_fields w \<noteq> None)
      | None \<Rightarrow> True)"

lemma restoration_zeroed:
  assumes z: "zeroed boot full" and tun: "tun_well_typed c full"
  shows "boot = full \<and> restoration_patch c boot full = Inr None \<or>
    (\<exists>p proj doc. restoration_patch c boot full = Inr (Some (p, proj)) \<and> decode_config_patch c doc = Some p \<and>
       patch_document full (changed_roots (diff boot full)) [] = Inr (Some doc))"
proof (cases "boot = full")
  case True
  then show ?thesis
    using z diff_Nil_iff [of boot full] canonical_opt_eq [OF canonical_dns_listen canonical_dns_listen, of full full]
    by (simp add: restoration_patch_def classify_documents_def zeroed_def del: canonical.simps)
next
  case False
  have can: "canonical (YMapping boot)" "canonical (YMapping full)" using z by (auto simp: zeroed_def)
  have dns: "opt_eq (dns_listen boot) (dns_listen full)"
    using canonical_opt_eq [OF canonical_dns_listen canonical_dns_listen] can zeroed_dns [OF z] by blast
  obtain doc where doc: "patch_document full (changed_roots (diff boot full)) [] = Inr (Some doc)"
    "\<And>k. k \<notin> set INBOUND_PORT_FIELDS \<Longrightarrow> k \<noteq> ''tun'' \<Longrightarrow> mget doc k = None"
    "\<And>k v. k \<in> set INBOUND_PORT_FIELDS \<Longrightarrow> mget doc k = Some v \<Longrightarrow> mget full k = Some v \<and> decode_i64 v = Some v"
    "\<And>w. mget doc ''tun'' = Some w \<Longrightarrow> \<exists>m. mget full ''tun'' = Some (YMapping m) \<and>
       mget m ''enable'' = Some (YBool True) \<and> filter_mapping (YMapping m) TUN_PATCH_FIELDS = Inr w"
    by (rule zeroed_patch_document [OF z], rule that) blast+
  have "\<not> enable_missing doc ''tun''"
    using doc(4) mget_doc_tun unfolding enable_missing_def by (cases "mget doc ''tun''") fastforce+
  moreover have "\<not> enable_missing doc ''tuic-server''"
    using doc(2) [of "''tuic-server''"] by (simp add: enable_missing_def INBOUND_PORT_FIELDS_def)
  moreover have "\<exists>p. decode_fields (config_patch_fields c) doc = Some p"
  proof (rule decode_fields_Some)
    fix f k v
    assume fk: "(f, k) \<in> set (config_patch_fields c)" "mget doc k = Some v"
    show "f v \<noteq> None"
    proof (cases "k \<in> set INBOUND_PORT_FIELDS")
      case True
      then show ?thesis using port_decoder fk doc(3) by fastforce
    next
      case False
      then have k: "k = ''tun''" using doc(2) fk(2) by force
      then have "f = decode_struct c tun_patch_fields"
        using config_patch_member [OF fk(1)] config_patch_member [OF nested_member(1)] by simp
      then show ?thesis using doc(4) fk(2) tun unfolding k by (auto simp: tun_well_typed_def)
    qed
  qed
  ultimately obtain p where p: "decode_config_patch c doc = Some p"
    "build_patch c full (diff boot full) = Inr (ChPatch p (collect_leaves (YMapping p) []))"
    by (auto simp: build_patch_def doc(1) decode_config_patch_def)
  then show ?thesis
    using doc(1) dns False diff_Nil_iff [OF can] patchable_zeroed [OF z]
    by (auto simp: restoration_patch_def classify_documents_def)
qed

lemma changed_in_roots:
  assumes "zeroed boot full" "mget boot k \<noteq> mget full k"
  shows "k \<in> set (changed_roots (diff boot full))"
  using diff_top_complete [of boot full k] assms by (auto simp: zeroed_def set_changed_roots simp del: canonical.simps)

lemma port_restored:
  assumes z: "zeroed boot full" and k: "k \<in> set INBOUND_PORT_FIELDS" "mget boot k \<noteq> mget full k"
    and doc: "patch_document full (changed_roots (diff boot full)) [] = Inr (Some doc)"
    and p: "decode_config_patch c doc = Some p"
  shows "mget p k = mget full k"
proof -
  obtain v where v: "mget full k = Some v" "decode_i64 v = Some v" using zeroed_changed_port [OF z k] .
  have names: "k \<noteq> ''tun''" "k \<noteq> ''tuic-server''" "k \<in> set PATCH_FIELDS"
    using k(1) by (auto simp: INBOUND_PORT_FIELDS_def PATCH_FIELDS_def)
  have "mget doc k = Some v"
    using patch_document_mget(2) [OF doc distinct_changed_roots changed_in_roots [OF z k(2)]] v(1) names
    by (auto simp: patch_value_def)
  moreover have "v \<noteq> YNull" using v(2) by auto
  ultimately have "mget p k = patch_decoder c [k] v" using patch_carries_root [OF p names(3)] by blast
  moreover obtain f where f: "(f, k) \<in> set (config_patch_fields c)" using patch_root_member [OF names(3)] .
  ultimately show ?thesis
    using config_patch_member [OF f] port_decoder [OF k(1) f] v by simp
qed

lemma tun_restored:
  assumes z: "zeroed boot full" and k: "mget boot ''tun'' \<noteq> mget full ''tun''"
    and doc: "patch_document full (changed_roots (diff boot full)) [] = Inr (Some doc)"
    and p: "decode_config_patch c doc = Some p"
  shows "value_at (YMapping p) [''tun'', ''enable''] = Some (YBool True)"
proof -
  have root: "''tun'' \<in> set (changed_roots (diff boot full))" by (rule changed_in_roots [OF z k])
  have "''tun'' \<notin> set INBOUND_PORT_FIELDS" by (simp add: INBOUND_PORT_FIELDS_def)
  then obtain m where m: "mget full ''tun'' = Some (YMapping m)" "mget m ''enable'' = Some (YBool True)"
    using zeroed_roots [OF z root] by blast
  obtain w where w: "filter_mapping (YMapping m) TUN_PATCH_FIELDS = Inr w" "mget doc ''tun'' = Some w"
    using patch_document_mget(2) [OF doc distinct_changed_roots root] m(1) by (auto simp: patch_value_def)
  obtain n where n: "w = YMapping n" "mget n ''enable'' = Some (YBool True)" using mget_doc_tun [OF w(1) m(2)] by blast
  show ?thesis
    using patch_carries_nested [OF p _ w(2) [unfolded n(1)] _ n(2)] by simp
qed



section \<open>Overlap\<close>

lemma tun_not_open:
  assumes "canonical (YMapping d)" "\<not> tun_blocks d"
  shows "case mget (zero_inbounds d) ''tun'' of None \<Rightarrow> True
      | Some v \<Rightarrow> \<exists>m. v = YMapping m \<and> mget m ''enable'' \<in> {None, Some (YBool False)}"
proof (cases "mget d ''tun''")
  case None
  then show ?thesis by (simp add: mget_zero_inbounds)
next
  case (Some v)
  obtain m where m: "v = YMapping m"
    using assms(2) canonical_mapping_member [OF assms(1) Some] by (cases "as_mapping v") (auto simp: tun_blocks_def Some simp del: canonical.simps)
  have "canonical w" if "mget m ''enable'' = Some w" for w
    using canonical_mapping_member [OF _ that] canonical_mapping_member [OF assms(1) Some] m by blast
  then have "mget m ''enable'' \<in> {None, Some (YBool False), Some (YBool True)}"
    using assms(2) by (cases "mget m ''enable''"; cases "the (mget m ''enable'')") (auto simp: tun_blocks_def Some m)
  then show ?thesis
    by (auto simp: mget_zero_inbounds Some m zero_value_def zero_tun_def INBOUND_PORT_FIELDS_def)
qed

lemma tuic_not_open:
  assumes "canonical (YMapping d)" "\<not> tuic_blocks d"
  shows "case mget (zero_inbounds d) ''tuic-server'' of None \<Rightarrow> True
      | Some v \<Rightarrow> v = YMapping [] \<or> (\<exists>m. v = YMapping m \<and> mget m ''enable'' = Some (YBool False))"
proof (cases "mget d ''tuic-server''")
  case None
  then show ?thesis by (simp add: mget_zero_inbounds)
next
  case (Some v)
  obtain m where m: "v = YMapping m"
    using assms(2) canonical_mapping_member [OF assms(1) Some] by (cases "as_mapping v") (auto simp: tuic_blocks_def Some simp del: canonical.simps)
  have "canonical w" if "mget m ''enable'' = Some w" for w
    using canonical_mapping_member [OF _ that] canonical_mapping_member [OF assms(1) Some] m by blast
  then have "m = [] \<or> mget m ''enable'' = Some (YBool False)"
    using assms(2) by (cases "mget m ''enable''"; cases "the (mget m ''enable'')") (auto simp: tuic_blocks_def Some m)
  then show ?thesis
    by (auto simp: mget_zero_inbounds Some m zero_value_def INBOUND_PORT_FIELDS_def)
qed

text \<open>C28: A bootstrap epoch that passed the overlap test opens no listener of its own.  When the
  document has no DNS listen entry and the test finds nothing, the zeroed document has every numeric
  port absent or zero, its tunnel and its TUIC server not enabled, no legacy inbound configured, and no
  listener or tunnel declared.\<close>

theorem bootstrap_opens_nothing:
  assumes "canonical (YMapping d)" "overlap_block d = None" "dns_listen d = None"
  shows "(\<forall>k \<in> set INBOUND_PORT_FIELDS. case mget (zero_inbounds d) k of None \<Rightarrow> True | Some v \<Rightarrow> as_i64 v = Some 0) \<and>
    (case mget (zero_inbounds d) ''tun'' of
       None \<Rightarrow> True
     | Some v \<Rightarrow> \<exists>m. v = YMapping m \<and> mget m ''enable'' \<in> {None, Some (YBool False)}) \<and>
    (case mget (zero_inbounds d) ''tuic-server'' of
       None \<Rightarrow> True
     | Some v \<Rightarrow> v = YMapping [] \<or> (\<exists>m. v = YMapping m \<and> mget m ''enable'' = Some (YBool False))) \<and>
    (\<forall>k \<in> {''ss-config'', ''vmess-config'', ''tcptun-config'', ''udptun-config''}.
       mget (zero_inbounds d) k \<in> {None, Some (YString [])}) \<and>
    (\<forall>k \<in> {''listeners'', ''tunnels''}. case mget (zero_inbounds d) k of None \<Rightarrow> True | Some v \<Rightarrow> \<not> nonempty_collection v)"
proof (intro conjI)
  have ok: "\<not> port_blocks d" "\<not> tun_blocks d" "\<not> tuic_blocks d" "\<not> legacy_blocks d" "\<not> collection_blocks d"
    using assms(2) by (auto simp: overlap_block_def assms(3) split: if_splits)
  have other: "mget (zero_inbounds d) k = mget d k" if "k \<notin> set INBOUND_PORT_FIELDS" "k \<noteq> ''tun''" for k
    using that by (cases "mget d k") (simp_all add: mget_zero_inbounds zero_value_def)
  have canon: "canonical v" if "mget d k = Some v" for k v using canonical_mapping_member [OF assms(1) that] .
  show "\<forall>k \<in> set INBOUND_PORT_FIELDS. case mget (zero_inbounds d) k of None \<Rightarrow> True | Some v \<Rightarrow> as_i64 v = Some 0"
    using ok(1) by (auto simp: port_blocks_def list_ex_iff mget_zero_inbounds zero_value_def zero_port_def
        split: option.splits)
  show "case mget (zero_inbounds d) ''tun'' of None \<Rightarrow> True
      | Some v \<Rightarrow> \<exists>m. v = YMapping m \<and> mget m ''enable'' \<in> {None, Some (YBool False)}"
    using tun_not_open [OF assms(1) ok(2)] .
  show "case mget (zero_inbounds d) ''tuic-server'' of None \<Rightarrow> True
      | Some v \<Rightarrow> v = YMapping [] \<or> (\<exists>m. v = YMapping m \<and> mget m ''enable'' = Some (YBool False))"
    using tuic_not_open [OF assms(1) ok(3)] .
  show "\<forall>k \<in> {''ss-config'', ''vmess-config'', ''tcptun-config'', ''udptun-config''}.
       mget (zero_inbounds d) k \<in> {None, Some (YString [])}"
  proof
    fix k assume k: "k \<in> {''ss-config'', ''vmess-config'', ''tcptun-config'', ''udptun-config''}"
    then have "mget (zero_inbounds d) k = mget d k" by (intro other) (auto simp: INBOUND_PORT_FIELDS_def)
    moreover have "v = YString []" if "mget d k = Some v" for v
      using ok(4) k that canon [OF that] by (cases v) (auto simp: legacy_blocks_def)
    ultimately show "mget (zero_inbounds d) k \<in> {None, Some (YString [])}" by (cases "mget d k") auto
  qed
  show "\<forall>k \<in> {''listeners'', ''tunnels''}.
      case mget (zero_inbounds d) k of None \<Rightarrow> True | Some v \<Rightarrow> \<not> nonempty_collection v"
    using ok(5) other by (simp add: collection_blocks_def INBOUND_PORT_FIELDS_def split: option.splits)
qed

lemma bootstrap_opens_nothing_witness:
  "overlap_block [(KStr ''mixed-port'', YNumber (PosInt 7890))] = None \<and>
   as_i64 (the (mget (zero_inbounds [(KStr ''mixed-port'', YNumber (PosInt 7890))]) ''mixed-port'')) = Some 0"
proof -
  let ?d = "[(KStr ''mixed-port'', YNumber (PosInt 7890))]"
  have c: "canonical (YMapping ?d)" and o: "overlap_block ?d = None" and l: "dns_listen ?d = None"
    and z: "mget (zero_inbounds ?d) ''mixed-port'' \<noteq> None"
    by code_simp+
  have "''mixed-port'' \<in> set INBOUND_PORT_FIELDS" by (simp add: INBOUND_PORT_FIELDS_def)
  then show ?thesis using bootstrap_opens_nothing [OF c o l] o z by fastforce
qed


end
