(* ===== verification/Status.thy ===== *)
theory Status
  imports Mihomo
begin

text \<open>
  Publication of the manager status (\<open>manager/publish.rs\<close>), with the plan of an epoch it is derived from
  (\<open>manager/mod.rs\<close>).  Every function takes the published status and the clock reading and returns the
  new status; the watch channel itself is the status.
\<close>

section \<open>Plans\<close>

record epoch_plan =
  pl_source_spec :: instance_spec
  pl_effective_spec :: instance_spec
  pl_controller :: resolved_controller
  pl_revision :: config_revision
  pl_capabilities :: "feature list"
  pl_runtime_features :: "runtime_feature list"
  pl_source_document :: mapping
  pl_effective_document :: mapping

definition plan_view :: "epoch_plan \<Rightarrow> classification_view" where
  "plan_view p =
     \<lparr>view_source = pl_source_document p, view_effective = pl_effective_document p,
      view_spec = pl_source_spec p\<rparr>"

definition plan_epoch :: "epoch_plan \<Rightarrow> epoch" where
  "plan_epoch p = rev_epoch (pl_revision p)"

section \<open>Publishing\<close>

definition spec_summary_of :: "epoch_plan \<Rightarrow> spec_summary" where
  "spec_summary_of p =
     \<lparr>sum_kind = cs_kind (is_core (pl_source_spec p)), sum_config_path = is_config_path (pl_source_spec p),
      sum_capabilities = pl_capabilities p, sum_runtime_features = pl_runtime_features p\<rparr>"

definition health_target :: "core_state \<Rightarrow> health_state option" where
  "health_target state =
     (case state of
        CStarting _ \<Rightarrow> Some HStarting
      | CRestarting _ _ \<Rightarrow> Some HStarting
      | CSwitching _ _ \<Rightarrow> Some HStarting
      | CRunning _ _ \<Rightarrow> Some HHealthy
      | CStopping _ \<Rightarrow> None
      | CStopped _ \<Rightarrow> None)"

definition default_health_for_state ::
    "millis \<Rightarrow> health_status option \<Rightarrow> core_state \<Rightarrow> health_status option" where
  "default_health_for_state now previous state =
     (case health_target state of
        None \<Rightarrow> None
      | Some target \<Rightarrow>
          let health = (health_starting now)\<lparr>h_state := target\<rparr> in
          (case previous of
             Some p \<Rightarrow>
               if h_state p = target
               then Some (health\<lparr>h_changed_at := h_changed_at p,
                     h_consecutive_failures := h_consecutive_failures p, h_last_error := h_last_error p,
                     h_last_success_at := h_last_success_at p\<rparr>)
               else Some health
           | None \<Rightarrow> Some health))"

definition publish :: "millis \<Rightarrow> core_state \<Rightarrow> epoch_plan option \<Rightarrow> core_status \<Rightarrow> core_status" where
  "publish now state plan status =
     \<lparr>st_instance_id = None, st_state = state,
      st_changed_at = (if st_state status \<noteq> state then now else st_changed_at status),
      st_health = default_health_for_state now (st_health status) state,
      st_spec = map_option spec_summary_of plan,
      st_controller = map_option (\<lambda>p. rc_host (pl_controller p)) plan,
      st_revision = map_option pl_revision plan\<rparr>"

definition publish_instance ::
    "millis \<Rightarrow> instance_status \<Rightarrow> resolved_controller \<Rightarrow> core_state \<Rightarrow> epoch_plan \<Rightarrow> core_status \<Rightarrow> core_status" where
  "publish_instance now snapshot controller state plan status =
     \<lparr>st_instance_id = i_instance_id snapshot, st_state = state,
      st_changed_at = (if st_state status \<noteq> state then now else st_changed_at status),
      st_health = i_health snapshot, st_spec = Some (spec_summary_of plan),
      st_controller = Some (rc_host controller), st_revision = Some (pl_revision plan)\<rparr>"

text \<open>The committed configuration sent along with a running publication.\<close>

record config_commit =
  cc_instance_id :: uuid
  cc_revision :: config_revision
  cc_config :: mapping

definition config_commit_of ::
    "instance_status \<Rightarrow> core_state \<Rightarrow> epoch_plan \<Rightarrow> config_commit option \<Rightarrow> config_commit option" where
  "config_commit_of snapshot state plan previous =
     (case (state, i_instance_id snapshot) of
        (CRunning _ _, Some i) \<Rightarrow>
          Some \<lparr>cc_instance_id = i, cc_revision = pl_revision plan, cc_config = pl_effective_document plan\<rparr>
      | _ \<Rightarrow> previous)"

fun instance_core_state :: "epoch \<Rightarrow> instance_state \<Rightarrow> core_state" where
  "instance_core_state e IStarting = CStarting e"
| "instance_core_state e (IRunning pid) = CRunning e pid"
| "instance_core_state e (IRestarting attempt) = CRestarting e attempt"
| "instance_core_state e IStopping = CStopping e"
| "instance_core_state e (IStopped reason) = CStopped (Some reason)"

text \<open>\<open>apply_epoch_status\<close>: whether watchers are woken, and the status.\<close>

definition apply_epoch_status :: "millis \<Rightarrow> epoch \<Rightarrow> instance_status \<Rightarrow> core_status \<Rightarrow> bool \<times> core_status" where
  "apply_epoch_status now epoch inst status =
     (if map_option rev_epoch (st_revision status) \<noteq> Some epoch then (False, status)
      else let state = instance_core_state epoch (i_state inst);
               lifecycle_changed = (st_state status \<noteq> state);
               health_changed = (st_health status \<noteq> i_health inst)
           in if \<not> lifecycle_changed \<and> \<not> health_changed \<and> st_instance_id status = i_instance_id inst
              then (False, status)
              else (True, status\<lparr>st_instance_id := i_instance_id inst, st_state := state,
                     st_changed_at := (if lifecycle_changed then now else st_changed_at status),
                     st_health := i_health inst\<rparr>))"

definition publish_epoch_status :: "millis \<Rightarrow> epoch \<Rightarrow> instance_status \<Rightarrow> core_status \<Rightarrow> core_status" where
  "publish_epoch_status now epoch inst status = snd (apply_epoch_status now epoch inst status)"

definition terminal_error_state :: "error \<Rightarrow> core_state" where
  "terminal_error_state e = CStopped (Some (ErrorReason (error_to_string e)))"

section \<open>What a status may say\<close>

text \<open>The epoch a state speaks of, when it speaks of one that is running or coming up.\<close>

fun state_epoch :: "core_state \<Rightarrow> epoch option" where
  "state_epoch (CStarting e) = Some e"
| "state_epoch (CRunning e _) = Some e"
| "state_epoch (CRestarting e _) = Some e"
| "state_epoch (CSwitching _ e) = Some e"
| "state_epoch (CStopping e) = Some e"
| "state_epoch (CStopped _) = None"

text \<open>A state that speaks of an epoch comes with that epoch's revision, and a revision comes with its
  specification and controller.\<close>

definition status_ok :: "core_status \<Rightarrow> bool" where
  "status_ok s =
     ((\<forall>e. state_epoch (st_state s) = Some e \<longrightarrow> map_option rev_epoch (st_revision s) = Some e) \<and>
      (st_revision s \<noteq> None \<longleftrightarrow> st_spec s \<noteq> None) \<and> (st_revision s \<noteq> None \<longleftrightarrow> st_controller s \<noteq> None))"

lemma status_ok_initial: "status_ok (core_status_initial now)"
  by (simp add: status_ok_def core_status_initial_def)

lemma status_ok_publish:
  "(\<And>e. state_epoch state = Some e \<Longrightarrow> map_option plan_epoch plan = Some e) \<Longrightarrow> status_ok (publish now state plan s)"
  by (auto simp: status_ok_def publish_def plan_epoch_def option.map_comp comp_def)

lemma status_ok_publish_instance:
  "(\<And>e. state_epoch state = Some e \<Longrightarrow> plan_epoch plan = e) \<Longrightarrow>
     status_ok (publish_instance now snapshot controller state plan s)"
  by (auto simp: status_ok_def publish_instance_def plan_epoch_def)

lemma state_epoch_instance: "state_epoch (instance_core_state e i) = Some e' \<Longrightarrow> e' = e"
  by (cases i) auto

lemma status_ok_epoch_status: "status_ok s \<Longrightarrow> status_ok (publish_epoch_status now epoch inst s)"
  by (auto simp: status_ok_def publish_epoch_status_def apply_epoch_status_def Let_def dest: state_epoch_instance)

text \<open>C31: Events of an instance change the published status only while it describes that instance's
  epoch.  An event of any other epoch is dropped without waking a watcher; an accepted one leaves
  revision, specification and controller alone, shows exactly the event's state, health and identity,
  moves the change time only when the lifecycle state changes, and wakes watchers exactly when
  something is different.\<close>

theorem epoch_status_is_isolated:
  "(map_option rev_epoch (st_revision s) \<noteq> Some epoch \<longrightarrow> apply_epoch_status now epoch inst s = (False, s)) \<and>
   (map_option rev_epoch (st_revision s) = Some epoch \<longrightarrow>
      (let (woken, s') = apply_epoch_status now epoch inst s in
       st_revision s' = st_revision s \<and> st_spec s' = st_spec s \<and> st_controller s' = st_controller s \<and>
       st_state s' = instance_core_state epoch (i_state inst) \<and> st_health s' = i_health inst \<and>
       st_instance_id s' = i_instance_id inst \<and>
       st_changed_at s' = (if st_state s' = st_state s then st_changed_at s else now) \<and>
       (woken \<longleftrightarrow> st_state s' \<noteq> st_state s \<or> st_health s' \<noteq> st_health s \<or> st_instance_id s' \<noteq> st_instance_id s)))"
  by (auto simp: apply_epoch_status_def Let_def)

definition toy_revision :: config_revision where
  "toy_revision =
     \<lparr>rev_epoch = Epoch 9, rev_generation = 1, rev_source_hash = ''s'', rev_effective_hash = ''e'',
      rev_runtime_path = ''config-9.yaml''\<rparr>"

lemma epoch_status_is_isolated_witness:
  "apply_epoch_status 5 (Epoch 8) \<lparr>i_instance_id = None, i_state = IRunning 80, i_health = None\<rparr>
     ((core_status_initial 0)\<lparr>st_revision := Some toy_revision, st_state := CRunning (Epoch 9) 90\<rparr>) =
   (False, (core_status_initial 0)\<lparr>st_revision := Some toy_revision, st_state := CRunning (Epoch 9) 90\<rparr>)"
proof -
  let ?s = "(core_status_initial 0)\<lparr>st_revision := Some toy_revision, st_state := CRunning (Epoch 9) 90\<rparr>"
  have "map_option rev_epoch (st_revision ?s) \<noteq> Some (Epoch 8)" by (simp add: toy_revision_def)
  then show ?thesis using epoch_status_is_isolated by blast
qed

end
