(* ===== verification/Manager_State.thy ===== *)
theory Manager_State
  imports Store_Contract Bootstrap Status
begin

text \<open>
  The state of the manager and the steps its transactions share (\<open>manager/mod.rs\<close>, \<open>publish.rs\<close>,
  \<open>quarantine.rs\<close>): epoch allocation, publication, the quarantine, retiring and installing an instance,
  artifact cleanup and feature resolution.

  Every public operation holds the control lock, so transactions do not interleave with each other;
  what does run beside them is the forwarder, which copies instance events into the published status.
  \<open>awaited\<close> delivers whatever events it forwarded during an awaited call.

  \<open>inner\<close> collects the options, the store directory and everything outside the crate: the runtime
  backend, the core's HTTP interface, the DNS controller, the reaper, the clock.  The state also carries
  two ghost fields that no operation reads: the epochs whose process was launched and not proven dead,
  and for each launch the list of those at that moment.
\<close>

section \<open>The outside\<close>

record runtime_instance =
  ri_id :: nat
  ri_epoch :: epoch
  ri_spec :: instance_spec
  ri_controller :: resolved_controller

record launch_request =
  lr_capabilities :: "feature list"
  lr_effective_spec :: instance_spec
  lr_epoch :: epoch
  lr_controller :: resolved_controller

datatype orphan_reap_outcome = ReapNotFound | AlreadyExited | Killed

datatype dns_override_state = DnsApplied | RestorePending

record dns_override_record =
  dr_interface :: string
  dr_previous :: "string list"
  dr_applied :: "string list"
  dr_runtime_epoch :: "64 word"
  dr_owner_generation :: "64 word option"
  dr_state :: dns_override_state

text \<open>A DNS controller; a call that outlives the timeout has no result.\<close>

record 'w dns_controller =
  dc_desired :: "mapping \<Rightarrow> string list option"
  dc_apply :: "string list \<Rightarrow> epoch \<Rightarrow> 'w \<Rightarrow> (string, dns_override_record) result option \<times> 'w"
  dc_restore :: "dns_override_record \<Rightarrow> 'w \<Rightarrow> (string, unit) result option \<times> 'w"

text \<open>The runtime backend answers a launch with the handle of the instance; its accessors report the
  request.  \<open>inn_cut\<close> decides whether a timeout interrupts the steps it guards and with what world;
  \<open>inn_events\<close> is what the forwarder of an epoch has received since it was last asked.\<close>

record 'w inner =
  inn_options :: manager_options
  inn_dir :: string
  inn_fs :: "'w file_sys"
  inn_versions :: "'w version_sys"
  inn_env :: "'w \<Rightarrow> config_env"
  inn_codec :: ip_codec
  inn_now :: "'w \<Rightarrow> millis"
  inn_access :: "bool option"
  inn_dns :: "'w dns_controller option"
  inn_launch :: "launch_request \<Rightarrow> 'w \<Rightarrow> (error, nat) result \<times> 'w"
  inn_wait_ready :: "runtime_instance \<Rightarrow> 'w \<Rightarrow> (error, unit) result \<times> 'w"
  inn_stop :: "runtime_instance \<Rightarrow> duration \<Rightarrow> 'w \<Rightarrow> (error, unit) result \<times> 'w"
  inn_state :: "runtime_instance \<Rightarrow> 'w \<Rightarrow> instance_status"
  inn_pid :: "runtime_instance \<Rightarrow> 'w \<Rightarrow> 32 word option"
  inn_probe :: "runtime_instance \<Rightarrow> 'w \<Rightarrow> bool \<times> 'w"
  inn_check_config :: "instance_spec \<Rightarrow> 'w \<Rightarrow> (error, unit) result \<times> 'w"
  inn_build_client :: "resolved_controller \<Rightarrow> duration \<Rightarrow> bool"
  inn_patch_config :: "resolved_controller \<Rightarrow> mapping \<Rightarrow> 'w \<Rightarrow> bool \<times> 'w"
  inn_get_configs :: "resolved_controller \<Rightarrow> 'w \<Rightarrow> (string, (string, yaml) result) result \<times> 'w"
  inn_update_config :: "resolved_controller \<Rightarrow> string \<Rightarrow> 'w \<Rightarrow> bool \<times> 'w"
  inn_cut :: "duration \<Rightarrow> 'w \<Rightarrow> 'w option"
  inn_events :: "epoch \<Rightarrow> 'w \<Rightarrow> instance_status list \<times> 'w"
  inn_reap :: "string \<Rightarrow> string \<Rightarrow> 'w \<Rightarrow> (error, orphan_reap_outcome) result \<times> 'w"
  inn_try_exists :: "string \<Rightarrow> 'w \<Rightarrow> (io_error, bool) result \<times> 'w"
  inn_write_file :: "string \<Rightarrow> string \<Rightarrow> 'w \<Rightarrow> (io_error, unit) result \<times> 'w"
  inn_encode_record :: "dns_override_record \<Rightarrow> (string, string) result"
  inn_decode_record :: "string \<Rightarrow> dns_override_record option"
  inn_prepare_sink :: "'w \<Rightarrow> (error, unit) result \<times> 'w"
  inn_stop_sink :: "'w \<Rightarrow> 'w"

section \<open>State\<close>

record quarantined_epoch =
  q_epoch :: epoch
  q_reason :: string
  q_death_proven :: bool

record active =
  ac_instance :: runtime_instance
  ac_plan :: epoch_plan

record 'w mgr = "'w sys_state" +
  m_last_epoch :: "64 word"
  m_current :: "active option"
  m_last_spec :: "instance_spec option"
  m_quarantine :: "quarantined_epoch list"
  m_dns_record :: "dns_override_record option"
  m_status :: core_status
  m_commits :: "config_commit option"
  m_cache :: version_cache
  m_log_sink :: bool
  g_alive :: "epoch list"
  g_launches :: "(epoch \<times> epoch list) list"

type_synonym ('w, 'a) mact = "('w mgr, 'a) act"

section \<open>Epochs\<close>

definition next_epoch :: "('w, epoch) mact" where
  "next_epoch =
     bnd (gets m_last_epoch) (\<lambda>last.
     case checked_add last 1 of
       None \<Rightarrow> panic ''epoch space exhausted''
     | Some v \<Rightarrow>
         bnd (modify (\<lambda>s. s\<lparr>m_last_epoch := v\<rparr>)) (\<lambda>_.
         case epoch_new v of
           None \<Rightarrow> panic ''a checked increment cannot produce zero''
         | Some e \<Rightarrow> ret e))"

section \<open>Publication\<close>

definition status_of :: "'w inner \<Rightarrow> runtime_instance \<Rightarrow> ('w, instance_status) mact" where
  "status_of i inst = gets (\<lambda>s. inn_state i inst (ss_world s))"

definition pid_of :: "'w inner \<Rightarrow> runtime_instance \<Rightarrow> ('w, 32 word) mact" where
  "pid_of i inst = gets (\<lambda>s. case inn_pid i inst (ss_world s) of None \<Rightarrow> 0 | Some p \<Rightarrow> p)"

definition pub :: "'w inner \<Rightarrow> core_state \<Rightarrow> epoch_plan option \<Rightarrow> ('w, unit) mact" where
  "pub i state plan = modify (\<lambda>s. s\<lparr>m_status := publish (inn_now i (ss_world s)) state plan (m_status s)\<rparr>)"

definition pub_instance :: "'w inner \<Rightarrow> runtime_instance \<Rightarrow> core_state \<Rightarrow> epoch_plan \<Rightarrow> ('w, unit) mact" where
  "pub_instance i inst state plan =
     modify (\<lambda>s. let snapshot = inn_state i inst (ss_world s) in
       s\<lparr>m_commits := config_commit_of snapshot state plan (m_commits s),
         m_status := publish_instance (inn_now i (ss_world s)) snapshot (ri_controller inst) state plan (m_status s)\<rparr>)"

definition pub_active :: "'w inner \<Rightarrow> active \<Rightarrow> core_state \<Rightarrow> ('w, unit) mact" where
  "pub_active i a state = pub_instance i (ac_instance a) state (ac_plan a)"

definition publish_terminal_error :: "'w inner \<Rightarrow> error \<Rightarrow> ('w, unit) mact" where
  "publish_terminal_error i e = pub i (terminal_error_state e) None"

definition republish_retained :: "'w inner \<Rightarrow> ('w, unit) mact" where
  "republish_retained i =
     bnd (gets m_current) (\<lambda>current.
     case current of
       None \<Rightarrow> ret ()
     | Some a \<Rightarrow>
         bnd (status_of i (ac_instance a)) (\<lambda>st.
         pub_active i a (instance_core_state (ri_epoch (ac_instance a)) (i_state st))))"

text \<open>The forwarder of an epoch: every event it received is published for that epoch, up to and
  including a terminal one.\<close>

fun forward_events :: "millis \<Rightarrow> epoch \<Rightarrow> instance_status list \<Rightarrow> core_status \<Rightarrow> core_status" where
  "forward_events now e [] st = st"
| "forward_events now e (x # xs) st =
     (let st = publish_epoch_status now e x st in
      if is_terminal (i_state x) then st else forward_events now e xs st)"

definition forward :: "'w inner \<Rightarrow> epoch \<Rightarrow> ('w, unit) mact" where
  "forward i e =
     bnd (on_world (inn_events i e)) (\<lambda>events.
     modify (\<lambda>s. s\<lparr>m_status := forward_events (inn_now i (ss_world s)) e events (m_status s)\<rparr>))"

definition tick :: "'w inner \<Rightarrow> ('w, unit) mact" where
  "tick i =
     bnd (gets m_current) (\<lambda>current.
     case current of None \<Rightarrow> ret () | Some a \<Rightarrow> forward i (plan_epoch (ac_plan a)))"

definition awaited :: "'w inner \<Rightarrow> ('w, 'a) mact \<Rightarrow> ('w, 'a) mact" where
  "awaited i m = bnd (attempt m) (\<lambda>r. bnd (tick i) (\<lambda>_. lift r))"

definition call :: "'w inner \<Rightarrow> ('w \<Rightarrow> (error, 'a) result \<times> 'w) \<Rightarrow> ('w, 'a) mact" where
  "call i f = awaited i (bnd (on_world f) lift)"

section \<open>Quarantine\<close>

fun join_with :: "string \<Rightarrow> string list \<Rightarrow> string" where
  "join_with sep [] = []"
| "join_with sep [x] = x"
| "join_with sep (x # y # ys) = x @ sep @ join_with sep (y # ys)"

definition quarantine_error :: "quarantined_epoch list \<Rightarrow> error option" where
  "quarantine_error qs =
     (case qs of
        [] \<Rightarrow> None
      | first # rest \<Rightarrow>
          let reason = (if rest = [] then q_reason first
                        else q_reason first @ ''; additional uncertain epochs: ''
                          @ join_with '', '' (map (\<lambda>q. display_epoch (q_epoch q)) qs))
          in Some (ManagerQuarantined (q_epoch first) reason))"

text \<open>\<open>iter_mut().find(..)\<close> followed by an update of what was found.\<close>

fun update_first :: "('a \<Rightarrow> bool) \<Rightarrow> ('a \<Rightarrow> 'a) \<Rightarrow> 'a list \<Rightarrow> 'a list" where
  "update_first p f [] = []"
| "update_first p f (x # xs) = (if p x then f x # xs else x # update_first p f xs)"

definition record_quarantine :: "epoch \<Rightarrow> string \<Rightarrow> quarantined_epoch list \<Rightarrow> quarantined_epoch list" where
  "record_quarantine e reason qs =
     (if list_ex (\<lambda>q. q_epoch q = e) qs
      then update_first (\<lambda>q. q_epoch q = e) (\<lambda>q. q\<lparr>q_reason := reason\<rparr>) qs
      else qs @ [\<lparr>q_epoch = e, q_reason = reason, q_death_proven = False\<rparr>])"

definition record_quarantine_in :: "epoch \<Rightarrow> string \<Rightarrow> ('w, unit) mact" where
  "record_quarantine_in e reason = modify (\<lambda>s. s\<lparr>m_quarantine := record_quarantine e reason (m_quarantine s)\<rparr>)"

definition latch_quarantine :: "'w inner \<Rightarrow> epoch \<Rightarrow> error \<Rightarrow> ('w, error) mact" where
  "latch_quarantine i e err =
     bnd (record_quarantine_in e (error_to_string err)) (\<lambda>_.
     bnd (gets (\<lambda>s. quarantine_error (m_quarantine s))) (\<lambda>q.
     case q of
       None \<Rightarrow> panic ''quarantine was just inserted''
     | Some quarantine \<Rightarrow> bnd (publish_terminal_error i quarantine) (\<lambda>_. ret err)))"

definition reject_quarantine :: "('w, unit) mact" where
  "reject_quarantine =
     bnd (gets (\<lambda>s. quarantine_error (m_quarantine s))) (\<lambda>q. case q of Some e \<Rightarrow> fail e | None \<Rightarrow> ret ())"

fun is_unconfirmed :: "error \<Rightarrow> bool" where
  "is_unconfirmed (StopUnconfirmed _) = True"
| "is_unconfirmed _ = False"

section \<open>Artifacts\<close>

definition cleanup_controller :: "'w inner \<Rightarrow> epoch \<Rightarrow> (('w, 'x) sys_state_scheme, unit) act" where
  "cleanup_controller i e =
     (case mo_controller_dir (inn_options i) of
        None \<Rightarrow> ret ()
      | Some dir \<Rightarrow>
          bnd (gets (\<lambda>s. managed_endpoint_path (inn_env i (ss_world s)) dir (mo_controller_template (inn_options i)) e)) (\<lambda>r.
          bnd (lift r) (\<lambda>endpoint.
          bnd (on_world (fs_symlink_metadata (inn_fs i) endpoint)) (\<lambda>meta.
          case meta of
            Inr kind \<Rightarrow>
              if kind = FileSocket then io (fs_remove_file (inn_fs i) endpoint)
              else fail (InvalidManagerOptions ''refusing to remove a non-socket controller'')
          | Inl err \<Rightarrow> if io_kind err = NotFound then ret () else fail (Io err)))))"

definition cleanup_epoch :: "'w inner \<Rightarrow> epoch \<Rightarrow> ('w, unit) mact" where
  "cleanup_epoch i e =
     awaited i (bnd (cleanup_controller i e) (\<lambda>_. store_cleanup_epoch (inn_fs i) (inn_dir i) e))"

definition controller_dir :: "'w inner \<Rightarrow> string" where
  "controller_dir i = (case mo_controller_dir (inn_options i) of None \<Rightarrow> inn_dir i | Some d \<Rightarrow> d)"

section \<open>Features\<close>

definition default_local_ipc_settings :: "'w inner \<Rightarrow> local_ipc_settings" where
  "default_local_ipc_settings i = \<lparr>ipc_policy = mo_local_ipc_policy (inn_options i), keep_http_controller = False\<rparr>"

definition local_ipc_settings_for :: "'w inner \<Rightarrow> instance_spec \<Rightarrow> local_ipc_settings" where
  "local_ipc_settings_for i spec =
     (case opt_local_ipc (is_options spec) of Some s \<Rightarrow> s | None \<Rightarrow> default_local_ipc_settings i)"

definition mgr_resolve_features :: "'w inner \<Rightarrow> instance_spec \<Rightarrow> ('w, resolved_features) mact" where
  "mgr_resolve_features i spec =
     (let policy = ipc_policy (local_ipc_settings_for i spec);
          available = (case inn_access i of None \<Rightarrow> True | Some supported \<Rightarrow> supported)
      in if \<not> available \<and> policy = Force
         then fail (InvalidManagerOptions ''the host cannot authorize local IPC'')
         else awaited i (\<lambda>s.
           case resolve_features (inn_versions i) (is_core spec) (if available then policy else Disable) (m_cache s) (ss_world s) of
             (r, cache, w) \<Rightarrow> lift r (s\<lparr>m_cache := cache, ss_world := w\<rparr>)))"

definition validate_launchable :: "'w inner \<Rightarrow> instance_spec \<Rightarrow> ('w, unit) mact" where
  "validate_launchable i spec =
     awaited i
       (bnd (on_world (vs_metadata (inn_versions i) (cs_binary_path (is_core spec)))) (\<lambda>r.
        case r of Inl _ \<Rightarrow> fail (BinaryNotFound (cs_binary_path (is_core spec))) | Inr _ \<Rightarrow> ret ()))"

definition load_config :: "'w inner \<Rightarrow> string \<Rightarrow> ('w, config_snapshot) mact" where
  "load_config i path =
     awaited i
       (bnd (on_world (fs_read (inn_fs i) path)) (\<lambda>r.
        bnd (gets (\<lambda>s. load_snapshot (inn_env i (ss_world s)) path r)) lift))"

section \<open>Instances\<close>

text \<open>\<open>spawn_instance\<close>; the ghosts record the launch and, when it succeeds, the new process.\<close>

definition spawn_instance :: "'w inner \<Rightarrow> epoch_plan \<Rightarrow> ('w, runtime_instance) mact" where
  "spawn_instance i plan =
     bnd (modify (\<lambda>s. s\<lparr>g_launches := g_launches s @ [(plan_epoch plan, g_alive s)]\<rparr>)) (\<lambda>_.
     bnd (call i (inn_launch i \<lparr>lr_capabilities = pl_capabilities plan, lr_effective_spec = pl_effective_spec plan,
            lr_epoch = plan_epoch plan, lr_controller = pl_controller plan\<rparr>)) (\<lambda>n.
     bnd (modify (\<lambda>s. s\<lparr>g_alive := plan_epoch plan # g_alive s\<rparr>)) (\<lambda>_.
     ret \<lparr>ri_id = n, ri_epoch = plan_epoch plan, ri_spec = pl_effective_spec plan, ri_controller = pl_controller plan\<rparr>)))"

definition wait_ready :: "'w inner \<Rightarrow> runtime_instance \<Rightarrow> ('w, unit) mact" where
  "wait_ready i inst = call i (inn_wait_ready i inst)"

definition stop_and_confirm_dead :: "'w inner \<Rightarrow> runtime_instance \<Rightarrow> ('w, unit) mact" where
  "stop_and_confirm_dead i inst =
     bnd (call i (inn_stop i inst (mo_stop_timeout (inn_options i)))) (\<lambda>_.
     modify (\<lambda>s. s\<lparr>g_alive := remove1 (ri_epoch inst) (g_alive s)\<rparr>))"

definition check_config :: "'w inner \<Rightarrow> instance_spec \<Rightarrow> ('w, unit) mact" where
  "check_config i spec = call i (inn_check_config i spec)"

text \<open>\<open>install\<close>: the forwarder of the slot is the one \<open>tick\<close> serves.\<close>

definition install :: "runtime_instance \<Rightarrow> epoch_plan \<Rightarrow> ('w, unit) mact" where
  "install inst plan =
     modify (\<lambda>s. s\<lparr>m_last_spec := Some (pl_source_spec plan),
                   m_current := Some \<lparr>ac_instance = inst, ac_plan = plan\<rparr>\<rparr>)"

text \<open>Aborting a forwarder: what it received before it stopped is still published.\<close>

definition abort_and_await :: "'w inner \<Rightarrow> epoch \<Rightarrow> ('w, unit) mact" where
  "abort_and_await i e = forward i e"

text \<open>\<open>retire_current\<close>: the error side carries the epoch of a stop that was not proven.\<close>

definition retire_current :: "'w inner \<Rightarrow> ('w, (epoch \<times> error, epoch_plan option) result) mact" where
  "retire_current i =
     bnd (gets m_current) (\<lambda>current.
     bnd (modify (\<lambda>s. s\<lparr>m_current := None\<rparr>)) (\<lambda>_.
     case current of
       None \<Rightarrow> ret (Inr None)
     | Some a \<Rightarrow>
         bnd (abort_and_await i (plan_epoch (ac_plan a))) (\<lambda>_.
         bnd (attempt (stop_and_confirm_dead i (ac_instance a))) (\<lambda>r.
         case r of
           Inl e \<Rightarrow> ret (Inl (plan_epoch (ac_plan a), e))
         | Inr _ \<Rightarrow> ret (Inr (Some (ac_plan a)))))))"

definition discard_stale :: "'w inner \<Rightarrow> ('w, unit) mact" where
  "discard_stale i =
     bnd (retire_current i) (\<lambda>r.
     case r of
       Inr None \<Rightarrow> ret ()
     | Inr (Some plan) \<Rightarrow> cleanup_epoch i (plan_epoch plan)
     | Inl (e, err) \<Rightarrow> if is_unconfirmed err then bnd (latch_quarantine i e err) fail else fail err)"

definition current_running :: "'w inner \<Rightarrow> ('w, bool) mact" where
  "current_running i =
     gets (\<lambda>s. case m_current s of
       None \<Rightarrow> False
     | Some a \<Rightarrow> \<not> is_terminal (i_state (inn_state i (ac_instance a) (ss_world s))))"

end
