(* ===== verification/Dns_Sync.thy ===== *)
theory Dns_Sync
  imports Manager_State
begin

text \<open>
  The DNS override as part of the transactions (\<open>manager/dns_sync.rs\<close>), the sweep of what a dead
  manager left behind (\<open>manager/quarantine.rs\<close>), and the construction of a manager
  (\<open>manager/mod.rs\<close>).  A failure of the override never fails a transaction; its error text is only
  logged, so persisting answers whether it succeeded.
\<close>

section \<open>The record\<close>

definition RECORD_FILE :: string where "RECORD_FILE = ''dns-override.json''"
definition RECORD_STAGING_FILE :: string where "RECORD_STAGING_FILE = ''dns-override.json.tmp''"

definition publish_dns_record :: "'w inner \<Rightarrow> dns_override_record \<Rightarrow> ('w, unit) mact" where
  "publish_dns_record i entry =
     (let path = path_join (inn_dir i) RECORD_FILE; staging = path_join (inn_dir i) RECORD_STAGING_FILE in
      bnd (lift (map_sum (\<lambda>msg. Io (IoError OtherKind msg)) id (inn_encode_record i entry))) (\<lambda>bytes.
      bnd (io (inn_write_file i staging bytes)) (\<lambda>_.
      bnd (io (inn_try_exists i path)) (\<lambda>exists.
      if exists then atomic (fs_replace (inn_fs i) staging path) else atomic (fs_move_new (inn_fs i) staging path)))))"

definition persist_dns_record :: "'w inner \<Rightarrow> dns_override_record option \<Rightarrow> ('w, bool) mact" where
  "persist_dns_record i record =
     (let path = path_join (inn_dir i) RECORD_FILE; staging = path_join (inn_dir i) RECORD_STAGING_FILE;
          advance = bnd (modify (\<lambda>s. s\<lparr>m_dns_record := record\<rparr>)) (\<lambda>_. ret True)
      in case record of
           Some entry \<Rightarrow>
             bnd (attempt (publish_dns_record i entry)) (\<lambda>result.
             case result of
               Inl _ \<Rightarrow> bnd (on_world (fs_remove_file (inn_fs i) staging)) (\<lambda>_. ret False)
             | Inr _ \<Rightarrow> bnd (on_world (fs_sync_dir (inn_fs i) (inn_dir i))) (\<lambda>_. advance))
         | None \<Rightarrow>
             bnd (on_world (fs_remove_file (inn_fs i) path)) (\<lambda>removed.
             case removed of
               Inr _ \<Rightarrow> bnd (on_world (fs_sync_dir (inn_fs i) (inn_dir i))) (\<lambda>_. advance)
             | Inl e \<Rightarrow> if io_kind e \<noteq> NotFound then ret False else advance))"

section \<open>Convergence\<close>

definition dns_restore :: "'w inner \<Rightarrow> ('w, unit) mact" where
  "dns_restore i =
     (case inn_dns i of
        None \<Rightarrow> ret ()
      | Some dns \<Rightarrow>
          bnd (gets m_dns_record) (\<lambda>current.
          case current of
            None \<Rightarrow> ret ()
          | Some record \<Rightarrow>
              bnd (awaited i (persist_dns_record i (Some (record\<lparr>dr_state := RestorePending\<rparr>)))) (\<lambda>_.
              bnd (awaited i (on_world (dc_restore dns record))) (\<lambda>result.
              case result of
                Some (Inr _) \<Rightarrow> bnd (awaited i (persist_dns_record i None)) (\<lambda>_. ret ())
              | _ \<Rightarrow> ret ()))))"

text \<open>What the running epoch wants, if it wants an override.\<close>

definition dns_desired :: "'w inner \<Rightarrow> 'w dns_controller \<Rightarrow> 'w mgr \<Rightarrow> (string list \<times> epoch) option" where
  "dns_desired i dns s =
     (case m_current s of
        None \<Rightarrow> None
      | Some a \<Rightarrow>
          if is_terminal (i_state (inn_state i (ac_instance a) (ss_world s))) then None
          else map_option (\<lambda>intent. (intent, ri_epoch (ac_instance a))) (dc_desired dns (pl_effective_document (ac_plan a))))"

text \<open>The interface and previous servers of a record that came from a read-back.\<close>

definition dns_baseline :: "dns_override_record option \<Rightarrow> (string \<times> string list) option" where
  "dns_baseline record =
     (case record of
        None \<Rightarrow> None
      | Some r \<Rightarrow> if dr_interface r = [] then None else Some (dr_interface r, dr_previous r))"

definition dns_pre_record :: "(string \<times> string list) option \<Rightarrow> string list \<Rightarrow> epoch \<Rightarrow> dns_override_record" where
  "dns_pre_record baseline intent e =
     \<lparr>dr_interface = (case baseline of None \<Rightarrow> [] | Some (interface, _) \<Rightarrow> interface),
      dr_previous = (case baseline of None \<Rightarrow> [] | Some (_, previous) \<Rightarrow> previous),
      dr_applied = intent, dr_runtime_epoch = epoch_get e, dr_owner_generation = None, dr_state = DnsApplied\<rparr>"

definition dns_converge :: "'w inner \<Rightarrow> ('w, unit) mact" where
  "dns_converge i =
     (case inn_dns i of
        None \<Rightarrow> ret ()
      | Some dns \<Rightarrow>
          bnd (gets (dns_desired i dns)) (\<lambda>desired.
          case desired of
            None \<Rightarrow> dns_restore i
          | Some (intent, e) \<Rightarrow>
              bnd (gets (\<lambda>s. dns_baseline (m_dns_record s))) (\<lambda>baseline.
              bnd (awaited i (persist_dns_record i (Some (dns_pre_record baseline intent e)))) (\<lambda>persisted.
              if \<not> persisted then ret ()
              else
                bnd (awaited i (on_world (dc_apply dns intent e))) (\<lambda>result.
                case result of
                  Some (Inr record) \<Rightarrow>
                    (case baseline of
                       None \<Rightarrow> bnd (awaited i (persist_dns_record i (Some record))) (\<lambda>_. ret ())
                     | Some (interface, previous) \<Rightarrow>
                         if dr_interface record \<noteq> interface then ret ()
                         else bnd (awaited i (persist_dns_record i (Some (record\<lparr>dr_previous := previous\<rparr>)))) (\<lambda>_. ret ()))
                | _ \<Rightarrow> ret ())))))"

section \<open>Construction\<close>

definition reconcile_orphan_record :: "'w inner \<Rightarrow> (('w, 'x) sys_state_scheme, unit) act" where
  "reconcile_orphan_record i =
     (let path = path_join (inn_dir i) RECORD_FILE in
      bnd (on_world (fs_read (inn_fs i) path)) (\<lambda>bytes.
      case bytes of
        Inl _ \<Rightarrow> ret ()
      | Inr bytes \<Rightarrow>
          (case inn_decode_record i bytes of
             None \<Rightarrow> ret ()
           | Some record \<Rightarrow>
               (case inn_dns i of
                  None \<Rightarrow> ret ()
                | Some dns \<Rightarrow>
                    bnd (on_world (dc_restore dns record)) (\<lambda>result.
                    case result of
                      Some (Inr _) \<Rightarrow> bnd (on_world (fs_remove_file (inn_fs i) path)) (\<lambda>_. ret ())
                    | _ \<Rightarrow> ret ())))))"

definition sweep_artifact :: "'w inner \<Rightarrow> 64 word \<Rightarrow> (('w, 'x) sys_state_scheme, unit) act" where
  "sweep_artifact i artifact =
     (let pid_path = artifact_pid_path (inn_dir i) artifact in
      bnd (io (inn_try_exists i pid_path)) (\<lambda>exists.
      bnd (if exists then bnd (on_world (inn_reap i pid_path (inn_dir i))) (\<lambda>r. bnd (lift r) (\<lambda>_. ret ())) else ret ()) (\<lambda>_.
      bnd (case epoch_new artifact of None \<Rightarrow> ret () | Some e \<Rightarrow> cleanup_controller i e) (\<lambda>_.
      cleanup_artifacts (inn_fs i) (inn_dir i) artifact))))"

definition sweep_orphans :: "'w inner \<Rightarrow> (('w, 'x) sys_state_scheme, 64 word) act" where
  "sweep_orphans i =
     bnd (artifact_epochs (inn_fs i) (inn_dir i)) (\<lambda>discovered.
     let max_seen = fold max discovered 0 in
     bnd (for_each (sweep_artifact i) discovered) (\<lambda>_. ret max_seen))"

definition check_timeouts :: "manager_options \<Rightarrow> (error, unit) result" where
  "check_timeouts o' =
     (case find (\<lambda>(_, timeout). timeout = 0)
        [(''control_timeout'', mo_control_timeout o'), (''reconcile_timeout'', mo_reconcile_timeout o'),
         (''stop_timeout'', mo_stop_timeout o'), (''dns_timeout'', mo_dns_timeout o')] of
        Some (name, _) \<Rightarrow> Inl (InvalidManagerOptions (name @ '' must be greater than zero''))
      | None \<Rightarrow>
          if mo_log_max_bytes o' = 0 then Inl (InvalidManagerOptions ''log_max_bytes must be greater than zero'')
          else if mo_log_max_files o' = 0 then Inl (InvalidManagerOptions ''log_max_files must be greater than zero'')
          else Inr ())"

text \<open>\<open>build_configured\<close>: the manager environment with its store directory, and the first state.\<close>

definition mgr_initial :: "'w inner \<Rightarrow> 64 word \<Rightarrow> bool \<Rightarrow> 'w sys_state \<Rightarrow> 'w mgr" where
  "mgr_initial i max_epoch sink s =
     \<lparr>ss_world = ss_world s, ss_temp_counter = ss_temp_counter s, m_last_epoch = max_epoch, m_current = None,
      m_last_spec = None, m_quarantine = [], m_dns_record = None,
      m_status = core_status_initial (inn_now i (ss_world s)), m_commits = None, m_cache = [], m_log_sink = sink,
      g_alive = [], g_launches = []\<rparr>"

definition build_configured :: "'w inner \<Rightarrow> ('w sys_state, 'w inner \<times> 'w mgr) act" where
  "build_configured i =
     bnd (lift (case mo_runtime_dir (inn_options i) of
            None \<Rightarrow> Inl (InvalidManagerOptions ''runtime_dir is required'') | Some d \<Rightarrow> Inr d)) (\<lambda>runtime_dir.
     bnd (store_new (inn_fs i) runtime_dir) (\<lambda>dir.
     let i = i\<lparr>inn_dir := dir\<rparr> in
     bnd (acquire_ownership (inn_fs i) dir) (\<lambda>_.
     bnd (gets (\<lambda>s. validate_managed_endpoint (inn_env i (ss_world s)) (controller_dir i) (mo_controller_template (inn_options i)))) (\<lambda>r.
     bnd (lift r) (\<lambda>_.
     bnd (lift (check_timeouts (inn_options i))) (\<lambda>_.
     bnd (sweep_orphans i) (\<lambda>max_epoch.
     bnd (reconcile_orphan_record i) (\<lambda>_.
     bnd (if mo_log_sink_enabled (inn_options i) then bnd (on_world (inn_prepare_sink i)) lift else ret ()) (\<lambda>_.
     gets (\<lambda>s. (i, mgr_initial i max_epoch (mo_log_sink_enabled (inn_options i)) s)))))))))))"

end
