(* ===== verification/Transactions.thy ===== *)
theory Transactions
  imports Dns_Sync
begin

text \<open>
  The transactions of the manager: start, stop and shutdown (\<open>manager/mod.rs\<close>), hard and graceful
  switches (\<open>manager/switching.rs\<close>), applying a configuration with its compensations
  (\<open>manager/apply.rs\<close>), reconcile (\<open>manager/reconcile.rs\<close>) and recovery (\<open>manager/quarantine.rs\<close>).
\<close>

section \<open>Preparing an epoch\<close>

definition launch_plan ::
    "'w inner \<Rightarrow> instance_spec \<Rightarrow> config_snapshot \<Rightarrow> resolved_features \<Rightarrow> prepared_config \<Rightarrow> epoch \<Rightarrow> 64 word \<Rightarrow> string \<Rightarrow> epoch_plan" where
  "launch_plan i spec snap resolved prepared e generation path =
     \<lparr>pl_source_spec = spec,
      pl_effective_spec = spec\<lparr>is_config_path := path, is_pid_file := Some (pid_path (inn_dir i) e)\<rparr>,
      pl_controller = prep_controller prepared,
      pl_revision = \<lparr>rev_epoch = e, rev_generation = generation, rev_source_hash = prep_source_hash prepared,
        rev_effective_hash = prep_effective_hash prepared, rev_runtime_path = path\<rparr>,
      pl_capabilities = rf_capabilities resolved, pl_runtime_features = rf_runtime resolved,
      pl_source_document = snap_document snap, pl_effective_document = prep_document prepared\<rparr>"

definition mgr_prepare_full ::
    "'w inner \<Rightarrow> instance_spec \<Rightarrow> epoch \<Rightarrow> config_snapshot \<Rightarrow> resolved_features \<Rightarrow> ('w, prepared_config) mact" where
  "mgr_prepare_full i spec e snap resolved =
     bnd (gets (\<lambda>s. prepare_full (inn_env i (ss_world s)) snap (mo_controller_template (inn_options i)) (controller_dir i) e
       (rf_runtime resolved) (Some (local_ipc_settings_for i spec)))) lift"

definition mgr_prepare_bootstrap ::
    "'w inner \<Rightarrow> instance_spec \<Rightarrow> epoch \<Rightarrow> config_snapshot \<Rightarrow> resolved_features \<Rightarrow> ('w, prepared_config) mact" where
  "mgr_prepare_bootstrap i spec e snap resolved =
     bnd (gets (\<lambda>s. prepare_bootstrap (inn_env i (ss_world s)) snap (mo_controller_template (inn_options i)) (controller_dir i) e
       (rf_runtime resolved) (Some (local_ipc_settings_for i spec)))) lift"

text \<open>Staging a document and having the core check it; a rejected staged file is dropped.\<close>

definition stage_checked :: "'w inner \<Rightarrow> instance_spec \<Rightarrow> epoch \<Rightarrow> string \<Rightarrow> ('w, string) mact" where
  "stage_checked i spec e bytes =
     bnd (awaited i (stage (inn_fs i) (inn_dir i) e bytes)) (\<lambda>staged.
     bnd (cleanup (drop_staged (inn_fs i) staged) (check_config i (spec\<lparr>is_config_path := staged\<rparr>))) (\<lambda>_.
     ret staged))"

definition prepare_launch_with_features ::
    "'w inner \<Rightarrow> instance_spec \<Rightarrow> epoch \<Rightarrow> config_snapshot \<Rightarrow> resolved_features \<Rightarrow> ('w, epoch_plan) mact" where
  "prepare_launch_with_features i spec e snap resolved =
     bnd (mgr_prepare_full i spec e snap resolved) (\<lambda>prepared.
     bnd (stage_checked i spec e (prep_bytes prepared)) (\<lambda>staged.
     bnd (awaited i (commit_new (inn_fs i) (inn_dir i) staged e)) (\<lambda>runtime_path.
     ret (launch_plan i spec snap resolved prepared e 1 runtime_path))))"

definition prepare_launch :: "'w inner \<Rightarrow> instance_spec \<Rightarrow> epoch \<Rightarrow> config_snapshot \<Rightarrow> ('w, epoch_plan) mact" where
  "prepare_launch i spec e snap =
     bnd (validate_launchable i spec) (\<lambda>_.
     bnd (mgr_resolve_features i spec) (\<lambda>resolved.
     prepare_launch_with_features i spec e snap resolved))"

text \<open>\<open>prepare_graceful\<close>: the plan, the staged full document and the restoring patch.  The full document
  stays staged until it is consumed or dropped.\<close>

definition prepare_graceful ::
    "'w inner \<Rightarrow> instance_spec \<Rightarrow> epoch \<Rightarrow> config_snapshot \<Rightarrow> resolved_features
       \<Rightarrow> ('w, epoch_plan \<times> string \<times> (mapping \<times> projection) option) mact" where
  "prepare_graceful i spec e snap resolved =
     bnd (mgr_prepare_full i spec e snap resolved) (\<lambda>full.
     bnd (mgr_prepare_bootstrap i spec e snap resolved) (\<lambda>bootstrap.
     if rc_host (prep_controller full) \<noteq> rc_host (prep_controller bootstrap) \<or>
        rc_secret (prep_controller full) \<noteq> rc_secret (prep_controller bootstrap)
     then fail (InvalidConfig ''full and bootstrap configs resolved different controllers'')
     else
       bnd (lift (restoration_patch (inn_codec i) (prep_document bootstrap) (prep_document full))) (\<lambda>restoration.
       bnd (stage_checked i spec e (prep_bytes full)) (\<lambda>full_staged.
       bnd (cleanup (drop_staged (inn_fs i) full_staged)
         (bnd (stage_checked i spec e (prep_bytes bootstrap)) (\<lambda>bootstrap_staged.
          awaited i (commit_new (inn_fs i) (inn_dir i) bootstrap_staged e)))) (\<lambda>runtime_path.
       ret (launch_plan i spec snap resolved full e 1 runtime_path, full_staged, restoration))))))"

section \<open>Start\<close>

definition start_prepared :: "'w inner \<Rightarrow> epoch_plan \<Rightarrow> ('w, unit) mact" where
  "start_prepared i plan =
     (let e = plan_epoch plan in
      bnd (pub i (CStarting e) (Some plan)) (\<lambda>_.
      bnd (attempt (spawn_instance i plan)) (\<lambda>r.
      case r of
        Inl err \<Rightarrow>
          bnd (ignore (cleanup_epoch i e)) (\<lambda>_.
          bnd (publish_terminal_error i err) (\<lambda>_. fail err))
      | Inr inst \<Rightarrow>
          bnd (attempt (wait_ready i inst)) (\<lambda>ready.
          case ready of
            Inl readiness_error \<Rightarrow>
              bnd (attempt (stop_and_confirm_dead i inst)) (\<lambda>stopped.
              case stopped of
                Inr _ \<Rightarrow>
                  bnd (ignore (cleanup_epoch i e)) (\<lambda>_.
                  bnd (publish_terminal_error i readiness_error) (\<lambda>_. fail readiness_error))
              | Inl stop_error \<Rightarrow>
                  bnd (latch_quarantine i e (StopUnconfirmed (error_to_string readiness_error
                    @ ''; failed to stop rejected initial instance: '' @ error_to_string stop_error))) fail)
          | Inr _ \<Rightarrow>
              bnd (pid_of i inst) (\<lambda>pid.
              bnd (pub_instance i inst (CRunning e pid) plan) (\<lambda>_.
              install inst plan))))))"

definition start_locked :: "'w inner \<Rightarrow> instance_spec \<Rightarrow> ('w, unit) mact" where
  "start_locked i spec =
     bnd next_epoch (\<lambda>e.
     bnd (attempt (load_config i (is_config_path spec))) (\<lambda>loaded.
     case loaded of
       Inl err \<Rightarrow> bnd (publish_terminal_error i err) (\<lambda>_. fail err)
     | Inr snap \<Rightarrow>
         bnd (attempt (prepare_launch i spec e snap)) (\<lambda>prepared.
         case prepared of
           Inl err \<Rightarrow>
             bnd (ignore (cleanup_epoch i e)) (\<lambda>_.
             bnd (publish_terminal_error i err) (\<lambda>_. fail err))
         | Inr plan \<Rightarrow> start_prepared i plan)))"

definition mgr_start :: "'w inner \<Rightarrow> instance_spec \<Rightarrow> ('w, unit) mact" where
  "mgr_start i spec =
     bnd reject_quarantine (\<lambda>_.
     bnd (current_running i) (\<lambda>running.
     if running then fail AlreadyRunning
     else bnd (discard_stale i) (\<lambda>_. start_locked i spec)))"

section \<open>Stop\<close>

definition mgr_stop :: "'w inner \<Rightarrow> ('w, unit) mact" where
  "mgr_stop i =
     bnd (dns_restore i) (\<lambda>_.
     bnd (gets m_current) (\<lambda>current.
     bnd (modify (\<lambda>s. s\<lparr>m_current := None\<rparr>)) (\<lambda>_.
     case current of
       None \<Rightarrow> fail NotStarted
     | Some a \<Rightarrow>
         let inst = ac_instance a; plan = ac_plan a; e = ri_epoch inst in
         bnd (status_of i inst) (\<lambda>captured.
         bnd (abort_and_await i (plan_epoch plan)) (\<lambda>_.
         if is_terminal (i_state captured)
         then
           bnd (pub i (instance_core_state e (i_state captured)) (Some plan)) (\<lambda>_.
           bnd (attempt (stop_and_confirm_dead i inst)) (\<lambda>stopped.
           case stopped of
             Inl err \<Rightarrow> if is_unconfirmed err then bnd (latch_quarantine i e err) fail else fail err
           | Inr _ \<Rightarrow>
               bnd (attempt (cleanup_epoch i e)) (\<lambda>cleaned.
               case cleaned of
                 Inl err \<Rightarrow> bnd (publish_terminal_error i err) (\<lambda>_. fail err)
               | Inr _ \<Rightarrow> fail NotStarted)))
         else
           bnd (pub i (CStopping e) (Some plan)) (\<lambda>_.
           bnd (attempt (stop_and_confirm_dead i inst)) (\<lambda>stopped.
           case stopped of
             Inl err \<Rightarrow>
               if is_unconfirmed err then bnd (latch_quarantine i e err) fail
               else bnd (publish_terminal_error i err) (\<lambda>_. fail err)
           | Inr _ \<Rightarrow>
               bnd (attempt (cleanup_epoch i e)) (\<lambda>cleaned.
               case cleaned of
                 Inl err \<Rightarrow> bnd (publish_terminal_error i err) (\<lambda>_. fail err)
               | Inr _ \<Rightarrow> pub i (CStopped (Some User)) None))))))))"

definition shutdown_core :: "'w inner \<Rightarrow> ('w, unit) mact" where
  "shutdown_core i =
     bnd (gets m_current) (\<lambda>current.
     bnd (modify (\<lambda>s. s\<lparr>m_current := None\<rparr>)) (\<lambda>_.
     case current of
       None \<Rightarrow> ret ()
     | Some a \<Rightarrow>
         let inst = ac_instance a; plan = ac_plan a; e = ri_epoch inst in
         bnd (abort_and_await i (plan_epoch plan)) (\<lambda>_.
         bnd (pub i (CStopping e) (Some plan)) (\<lambda>_.
         bnd (attempt (stop_and_confirm_dead i inst)) (\<lambda>stopped.
         case stopped of
           Inl err \<Rightarrow>
             if is_unconfirmed err then bnd (latch_quarantine i e err) fail
             else bnd (publish_terminal_error i err) (\<lambda>_. fail err)
         | Inr _ \<Rightarrow>
             bnd (attempt (cleanup_epoch i e)) (\<lambda>cleaned.
             case cleaned of
               Inl err \<Rightarrow> bnd (publish_terminal_error i err) (\<lambda>_. fail err)
             | Inr _ \<Rightarrow> pub i (CStopped (Some User)) None))))))"

definition mgr_shutdown :: "'w inner \<Rightarrow> ('w, unit) mact" where
  "mgr_shutdown i =
     bnd (dns_restore i) (\<lambda>_.
     bnd (attempt (shutdown_core i)) (\<lambda>result.
     bnd (modify (\<lambda>s. if m_log_sink s then s\<lparr>m_log_sink := False, ss_world := inn_stop_sink i (ss_world s)\<rparr> else s)) (\<lambda>_.
     lift result)))"

section \<open>Replacements\<close>

definition spawn_replacement :: "'w inner \<Rightarrow> epoch_plan \<Rightarrow> ('w, runtime_instance) mact" where
  "spawn_replacement i plan =
     bnd (spawn_instance i plan) (\<lambda>inst.
     bnd (attempt (wait_ready i inst)) (\<lambda>ready.
     case ready of
       Inr _ \<Rightarrow> ret inst
     | Inl err \<Rightarrow>
         bnd (attempt (stop_and_confirm_dead i inst)) (\<lambda>stopped.
         case stopped of
           Inr _ \<Rightarrow> fail err
         | Inl stop_error \<Rightarrow>
             fail (StopUnconfirmed (error_to_string err @ ''; failed to stop rejected replacement: ''
               @ error_to_string stop_error)))))"

section \<open>In-place changes\<close>

definition patch_and_verify :: "'w inner \<Rightarrow> runtime_instance \<Rightarrow> mapping \<Rightarrow> projection \<Rightarrow> ('w, bool) mact" where
  "patch_and_verify i inst patch expected =
     (if \<not> inn_build_client i (ri_controller inst) (mo_control_timeout (inn_options i)) then ret False
      else
        bnd (on_world (inn_patch_config i (ri_controller inst) patch)) (\<lambda>_.
        bnd (on_world (inn_get_configs i (ri_controller inst))) (\<lambda>got.
        case got of
          Inl _ \<Rightarrow> ret False
        | Inr (Inl _) \<Rightarrow> ret False
        | Inr (Inr runtime) \<Rightarrow>
            if verify expected runtime then on_world (inn_probe i inst) else ret False)))"

definition reconcile_in_place :: "'w inner \<Rightarrow> runtime_instance \<Rightarrow> config_change \<Rightarrow> epoch_plan \<Rightarrow> ('w, bool) mact" where
  "reconcile_in_place i inst change desired =
     (case change of
        ChPatch patch expected \<Rightarrow> patch_and_verify i inst patch expected
      | ChSwitch \<Rightarrow> ret False
      | ChNoop \<Rightarrow> ret True
      | ChReload \<Rightarrow>
          if \<not> inn_build_client i (ri_controller inst) (mo_control_timeout (inn_options i)) then ret False
          else
            bnd (on_world (inn_update_config i (ri_controller inst) (rev_runtime_path (pl_revision desired)))) (\<lambda>updated.
            if updated then on_world (inn_probe i inst) else ret False))"

text \<open>\<open>tokio::time::timeout(..).await.unwrap_or(false)\<close> around steps that only talk to the core.\<close>

definition within :: "'w inner \<Rightarrow> duration \<Rightarrow> ('w, bool) mact \<Rightarrow> ('w, bool) mact" where
  "within i limit m =
     awaited i
       (bnd (gets (\<lambda>s. inn_cut i limit (ss_world s))) (\<lambda>cut.
        case cut of
          None \<Rightarrow> m
        | Some w \<Rightarrow> bnd (modify (\<lambda>s. s\<lparr>ss_world := w\<rparr>)) (\<lambda>_. ret False)))"

section \<open>Durability\<close>

definition with_switch_durability_result ::
    "(error, switch_outcome) result \<Rightarrow> string option \<Rightarrow> (error, switch_outcome) result" where
  "with_switch_durability_result result warning =
     (case (result, warning) of
        (Inr outcome, None) \<Rightarrow> Inr outcome
      | (Inr outcome, Some w) \<Rightarrow> Inr (SwitchDurabilityUncertain outcome w)
      | (Inl e, Some w) \<Rightarrow> Inl (DurabilityUncertain e w)
      | (Inl e, None) \<Rightarrow> Inl e)"

definition with_durability_result ::
    "(error, apply_outcome) result \<Rightarrow> string option \<Rightarrow> (error, apply_outcome) result" where
  "with_durability_result result warning =
     (case (result, warning) of
        (Inr outcome, None) \<Rightarrow> Inr outcome
      | (Inr outcome, Some w) \<Rightarrow> Inr (ApplyDurabilityUncertain outcome w)
      | (Inl e, Some w) \<Rightarrow> Inl (DurabilityUncertain e w)
      | (Inl e, None) \<Rightarrow> Inl e)"

end
