(* ===== verification/Reconcile.thy ===== *)
theory Reconcile
  imports Transactions
begin

text \<open>
  Switching (\<open>manager/switching.rs\<close>), applying (\<open>manager/apply.rs\<close>), reconcile
  (\<open>manager/reconcile.rs\<close>) and recovery (\<open>manager/quarantine.rs\<close>).
\<close>

section \<open>Hard switch\<close>

definition graceful_degrade_reason :: "bool \<Rightarrow> core_kind \<Rightarrow> overlap_block option \<Rightarrow> degrade_reason option" where
  "graceful_degrade_reason local_controller kind block =
     (if \<not> local_controller then Some DHttpController
      else if kind \<noteq> Mihomo then Some DUnsupportedKind
      else map_option (\<lambda>b. case b of DnsListen \<Rightarrow> DDnsListen | InboundSurface \<Rightarrow> DInboundConflict) block)"

definition hard_switch :: "'w inner \<Rightarrow> instance_spec \<Rightarrow> config_snapshot \<Rightarrow> resolved_features \<Rightarrow> ('w, unit) mact" where
  "hard_switch i spec snap resolved =
     bnd next_epoch (\<lambda>e.
     bnd (attempt (prepare_launch_with_features i spec e snap resolved)) (\<lambda>prepared.
     case prepared of
       Inl err \<Rightarrow>
         bnd (ignore (cleanup_epoch i e)) (\<lambda>_.
         bnd (republish_retained i) (\<lambda>_. fail err))
     | Inr plan \<Rightarrow>
         bnd (gets (\<lambda>s. map_option (\<lambda>a. ri_epoch (ac_instance a)) (m_current s))) (\<lambda>old_epoch.
         bnd (pub i (CSwitching old_epoch e) (Some plan)) (\<lambda>_.
         bnd (retire_current i) (\<lambda>retired.
         case retired of
           Inl (retired_epoch, err) \<Rightarrow>
             bnd (ignore (cleanup_epoch i e)) (\<lambda>_.
             if is_unconfirmed err then bnd (latch_quarantine i retired_epoch err) fail
             else bnd (publish_terminal_error i err) (\<lambda>_. fail err))
         | Inr None \<Rightarrow> panic ''running checked by caller''
         | Inr (Some old_plan) \<Rightarrow>
             bnd (attempt (cleanup_epoch i (plan_epoch old_plan))) (\<lambda>cleaned.
             case cleaned of
               Inl err \<Rightarrow> bnd (publish_terminal_error i err) (\<lambda>_. fail err)
             | Inr _ \<Rightarrow> start_prepared i plan))))))"

section \<open>Graceful switch\<close>

text \<open>The new bootstrap instance is up and the full document is committed: restore the inbounds, or
  replace the instance by one that starts from the full document.\<close>

definition graceful_finish ::
    "'w inner \<Rightarrow> epoch_plan \<Rightarrow> runtime_instance \<Rightarrow> (mapping \<times> projection) option \<Rightarrow> epoch \<Rightarrow> ('w, switch_outcome) mact" where
  "graceful_finish i plan inst restoration old_epoch =
     (let e = plan_epoch plan in
      bnd (within i (mo_reconcile_timeout (inn_options i))
             (case restoration of
                Some (patch, expected) \<Rightarrow> patch_and_verify i inst patch expected
              | None \<Rightarrow> on_world (inn_probe i inst))) (\<lambda>reconciled.
      if reconciled
      then
        bnd (pid_of i inst) (\<lambda>pid.
        bnd (pub_instance i inst (CRunning e pid) plan) (\<lambda>_.
        bnd (install inst plan) (\<lambda>_.
        bnd (cleanup_epoch i old_epoch) (\<lambda>_. ret Graceful))))
      else
        bnd (attempt (stop_and_confirm_dead i inst)) (\<lambda>stopped.
        case stopped of
          Inl err \<Rightarrow>
            if is_unconfirmed err then bnd (latch_quarantine i e err) fail
            else bnd (publish_terminal_error i err) (\<lambda>_. fail err)
        | Inr _ \<Rightarrow>
            bnd (attempt (spawn_replacement i plan)) (\<lambda>replaced.
            case replaced of
              Inl err \<Rightarrow>
                if is_unconfirmed err then bnd (latch_quarantine i e err) fail
                else bnd (ignore (cleanup_epoch i e)) (\<lambda>_. bnd (publish_terminal_error i err) (\<lambda>_. fail err))
            | Inr replacement \<Rightarrow>
                bnd (pid_of i replacement) (\<lambda>pid.
                bnd (pub_instance i replacement (CRunning e pid) plan) (\<lambda>_.
                bnd (install replacement plan) (\<lambda>_.
                bnd (cleanup_epoch i old_epoch) (\<lambda>_. ret (Hard DPatchFailed)))))))))"

text \<open>The old epoch is retired: commit the full document over the bootstrap one.\<close>

definition graceful_commit ::
    "'w inner \<Rightarrow> epoch_plan \<Rightarrow> runtime_instance \<Rightarrow> string \<Rightarrow> (mapping \<times> projection) option \<Rightarrow> epoch \<Rightarrow> ('w, switch_outcome) mact" where
  "graceful_commit i plan inst full_staged restoration old_epoch =
     (let e = plan_epoch plan in
      bnd (attempt (awaited i (commit_replace (inn_fs i) (inn_dir i) full_staged e))) (\<lambda>committed.
      case committed of
        Inl err \<Rightarrow>
          bnd (attempt (stop_and_confirm_dead i inst)) (\<lambda>new_stop.
          bnd (case new_stop of Inr _ \<Rightarrow> ignore (cleanup_epoch i e) | Inl _ \<Rightarrow> ret ()) (\<lambda>_.
          let err = (case new_stop of
                       Inr _ \<Rightarrow> err
                     | Inl new_error \<Rightarrow> StopUnconfirmed (''full runtime commit failed: '' @ error_to_string err
                         @ ''; bootstrap stop also failed: '' @ error_to_string new_error))
          in if is_unconfirmed err then bnd (latch_quarantine i e err) fail
             else bnd (publish_terminal_error i err) (\<lambda>_. fail err)))
      | Inr commit \<Rightarrow>
          bnd (attempt (graceful_finish i plan inst restoration old_epoch)) (\<lambda>result.
          lift (with_switch_durability_result result (durability_warning (rcm_durability commit))))))"

text \<open>The bootstrap instance is ready: take the old epoch down.\<close>

definition graceful_takeover ::
    "'w inner \<Rightarrow> epoch_plan \<Rightarrow> runtime_instance \<Rightarrow> string \<Rightarrow> (mapping \<times> projection) option \<Rightarrow> ('w, switch_outcome) mact" where
  "graceful_takeover i plan inst full_staged restoration =
     (let e = plan_epoch plan in
      bnd (retire_current i) (\<lambda>retired.
      case retired of
        Inr None \<Rightarrow> panic ''running checked by caller''
      | Inr (Some old_plan) \<Rightarrow> graceful_commit i plan inst full_staged restoration (plan_epoch old_plan)
      | Inl (retired_epoch, err) \<Rightarrow>
          bnd (drop_staged (inn_fs i) full_staged) (\<lambda>_.
          bnd (attempt (stop_and_confirm_dead i inst)) (\<lambda>new_stop.
          case new_stop of
            Inr _ \<Rightarrow>
              bnd (ignore (cleanup_epoch i e)) (\<lambda>_.
              if is_unconfirmed err then bnd (latch_quarantine i retired_epoch err) fail
              else bnd (publish_terminal_error i err) (\<lambda>_. fail err))
          | Inl new_error \<Rightarrow>
              bnd (if is_unconfirmed err then record_quarantine_in retired_epoch (error_to_string err) else ret ()) (\<lambda>_.
              bnd (latch_quarantine i e (StopUnconfirmed (''old epoch stop failed: '' @ error_to_string err
                @ ''; new bootstrap stop also failed: '' @ error_to_string new_error))) fail)))))"

definition graceful_switch :: "'w inner \<Rightarrow> instance_spec \<Rightarrow> config_snapshot \<Rightarrow> resolved_features \<Rightarrow> ('w, switch_outcome) mact" where
  "graceful_switch i spec snap resolved =
     bnd (gets (\<lambda>s. map_option (\<lambda>a. ri_epoch (ac_instance a)) (m_current s))) (\<lambda>old_epoch.
     bnd next_epoch (\<lambda>e.
     bnd (attempt (prepare_graceful i spec e snap resolved)) (\<lambda>prepared.
     case prepared of
       Inl err \<Rightarrow>
         bnd (ignore (cleanup_epoch i e)) (\<lambda>_.
         bnd (republish_retained i) (\<lambda>_. fail err))
     | Inr (plan, full_staged, restoration) \<Rightarrow>
         bnd (pub i (CSwitching old_epoch e) (Some plan)) (\<lambda>_.
         bnd (attempt (spawn_instance i plan)) (\<lambda>spawned.
         case spawned of
           Inl err \<Rightarrow>
             bnd (drop_staged (inn_fs i) full_staged) (\<lambda>_.
             bnd (ignore (cleanup_epoch i e)) (\<lambda>_.
             bnd (republish_retained i) (\<lambda>_. fail err)))
         | Inr inst \<Rightarrow>
             bnd (attempt (wait_ready i inst)) (\<lambda>ready.
             case ready of
               Inr _ \<Rightarrow> graceful_takeover i plan inst full_staged restoration
             | Inl err \<Rightarrow>
                 bnd (drop_staged (inn_fs i) full_staged) (\<lambda>_.
                 bnd (attempt (stop_and_confirm_dead i inst)) (\<lambda>stopped.
                 case stopped of
                   Inr _ \<Rightarrow>
                     bnd (ignore (cleanup_epoch i e)) (\<lambda>_.
                     bnd (republish_retained i) (\<lambda>_. fail err))
                 | Inl stop_error \<Rightarrow>
                     bnd (latch_quarantine i e (StopUnconfirmed (error_to_string err
                       @ ''; failed to stop rejected graceful bootstrap: '' @ error_to_string stop_error))) fail))))))))"

definition has_http :: "mapping \<Rightarrow> bool" where
  "has_http doc = list_ex (\<lambda>field. str_value doc field \<noteq> None) [EXTERNAL_CONTROLLER, EXTERNAL_CONTROLLER_TLS]"

definition switch_locked :: "'w inner \<Rightarrow> instance_spec \<Rightarrow> ('w, switch_outcome) mact" where
  "switch_locked i spec =
     bnd (current_running i) (\<lambda>running.
     if \<not> running
     then
       bnd (discard_stale i) (\<lambda>_.
       bnd (start_locked i spec) (\<lambda>_. ret (Hard DNotRunning)))
     else
       bnd (load_config i (is_config_path spec)) (\<lambda>snap.
       bnd (validate_launchable i spec) (\<lambda>_.
       bnd (mgr_resolve_features i spec) (\<lambda>resolved.
       bnd (gets (\<lambda>s. case m_current s of None \<Rightarrow> False | Some a \<Rightarrow> has_http (pl_effective_document (ac_plan a)))) (\<lambda>old_http.
       let http_listener = (old_http \<or> keep_http_controller (local_ipc_settings_for i spec) \<and> has_http (snap_document snap)) in
       case graceful_degrade_reason (LocalIpc \<in> set (rf_runtime resolved) \<and> \<not> http_listener)
              (cs_kind (is_core spec)) (overlap_block (snap_document snap)) of
         Some reason \<Rightarrow> bnd (hard_switch i spec snap resolved) (\<lambda>_. ret (Hard reason))
       | None \<Rightarrow> graceful_switch i spec snap resolved)))))"

definition mgr_switch :: "'w inner \<Rightarrow> instance_spec \<Rightarrow> ('w, switch_outcome) mact" where
  "mgr_switch i spec = bnd reject_quarantine (\<lambda>_. switch_locked i spec)"

definition mgr_restart :: "'w inner \<Rightarrow> ('w, switch_outcome) mact" where
  "mgr_restart i =
     bnd reject_quarantine (\<lambda>_.
     bnd (gets m_last_spec) (\<lambda>last.
     case last of None \<Rightarrow> fail NotStarted | Some spec \<Rightarrow> switch_locked i spec))"

section \<open>Apply\<close>

definition prepare_apply :: "'w inner \<Rightarrow> active \<Rightarrow> instance_spec \<Rightarrow> config_snapshot \<Rightarrow> ('w, epoch_plan \<times> string) mact" where
  "prepare_apply i a input snap =
     bnd (validate_launchable i input) (\<lambda>_.
     bnd (mgr_resolve_features i input) (\<lambda>resolved.
     let e = plan_epoch (ac_plan a); rev = pl_revision (ac_plan a) in
     bnd (mgr_prepare_full i input e snap resolved) (\<lambda>prepared.
     bnd (stage_checked i input e (prep_bytes prepared)) (\<lambda>staged.
     ret (launch_plan i input snap resolved prepared e (rev_generation rev + 1) (rev_runtime_path rev), staged)))))"

text \<open>Installing a replacement and publishing it, as the compensations do.\<close>

definition install_published :: "'w inner \<Rightarrow> runtime_instance \<Rightarrow> epoch_plan \<Rightarrow> ('w, unit) mact" where
  "install_published i inst plan =
     bnd (pid_of i inst) (\<lambda>pid.
     bnd (install inst plan) (\<lambda>_.
     pub_active i \<lparr>ac_instance = inst, ac_plan = plan\<rparr> (CRunning (plan_epoch plan) pid)))"

text \<open>Bringing the old epoch back after a failed change; \<open>after\<close> is the cleanup a success is followed by.\<close>

definition roll_back :: "'w inner \<Rightarrow> epoch_plan \<Rightarrow> string \<Rightarrow> string \<Rightarrow> ('w, unit) mact \<Rightarrow> ('w, apply_outcome) mact" where
  "roll_back i old_plan what apply_text after =
     bnd (pub i (CRestarting (plan_epoch old_plan) 0) (Some old_plan)) (\<lambda>_.
     bnd (attempt (spawn_replacement i old_plan)) (\<lambda>replaced.
     case replaced of
       Inr inst \<Rightarrow>
         bnd (install_published i inst old_plan) (\<lambda>_.
         bnd after (\<lambda>_.
         ret (RolledBack (pl_revision old_plan) apply_text)))
     | Inl rollback_error \<Rightarrow>
         if is_unconfirmed rollback_error
         then bnd (latch_quarantine i (plan_epoch old_plan) (StopUnconfirmed (''desired '' @ what @ '' failed ('' @ apply_text
                @ ''); rollback replacement '' @ error_to_string rollback_error))) fail
         else
           let err = ApplyRollbackFailed apply_text (error_to_string rollback_error) in
           bnd (publish_terminal_error i err) (\<lambda>_. fail err)))"

definition restart_with_compensation :: "'w inner \<Rightarrow> epoch_plan \<Rightarrow> runtime_config_backup \<Rightarrow> ('w, apply_outcome) mact" where
  "restart_with_compensation i desired b =
     bnd (retire_current i) (\<lambda>retired.
     case retired of
       Inr None \<Rightarrow> panic ''current held by control lock''
     | Inl (retired_epoch, err) \<Rightarrow>
         if is_unconfirmed err then bnd (latch_quarantine i retired_epoch err) fail
         else
           let err = ApplyFailed (''failed to stop current epoch for reconcile: '' @ error_to_string err) in
           bnd (publish_terminal_error i err) (\<lambda>_. fail err)
     | Inr (Some old_plan) \<Rightarrow>
         bnd (pub i (CRestarting (plan_epoch desired) 0) (Some desired)) (\<lambda>_.
         bnd (attempt (spawn_replacement i desired)) (\<lambda>replaced.
         case replaced of
           Inr inst \<Rightarrow>
             bnd (install_published i inst desired) (\<lambda>_.
             bnd (ignore (awaited i (remove_backup (inn_fs i) b))) (\<lambda>_.
             ret (Restarted (pl_revision desired))))
         | Inl apply_error \<Rightarrow>
             if is_unconfirmed apply_error then bnd (latch_quarantine i (plan_epoch desired) apply_error) fail
             else
               let apply_text = error_to_string apply_error in
               bnd (attempt (awaited i (restore (inn_fs i) (inn_dir i) b))) (\<lambda>restored.
               case restored of
                 Inl restore_error \<Rightarrow>
                   let err = ApplyRollbackFailed apply_text (''runtime restore failed: '' @ error_to_string restore_error) in
                   bnd (publish_terminal_error i err) (\<lambda>_. fail err)
               | Inr commit \<Rightarrow>
                   bnd (attempt (roll_back i old_plan ''apply'' apply_text (ignore (awaited i (remove_backup (inn_fs i) b))))) (\<lambda>result.
                   lift (with_durability_result result (durability_warning (rcm_durability commit))))))))"

definition switch_with_compensation :: "'w inner \<Rightarrow> instance_spec \<Rightarrow> config_snapshot \<Rightarrow> ('w, apply_outcome) mact" where
  "switch_with_compensation i input snap =
     bnd next_epoch (\<lambda>e.
     bnd (prepare_launch i input e snap) (\<lambda>desired.
     bnd (retire_current i) (\<lambda>retired.
     case retired of
       Inr None \<Rightarrow> panic ''current held by control lock''
     | Inl (retired_epoch, err) \<Rightarrow>
         bnd (ignore (cleanup_epoch i e)) (\<lambda>_.
         if is_unconfirmed err then bnd (latch_quarantine i retired_epoch err) fail
         else
           let err = ApplyFailed (''failed to stop current epoch for switch: '' @ error_to_string err) in
           bnd (publish_terminal_error i err) (\<lambda>_. fail err))
     | Inr (Some old_plan) \<Rightarrow>
         bnd (pub i (CSwitching (Some (plan_epoch old_plan)) (plan_epoch desired)) (Some desired)) (\<lambda>_.
         bnd (attempt (spawn_replacement i desired)) (\<lambda>replaced.
         case replaced of
           Inr inst \<Rightarrow>
             bnd (install_published i inst desired) (\<lambda>_.
             bnd (ignore (cleanup_epoch i (plan_epoch old_plan))) (\<lambda>_.
             ret (Switched (pl_revision desired))))
         | Inl apply_error \<Rightarrow>
             if is_unconfirmed apply_error then bnd (latch_quarantine i (plan_epoch desired) apply_error) fail
             else
               bnd (ignore (cleanup_epoch i e)) (\<lambda>_.
               roll_back i old_plan ''switch'' (error_to_string apply_error) (ret ())))))))"

text \<open>A change that keeps the process: back up, commit, reconcile, or restart with compensation.\<close>

definition apply_in_place :: "'w inner \<Rightarrow> active \<Rightarrow> config_change \<Rightarrow> epoch_plan \<Rightarrow> string \<Rightarrow> ('w, apply_outcome) mact" where
  "apply_in_place i a change desired staged =
     bnd (cleanup (drop_staged (inn_fs i) staged)
            (awaited i (backup (inn_fs i) (inn_dir i) (plan_epoch (ac_plan a)) (rev_generation (pl_revision desired))))) (\<lambda>b.
     bnd (attempt (awaited i (commit_replace (inn_fs i) (inn_dir i) staged (plan_epoch desired)))) (\<lambda>committed.
     case committed of
       Inl err \<Rightarrow> bnd (ignore (awaited i (remove_backup (inn_fs i) b))) (\<lambda>_. fail err)
     | Inr commit \<Rightarrow>
         let warning = durability_warning (rcm_durability commit) in
         bnd (within i (mo_reconcile_timeout (inn_options i)) (reconcile_in_place i (ac_instance a) change desired)) (\<lambda>reconciled.
         if reconciled
         then
           let a' = a\<lparr>ac_plan := desired\<rparr>;
               outcome = (case change of ChPatch _ _ \<Rightarrow> Patched (pl_revision desired) | _ \<Rightarrow> Reloaded (pl_revision desired))
           in
           bnd (modify (\<lambda>s. s\<lparr>m_current := Some a'\<rparr>)) (\<lambda>_.
           bnd (pid_of i (ac_instance a)) (\<lambda>pid.
           bnd (pub_active i a' (CRunning (plan_epoch desired) pid)) (\<lambda>_.
           bnd (modify (\<lambda>s. s\<lparr>m_last_spec := Some (pl_source_spec desired)\<rparr>)) (\<lambda>_.
           bnd (ignore (awaited i (remove_backup (inn_fs i) b))) (\<lambda>_.
           lift (with_durability_result (Inr outcome) warning))))))
         else
           bnd (attempt (restart_with_compensation i desired b)) (\<lambda>result.
           lift (with_durability_result result warning)))))"

definition apply_accepted :: "'w inner \<Rightarrow> active \<Rightarrow> instance_spec \<Rightarrow> ('w, apply_outcome) mact" where
  "apply_accepted i a input =
     bnd (load_config i (is_config_path input)) (\<lambda>snap.
     bnd (prepare_apply i a input snap) (\<lambda>(desired, staged).
     bnd (cleanup (drop_staged (inn_fs i) staged)
            (lift (classify (inn_codec i) (plan_view (ac_plan a)) (plan_view desired)))) (\<lambda>change.
     case change of
       ChNoop \<Rightarrow>
         bnd (modify (\<lambda>s. s\<lparr>m_current := Some (a\<lparr>ac_plan := (ac_plan a)\<lparr>pl_source_spec := input\<rparr>\<rparr>),
                           m_last_spec := Some input\<rparr>)) (\<lambda>_.
         bnd (drop_staged (inn_fs i) staged) (\<lambda>_.
         ret (Noop (pl_revision (ac_plan a)))))
     | ChSwitch \<Rightarrow> bnd (drop_staged (inn_fs i) staged) (\<lambda>_. switch_with_compensation i input snap)
     | _ \<Rightarrow> apply_in_place i a change desired staged)))"

definition apply_locked :: "'w inner \<Rightarrow> instance_spec \<Rightarrow> revision_id option \<Rightarrow> ('w, apply_outcome) mact" where
  "apply_locked i input expected_revision =
     bnd (gets m_current) (\<lambda>current.
     case current of
       None \<Rightarrow> fail NotStarted
     | Some a \<Rightarrow>
         bnd (status_of i (ac_instance a)) (\<lambda>st.
         if is_terminal (i_state st) then fail NotStarted
         else
           let actual = revision_id_of (pl_revision (ac_plan a)) in
           case expected_revision of
             None \<Rightarrow> apply_accepted i a input
           | Some expected \<Rightarrow>
               if expected \<noteq> actual then fail (RevisionConflict expected (Some actual)) else apply_accepted i a input))"

definition apply_config :: "'w inner \<Rightarrow> instance_spec \<Rightarrow> revision_id option \<Rightarrow> ('w, apply_outcome) mact" where
  "apply_config i input expected_revision =
     bnd reject_quarantine (\<lambda>_. apply_locked i input expected_revision)"

section \<open>Reconcile\<close>

definition reconcile_locked :: "'w inner \<Rightarrow> instance_spec \<Rightarrow> revision_id option \<Rightarrow> ('w, apply_outcome) mact" where
  "reconcile_locked i spec expected_applied =
     bnd (current_running i) (\<lambda>running.
     if running then apply_locked i spec expected_applied
     else
       case expected_applied of
         Some expected \<Rightarrow> fail (RevisionConflict expected None)
       | None \<Rightarrow>
           bnd (discard_stale i) (\<lambda>_.
           bnd (start_locked i spec) (\<lambda>_.
           bnd (gets m_current) (\<lambda>current.
           case current of
             None \<Rightarrow> panic ''start_locked installed the active runtime''
           | Some a \<Rightarrow> ret (Started (pl_revision (ac_plan a)))))))"

definition mgr_reconcile :: "'w inner \<Rightarrow> instance_spec \<Rightarrow> revision_id option \<Rightarrow> ('w, apply_outcome) mact" where
  "mgr_reconcile i spec expected_applied =
     bnd reject_quarantine (\<lambda>_.
     bnd (attempt (reconcile_locked i spec expected_applied)) (\<lambda>result.
     bnd (current_running i) (\<lambda>runtime_alive.
     bnd (if is_ok result \<or> \<not> runtime_alive then dns_converge i else ret ()) (\<lambda>_.
     lift result))))"

section \<open>Recovery\<close>

definition mark_dead :: "epoch \<Rightarrow> ('w, unit) mact" where
  "mark_dead e =
     modify (\<lambda>s. s\<lparr>m_quarantine := update_first (\<lambda>q. q_epoch q = e) (\<lambda>q. q\<lparr>q_death_proven := True\<rparr>) (m_quarantine s),
                   g_alive := removeAll e (g_alive s)\<rparr>)"

definition recovery_failure :: "quarantined_epoch \<Rightarrow> string \<Rightarrow> string" where
  "recovery_failure entry text = ''epoch '' @ display_epoch (q_epoch entry) @ '': '' @ q_reason entry @ ''; '' @ text"

text \<open>One entry: whether its death is established, then its artifacts; the result is the failure text.\<close>

definition recover_entry :: "'w inner \<Rightarrow> quarantined_epoch \<Rightarrow> ('w, string option) mact" where
  "recover_entry i entry =
     bnd (if q_death_proven entry then ret None
          else
            bnd (awaited i (on_world (inn_reap i (pid_path (inn_dir i) (q_epoch entry)) (inn_dir i)))) (\<lambda>reaped.
            case reaped of
              Inl e \<Rightarrow> ret (Some (recovery_failure entry (''recovery failed: '' @ error_to_string e)))
            | Inr ReapNotFound \<Rightarrow> ret (Some (recovery_failure entry ''authoritative epoch pid record is unavailable''))
            | Inr _ \<Rightarrow> bnd (mark_dead (q_epoch entry)) (\<lambda>_. ret None))) (\<lambda>unproven.
     case unproven of
       Some failure \<Rightarrow> ret (Some failure)
     | None \<Rightarrow>
         bnd (attempt (cleanup_epoch i (q_epoch entry))) (\<lambda>cleaned.
         case cleaned of
           Inr _ \<Rightarrow>
             bnd (modify (\<lambda>s. s\<lparr>m_quarantine := filter (\<lambda>q. q_epoch q \<noteq> q_epoch entry) (m_quarantine s)\<rparr>)) (\<lambda>_. ret None)
         | Inl e \<Rightarrow> ret (Some (recovery_failure entry (''artifact cleanup failed: '' @ error_to_string e)))))"

fun recover_entries :: "'w inner \<Rightarrow> quarantined_epoch list \<Rightarrow> string list \<Rightarrow> ('w, string list) mact" where
  "recover_entries i [] failures = ret failures"
| "recover_entries i (entry # entries) failures =
     bnd (recover_entry i entry) (\<lambda>failure.
     recover_entries i entries (case failure of None \<Rightarrow> failures | Some f \<Rightarrow> failures @ [f]))"

definition recover_quarantine :: "'w inner \<Rightarrow> ('w, unit) mact" where
  "recover_quarantine i =
     bnd (gets m_quarantine) (\<lambda>quarantined.
     if quarantined = [] then ret ()
     else
       bnd (recover_entries i quarantined []) (\<lambda>failures.
       if failures \<noteq> []
       then
         bnd (gets m_quarantine) (\<lambda>left.
         case left of
           [] \<Rightarrow> panic ''a failed recovery leaves its epoch quarantined''
         | first # _ \<Rightarrow> fail (ManagerQuarantined (q_epoch first) (join_with '' | '' failures)))
       else
         bnd (pub i (CStopped None) None) (\<lambda>_. dns_restore i)))"

section \<open>Queries\<close>

definition effective_config :: "'w inner \<Rightarrow> 'w mgr \<Rightarrow> config_commit option" where
  "effective_config i s =
     (case m_current s of
        None \<Rightarrow> None
      | Some a \<Rightarrow>
          let st = inn_state i (ac_instance a) (ss_world s) in
          (case (i_state st, i_instance_id st) of
             (IRunning _, Some n) \<Rightarrow>
               Some \<lparr>cc_instance_id = n, cc_revision = pl_revision (ac_plan a), cc_config = pl_effective_document (ac_plan a)\<rparr>
           | _ \<Rightarrow> None))"

definition api_connection :: "'w inner \<Rightarrow> 'w mgr \<Rightarrow> (uuid \<times> resolved_controller) option" where
  "api_connection i s =
     (case m_current s of
        None \<Rightarrow> None
      | Some a \<Rightarrow>
          let st = inn_state i (ac_instance a) (ss_world s) in
          (case (i_state st, i_instance_id st) of
             (IRunning _, Some n) \<Rightarrow> Some (n, pl_controller (ac_plan a))
           | _ \<Rightarrow> None))"

end
