(* ===== verification/Manager_Inv.thy ===== *)
theory Manager_Inv
  imports Reconcile
begin

text \<open>
  What every transaction of the manager keeps.  \<open>calm\<close> relates states that differ only in the world, the
  caches and the live part of the status: every step but publication, epoch allocation, launching,
  stopping, installing and quarantining is calm.  \<open>phase qs B c X\<close> describes a state inside a
  transaction: the quarantine, the occupant of the slot, and which processes besides it may be alive.
\<close>

section \<open>Calm steps\<close>

definition ctrl_view :: "'w mgr \<Rightarrow> active option \<times> quarantined_epoch list \<times> 64 word \<times> instance_spec option \<times> epoch list \<times> (epoch \<times> epoch list) list" where
  "ctrl_view s = (m_current s, m_quarantine s, m_last_epoch s, m_last_spec s, g_alive s, g_launches s)"

definition revision_view :: "core_status \<Rightarrow> config_revision option \<times> spec_summary option \<times> host option" where
  "revision_view st = (st_revision st, st_spec st, st_controller st)"

definition calm :: "'w mgr \<Rightarrow> 'w mgr \<Rightarrow> bool" where
  "calm s s' =
     (ctrl_view s' = ctrl_view s \<and> revision_view (m_status s') = revision_view (m_status s) \<and>
      (status_ok (m_status s) \<longrightarrow> status_ok (m_status s')))"

interpretation calm: kept calm
  by unfold_locales (auto simp: calm_def)

named_theorems calm_intros \<open>steps that are calm\<close>

lemmas [calm_intros] = calm.keeps_ret calm.keeps_fail calm.keeps_gets calm.keeps_lift calm.keeps_bnd calm.keeps_attempt
  calm.keeps_ignore calm.keeps_cleanup calm.keeps_for_each calm.keeps_if calm.keeps_option calm.keeps_sum calm.keeps_prod

lemma calm_world: "calm s (s\<lparr>ss_world := w\<rparr>)"
  by (simp add: calm_def ctrl_view_def)

lemma calm_on_world [calm_intros]: "keeps calm (on_world f)"
  by (auto simp: keeps_def wp_rules calm_world split: prod.splits)

lemma calm_io [calm_intros]: "keeps calm (io f)" and calm_atomic [calm_intros]: "keeps calm (atomic g)"
  unfolding io_def atomic_def by (intro calm_intros)+

lemma forward_events_keeps:
  "revision_view (forward_events now e xs st) = revision_view st \<and> (status_ok st \<longrightarrow> status_ok (forward_events now e xs st))"
proof (induction now e xs st rule: forward_events.induct)
  case (2 now e x xs st)
  have "revision_view (publish_epoch_status now e x st) = revision_view st"
    by (simp add: revision_view_def publish_epoch_status_def apply_epoch_status_def Let_def)
  then show ?case using 2 status_ok_epoch_status [of st now e x] by (auto simp: Let_def)
qed simp

lemma calm_forward [calm_intros]: "keeps calm (forward i e)"
  unfolding forward_def
  by (intro calm_intros calm.keeps_modify) (simp add: calm_def ctrl_view_def forward_events_keeps)

lemma calm_tick [calm_intros]: "keeps calm (tick i)"
  unfolding tick_def by (intro calm_intros)

lemma calm_awaited [calm_intros]: "keeps calm m \<Longrightarrow> keeps calm (awaited i m)"
  unfolding awaited_def by (intro calm_intros)

lemma calm_call [calm_intros]: "keeps calm (call i f)"
  unfolding call_def by (intro calm_intros)

lemma calm_status_of [calm_intros]: "keeps calm (status_of i inst)" and calm_pid_of [calm_intros]: "keeps calm (pid_of i inst)"
  and calm_current_running [calm_intros]: "keeps calm (current_running i)"
  unfolding status_of_def pid_of_def current_running_def by (intro calm_intros)+

lemma calm_stage [calm_intros]: "keeps calm (stage fs dir e c)"
  unfolding stage_def Let_def by (intro calm_intros calm.keeps_modify) (simp add: calm_def ctrl_view_def)

lemma calm_drop_staged [calm_intros]: "keeps calm (drop_staged fs p)"
  unfolding drop_staged_def by (intro calm_intros)

lemma calm_validate_staged [calm_intros]: "keeps calm (validate_staged fs dir p e)"
  unfolding validate_staged_def by (intro calm_intros)

lemma calm_commit [calm_intros]: "keeps calm (commit_new fs dir p e)" "keeps calm (commit_replace fs dir p e)"
  unfolding commit_new_def commit_replace_def Let_def by (intro calm_intros)+

lemma calm_store_replace [calm_intros]: "keeps calm (store_replace fs dir e c)"
  unfolding store_replace_def by (intro calm_intros)

lemma calm_backup [calm_intros]: "keeps calm (backup fs dir e g)" "keeps calm (restore fs dir b)" "keeps calm (remove_backup fs b)"
  unfolding backup_def restore_def remove_backup_def Let_def by (intro calm_intros)+

lemma calm_cleanup_artifacts [calm_intros]: "keeps calm (cleanup_artifacts fs dir n)" "keeps calm (store_cleanup_epoch fs dir e)"
  unfolding store_cleanup_epoch_def cleanup_artifacts_def remove_socket_artifact_def by (intro calm_intros)+

lemma calm_cleanup_epoch [calm_intros]: "keeps calm (cleanup_epoch i e)"
  unfolding cleanup_epoch_def cleanup_controller_def by (intro calm_intros)

lemma calm_resolve_features [calm_intros]: "keeps calm (mgr_resolve_features i spec)"
proof -
  have "keeps calm (\<lambda>s. case resolve_features vs core policy (m_cache s) (ss_world s) of
      (r, cache, w) \<Rightarrow> lift r (s\<lparr>m_cache := cache, ss_world := w\<rparr>))" for vs core policy
    by (rule calm.keepsI) (auto simp: calm_def ctrl_view_def lift_def ret_def fail_def split: prod.splits sum.splits)
  then show ?thesis unfolding mgr_resolve_features_def Let_def by (intro calm_intros)
qed

lemma calm_validate_launchable [calm_intros]: "keeps calm (validate_launchable i spec)"
  and calm_load_config [calm_intros]: "keeps calm (load_config i path)"
  and calm_wait_ready [calm_intros]: "keeps calm (wait_ready i inst)"
  and calm_check_config [calm_intros]: "keeps calm (check_config i spec)"
  unfolding validate_launchable_def load_config_def wait_ready_def check_config_def by (intro calm_intros)+

lemma calm_stage_checked [calm_intros]: "keeps calm (stage_checked i spec e bytes)"
  unfolding stage_checked_def by (intro calm_intros)

lemma calm_prepare [calm_intros]: "keeps calm (mgr_prepare_full i spec e snap r)" "keeps calm (mgr_prepare_bootstrap i spec e snap r)"
  unfolding mgr_prepare_full_def mgr_prepare_bootstrap_def by (intro calm_intros)+

lemma calm_prepare_launch [calm_intros]:
  "keeps calm (prepare_launch_with_features i spec e snap r)" "keeps calm (prepare_launch i spec e snap)"
  "keeps calm (prepare_graceful i spec e snap r)" "keeps calm (prepare_apply i a input snap)"
  unfolding prepare_launch_def prepare_launch_with_features_def prepare_graceful_def prepare_apply_def Let_def
  by (intro calm_intros)+

lemma calm_patch_and_verify [calm_intros]: "keeps calm (patch_and_verify i inst patch expected)"
  unfolding patch_and_verify_def by (intro calm_intros)

lemma calm_reconcile_in_place [calm_intros]: "keeps calm (reconcile_in_place i inst change desired)"
  unfolding reconcile_in_place_def by (cases change; simp only: config_change.case; intro calm_intros)

lemma calm_within [calm_intros]: "keeps calm m \<Longrightarrow> keeps calm (within i limit m)"
  unfolding within_def by (intro calm_intros calm.keeps_modify) (auto simp: calm_world)

lemma calm_persist [calm_intros]: "keeps calm (persist_dns_record i record)"
  unfolding persist_dns_record_def publish_dns_record_def Let_def
  by (intro calm_intros calm.keeps_modify) (simp_all add: calm_def ctrl_view_def)

lemma calm_dns_restore [calm_intros]: "keeps calm (dns_restore i)"
  unfolding dns_restore_def by (intro calm_intros)

lemma calm_dns_converge [calm_intros]: "keeps calm (dns_converge i)"
  unfolding dns_converge_def by (intro calm_intros)

section \<open>Outcomes\<close>

text \<open>\<open>ends ok bad\<close>: the outcome is a value or an error as stated; the only panic is the exhaustion of the
  epoch numbers.\<close>

definition ends :: "('a \<Rightarrow> 's \<Rightarrow> bool) \<Rightarrow> (error \<Rightarrow> 's \<Rightarrow> bool) \<Rightarrow> 'a out \<Rightarrow> 's \<Rightarrow> bool" where
  "ends ok bad r s =
     (case r of Ok x \<Rightarrow> ok x s | Err e \<Rightarrow> bad e s | Panic p \<Rightarrow> p = ''epoch space exhausted'')"

lemma ends_simps [simp]:
  "ends ok bad (Ok x) s = ok x s" "ends ok bad (Err e) s = bad e s"
  "ends ok bad (Panic p) s = (p = ''epoch space exhausted'')"
  by (simp_all add: ends_def)

lemma ends_bnd:
  assumes "wp m (ends ok bad) s" and "\<And>x s'. ok x s' \<Longrightarrow> wp (f x) (ends ok' bad') s'" and "\<And>e s'. bad e s' \<Longrightarrow> bad' e s'"
  shows "wp (bnd m f) (ends ok' bad') s"
  by (rule wp_bndI [OF assms(1)]) (auto intro: assms)

lemma ends_mono:
  assumes "wp m (ends ok bad) s" and "\<And>x s'. ok x s' \<Longrightarrow> ok' x s'" and "\<And>e s'. bad e s' \<Longrightarrow> bad' e s'"
  shows "wp m (ends ok' bad') s"
  by (rule wp_mono [OF assms(1)]) (use assms(2,3) in \<open>auto simp: ends_def split: out.splits\<close>)

lemma ends_attempt:
  assumes "wp m (ends (\<lambda>x. ok (Inr x)) (\<lambda>e. ok (Inl e))) s"
  shows "wp (attempt m) (ends ok bad) s"
  unfolding wp_attempt by (rule wp_mono [OF assms]) (auto simp: ends_def split: out.splits)

lemma ends_ret: "ok x s \<Longrightarrow> wp (ret x) (ends ok bad) s" and ends_fail: "bad e s \<Longrightarrow> wp (fail e) (ends ok bad) s"
  by (simp_all add: wp_rules)

lemma ends_lift: "(\<And>x. r = Inr x \<Longrightarrow> ok x s) \<Longrightarrow> (\<And>e. r = Inl e \<Longrightarrow> bad e s) \<Longrightarrow> wp (lift r) (ends ok bad) s"
  by (simp add: wp_rules split: sum.splits)

lemma ends_attempt_bnd:
  assumes "wp m (ends ok bad) s" and "\<And>x s'. ok x s' \<Longrightarrow> wp (f (Inr x)) (ends ok' bad') s'"
    and "\<And>e s'. bad e s' \<Longrightarrow> wp (f (Inl e)) (ends ok' bad') s'"
  shows "wp (bnd (attempt m) f) (ends ok' bad') s"
  by (rule ends_bnd [where ok = "\<lambda>r s'. case r of Inr x \<Rightarrow> ok x s' | Inl e \<Rightarrow> bad e s'" and bad = "\<lambda>_ _. False"])
    (use assms in \<open>auto intro!: ends_attempt split: sum.splits\<close>)

lemma ends_calm:
  assumes "keeps calm m" and "\<And>s'. calm s s' \<Longrightarrow> Q s'"
  shows "wp m (ends (\<lambda>_. Q) (\<lambda>_. Q)) s"
  using assms unfolding keeps_def by (auto elim!: allE [of _ s] wp_mono simp: ends_def split: out.splits)

section \<open>Phases\<close>

definition occupant :: "active option \<Rightarrow> epoch set" where
  "occupant c = (case c of None \<Rightarrow> {} | Some a \<Rightarrow> {plan_epoch (ac_plan a)})"

definition uncertain :: "quarantined_epoch list \<Rightarrow> epoch set" where
  "uncertain qs = q_epoch ` set (filter (\<lambda>q. \<not> q_death_proven q) qs)"

definition active_ok :: "active \<Rightarrow> bool" where
  "active_ok a = (ri_epoch (ac_instance a) = plan_epoch (ac_plan a))"

text \<open>Every launch so far: no process of the launched epoch was alive, and at most one other.\<close>

definition launches_ok :: "(epoch \<times> epoch list) list \<Rightarrow> bool" where
  "launches_ok ls = list_all (\<lambda>(e, alive). e \<notin> set alive \<and> length alive \<le> 1) ls"

definition phase :: "quarantined_epoch list \<Rightarrow> epoch set \<Rightarrow> active option \<Rightarrow> epoch set \<Rightarrow> 'w mgr \<Rightarrow> bool" where
  "phase qs B c X s =
     (m_quarantine s = qs \<and> m_current s = c \<and> distinct (g_alive s) \<and>
      set (g_alive s) \<subseteq> X \<union> occupant c \<union> uncertain qs \<and> distinct (map q_epoch qs) \<and>
      (X \<union> occupant c) \<inter> q_epoch ` set qs = {} \<and> X \<inter> occupant c = {} \<and>
      (\<forall>e \<in> B \<union> X \<union> occupant c \<union> q_epoch ` set qs. e \<le> Epoch (m_last_epoch s)) \<and>
      (\<forall>a. c = Some a \<longrightarrow> active_ok a) \<and> launches_ok (g_launches s) \<and> status_ok (m_status s))"

text \<open>The invariant between transactions.\<close>

definition mgr_inv :: "'w mgr \<Rightarrow> bool" where
  "mgr_inv s = phase (m_quarantine s) {} (m_current s) {} s"

lemma phase_inv: "phase qs B c {} s \<Longrightarrow> mgr_inv s"
  by (auto simp: phase_def mgr_inv_def)

lemma phase_calm: "calm s s' \<Longrightarrow> phase qs B c X s \<Longrightarrow> phase qs B c X s'"
  by (auto simp: phase_def calm_def ctrl_view_def)

lemma phase_step: "keeps calm m \<Longrightarrow> phase qs B c X s \<Longrightarrow> wp m (ends (\<lambda>_. phase qs B c X) (\<lambda>_. phase qs B c X)) s"
  by (rule ends_calm) (auto intro: phase_calm)

lemma checked_successor:
  assumes "checked_add n 1 = Some (v :: 64 word)"
  shows "v \<noteq> 0" and "n < v"
  using unat_checked_add [OF assms] by (auto simp: word_less_nat_alt)

lemma phase_bound:
  "phase qs B c X s \<Longrightarrow> \<forall>e \<in> B' \<union> X \<union> occupant c \<union> q_epoch ` set qs. e \<le> Epoch v \<Longrightarrow>
     phase qs B' c X (s\<lparr>m_last_epoch := v\<rparr>)"
  by (simp add: phase_def)

lemma phase_le: "phase qs B c X s \<Longrightarrow> e \<in> B \<union> X \<union> occupant c \<union> q_epoch ` set qs \<Longrightarrow> e \<le> Epoch (m_last_epoch s)"
  by (simp add: phase_def)

lemma next_epoch_spec:
  assumes "phase qs B c X s"
  shows "wp next_epoch (ends (\<lambda>e s'. phase qs (insert e B) c X s' \<and> e \<notin> B \<union> X \<union> occupant c \<union> q_epoch ` set qs \<and>
      m_status s' = m_status s) (\<lambda>_ _. False)) s"
proof (cases "checked_add (m_last_epoch s) 1")
  case None
  then show ?thesis by (simp add: next_epoch_def wp_rules)
next
  case (Some v)
  note v = checked_successor [OF Some]
  have lt: "e < Epoch v" if "e \<in> B \<union> X \<union> occupant c \<union> q_epoch ` set qs" for e
    using phase_le [OF assms that] v(2) by (auto simp: less_eq_epoch_def less_epoch_def)
  have "phase qs (insert (Epoch v) B) c X (s\<lparr>m_last_epoch := v\<rparr>)"
    by (rule phase_bound [OF assms]) (use lt in \<open>auto intro: less_imp_le\<close>)
  moreover have "Epoch v \<notin> B \<union> X \<union> occupant c \<union> q_epoch ` set qs" using lt by blast
  ultimately show ?thesis using Some v(1) by (simp add: next_epoch_def wp_rules epoch_new_def)
qed

text \<open>Publication keeps the phase when state and plan speak of the same epoch.\<close>

lemma pub_spec:
  assumes "phase qs B c X s" and "\<And>e. state_epoch state = Some e \<Longrightarrow> map_option plan_epoch plan = Some e"
  shows "wp (pub i state plan) (ends (\<lambda>_ s'. phase qs B c X s' \<and> st_revision (m_status s') = map_option pl_revision plan) (\<lambda>_ _. False)) s"
  using assms(1) status_ok_publish [OF assms(2)]
  by (simp add: pub_def wp_rules phase_def) (simp add: publish_def)

lemma pub_instance_spec:
  assumes "phase qs B c X s" and "\<And>e. state_epoch state = Some e \<Longrightarrow> plan_epoch plan = e"
  shows "wp (pub_instance i inst state plan)
    (ends (\<lambda>_ s'. phase qs B c X s' \<and> st_revision (m_status s') = Some (pl_revision plan) \<and> m_last_spec s' = m_last_spec s)
      (\<lambda>_ _. False)) s"
  using assms(1) status_ok_publish_instance [OF assms(2)]
  by (simp add: pub_instance_def wp_rules phase_def Let_def) (simp add: publish_instance_def)

lemma terminal_spec:
  assumes "phase qs B c X s"
  shows "wp (publish_terminal_error i e) (ends (\<lambda>_. phase qs B c X) (\<lambda>_ _. False)) s"
  unfolding publish_terminal_error_def
  by (rule ends_mono [OF pub_spec [OF assms]]) (auto simp: terminal_error_state_def)

lemma terminal_fail:
  assumes "phase qs B c X s" and "\<And>s'. phase qs B c X s' \<Longrightarrow> bad err s'"
  shows "wp (bnd (publish_terminal_error i e) (\<lambda>_. fail err)) (ends ok bad) s"
  by (rule ends_bnd [OF terminal_spec [OF assms(1)]]) (auto intro: ends_fail assms(2))

lemma republish_spec:
  assumes "phase qs B c X s"
  shows "wp (republish_retained i) (ends (\<lambda>_. phase qs B c X) (\<lambda>_ _. False)) s"
proof (cases c)
  case None
  then show ?thesis using assms by (auto simp: republish_retained_def wp_rules phase_def)
next
  case (Some a)
  then have cur: "m_current s = Some a" and ok: "active_ok a" using assms by (auto simp: phase_def)
  have "state_epoch (instance_core_state (ri_epoch (ac_instance a)) st) = Some e \<Longrightarrow> plan_epoch (ac_plan a) = e" for st e
    using ok state_epoch_instance unfolding active_ok_def by metis
  from ends_mono [OF pub_instance_spec [OF assms this]] show ?thesis
    using cur by (simp add: republish_retained_def wp_rules status_of_def pub_active_def)
qed

section \<open>Processes\<close>

lemma phase_born:
  "phase [] B c {} s \<Longrightarrow> e \<in> B \<Longrightarrow> e \<notin> occupant c \<Longrightarrow> phase [] B c {e} (s\<lparr>g_alive := e # g_alive s\<rparr>)"
  by (auto simp: phase_def uncertain_def)

lemma spawn_spec:
  assumes "phase [] B c {} s" and "plan_epoch plan \<in> B" and "plan_epoch plan \<notin> occupant c"
  shows "wp (spawn_instance i plan)
    (ends (\<lambda>inst s'. phase [] B c {plan_epoch plan} s' \<and> ri_epoch inst = plan_epoch plan) (\<lambda>_. phase [] B c {})) s"
proof -
  let ?e = "plan_epoch plan"
  have sub: "set (g_alive s) \<subseteq> occupant c" and d: "distinct (g_alive s)" using assms(1) by (auto simp: phase_def uncertain_def)
  have "card (occupant c) \<le> 1" by (simp add: occupant_def split: option.splits)
  moreover have "length (g_alive s) \<le> card (occupant c)"
    using sub d card_mono [of "occupant c" "set (g_alive s)"] by (simp add: distinct_card occupant_def split: option.splits)
  ultimately have "phase [] B c {} (s\<lparr>g_launches := g_launches s @ [(?e, g_alive s)]\<rparr>)"
    using assms sub by (auto simp: phase_def launches_ok_def)
  note step = phase_step [OF calm_call this]
  show ?thesis
    unfolding spawn_instance_def wp_bnd [of "modify f" for f] wp_modify out.simps
    by (rule ends_bnd [OF step]) (use assms(2,3) in \<open>simp_all add: wp_rules phase_born\<close>)
qed

lemma tick_total: "fst (tick i s) = Ok ()"
  by (auto simp: tick_def forward_def bnd_def gets_def on_world_def modify_def ret_def split: option.splits prod.splits)

lemma tick_spec:
  assumes "phase qs B c X s"
  shows "wp (tick i) (ends (\<lambda>_. phase qs B c X) (\<lambda>_ _. False)) s"
proof (cases "tick i s")
  case (Pair r t)
  then have "r = Ok ()" using tick_total [of i s] by simp
  moreover have "calm s t" using calm.keepsD [OF calm_tick Pair] by simp
  ultimately show ?thesis using Pair assms by (simp add: wp_def phase_calm)
qed

lemma call_spec:
  assumes "phase qs B c X s"
  shows "wp (call i f) (ends (\<lambda>_. phase qs B c X) (\<lambda>err s'. phase qs B c X s' \<and> (\<exists>w w'. f w = (Inl err, w')))) s"
proof (cases "f (ss_world s)")
  case (Pair r w)
  let ?t = "s\<lparr>ss_world := w\<rparr>"
  have eq: "wp (call i f) Q s = wp (bnd (tick i) (\<lambda>_. lift r)) Q ?t" for Q
    using Pair by (cases r) (auto simp: call_def awaited_def wp_rules wp_def bnd_def attempt_def on_world_def lift_def ret_def fail_def)
  have "phase qs B c X ?t" by (rule phase_calm [OF calm_world assms])
  from tick_spec [OF this] show ?thesis unfolding eq
    by (rule ends_bnd) (use Pair in \<open>auto intro!: ends_lift\<close>)
qed

section \<open>The backend contract\<close>

text \<open>\<open>RuntimeInstance::stop_and_confirm_dead\<close>: when death cannot be proven the answer is
  \<open>StopUnconfirmed\<close>, and there is no other error.\<close>

locale runtime_backend =
  fixes i :: "'w inner"
  assumes honest_stop: "inn_stop i inst timeout w = (Inl err, w') \<Longrightarrow> is_unconfirmed err"
begin

lemma phase_dead:
  "phase qs B c X s \<Longrightarrow> e \<in> X \<Longrightarrow> phase qs B c (X - {e}) (s\<lparr>g_alive := remove1 e (g_alive s)\<rparr>)"
  by (auto simp: phase_def)

lemma stop_spec:
  assumes "phase qs B c X s" and "ri_epoch inst \<in> X"
  shows "wp (stop_and_confirm_dead i inst)
    (ends (\<lambda>_. phase qs B c (X - {ri_epoch inst})) (\<lambda>err s'. is_unconfirmed err \<and> phase qs B c X s')) s"
  unfolding stop_and_confirm_dead_def
  by (rule ends_bnd [OF call_spec [OF assms(1)]]) (use assms(2) honest_stop in \<open>auto simp: wp_rules phase_dead\<close>)

lemma phase_take:
  "phase qs B (Some a) X s \<Longrightarrow> phase qs (insert (plan_epoch (ac_plan a)) B) None (insert (plan_epoch (ac_plan a)) X) (s\<lparr>m_current := None\<rparr>)"
  by (auto simp: phase_def occupant_def)

lemma abort_spec:
  assumes "phase qs B c X s"
  shows "wp (abort_and_await i e) (ends (\<lambda>_. phase qs B c X) (\<lambda>_ _. False)) s"
proof -
  have "fst (forward i e s) = Ok ()"
    by (auto simp: forward_def bnd_def on_world_def modify_def split: prod.splits)
  then show ?thesis
    using phase_step [OF calm_forward assms, of i e] by (auto simp: abort_and_await_def wp_def split: prod.splits)
qed

lemma retire_spec:
  assumes "phase qs B (Some a) X s"
  shows "wp (retire_current i)
    (ends (\<lambda>r s'. r = Inr (Some (ac_plan a)) \<and> phase qs (insert (plan_epoch (ac_plan a)) B) None X s' \<or>
        (\<exists>err. r = Inl (plan_epoch (ac_plan a), err) \<and> is_unconfirmed err \<and>
           phase qs (insert (plan_epoch (ac_plan a)) B) None (insert (plan_epoch (ac_plan a)) X) s')) (\<lambda>_ _. False)) s"
proof -
  let ?e = "plan_epoch (ac_plan a)"
  have cur: "m_current s = Some a" and ok: "ri_epoch (ac_instance a) = ?e" and nX: "?e \<notin> X"
    using assms by (auto simp: phase_def active_ok_def occupant_def)
  show ?thesis
    unfolding retire_current_def wp_bnd [of "gets f" for f] wp_gets wp_bnd [of "modify f" for f] wp_modify out.simps cur option.simps
    apply (rule ends_bnd [OF abort_spec [OF phase_take [OF assms]]])
     apply (rule ends_attempt_bnd [OF stop_spec])
        apply assumption
    using ok nX by (auto intro!: ends_ret)
qed

lemma retire_none_spec:
  "phase qs B None X s \<Longrightarrow> wp (retire_current i) (ends (\<lambda>r s'. r = Inr None \<and> phase qs B None X s') (\<lambda>_ _. False)) s"
  by (auto simp: retire_current_def wp_rules phase_def)

lemma install_spec:
  assumes "phase qs B None {plan_epoch plan} s" and "ri_epoch inst = plan_epoch plan"
  shows "wp (install inst plan) (ends (\<lambda>_ s'. phase qs B (Some \<lparr>ac_instance = inst, ac_plan = plan\<rparr>) {} s' \<and> m_status s' = m_status s \<and>
      m_last_spec s' = Some (pl_source_spec plan)) (\<lambda>_ _. False)) s"
  using assms by (auto simp: install_def wp_rules phase_def occupant_def active_ok_def)

lemma record_new:
  "e \<notin> q_epoch ` set qs \<Longrightarrow> record_quarantine e reason qs = qs @ [\<lparr>q_epoch = e, q_reason = reason, q_death_proven = False\<rparr>]"
  by (auto simp: record_quarantine_def list_ex_iff)

lemma record_spec:
  assumes "phase qs B c X s" and "e \<in> X"
  shows "phase (record_quarantine e reason qs) B c (X - {e}) (s\<lparr>m_quarantine := record_quarantine e reason qs\<rparr>)"
proof -
  have "e \<notin> q_epoch ` set qs" using assms by (auto simp: phase_def)
  note rec = record_new [OF this]
  have "uncertain (qs @ [\<lparr>q_epoch = e, q_reason = reason, q_death_proven = False\<rparr>]) = insert e (uncertain qs)"
    by (auto simp: uncertain_def)
  then show ?thesis using assms \<open>e \<notin> q_epoch ` set qs\<close> unfolding rec by (auto simp: phase_def)
qed

lemma latch_spec:
  assumes "phase qs B c X s" and "e \<in> X"
  shows "wp (latch_quarantine i e err)
    (ends (\<lambda>r s'. r = err \<and> phase (record_quarantine e (error_to_string err) qs) B c (X - {e}) s') (\<lambda>_ _. False)) s"
proof -
  let ?qs = "record_quarantine e (error_to_string err) qs"
  have "e \<notin> q_epoch ` set qs" and qs: "m_quarantine s = qs" using assms by (auto simp: phase_def)
  from this(1) obtain q where q: "quarantine_error ?qs = Some q"
    by (cases qs) (auto simp: record_new quarantine_error_def Let_def)
  have "wp (bnd (publish_terminal_error i q) (\<lambda>_. ret err))
      (ends (\<lambda>r s'. r = err \<and> phase ?qs B c (X - {e}) s') (\<lambda>_ _. False)) (s\<lparr>m_quarantine := ?qs\<rparr>)"
    by (rule ends_bnd [OF terminal_spec [OF record_spec [OF assms]]]) (auto intro: ends_ret)
  then show ?thesis
    using q qs unfolding latch_quarantine_def record_quarantine_in_def wp_bnd [of "gets f" for f] wp_gets wp_bnd [of "modify f" for f] wp_modify
    by simp
qed

text \<open>Latching and failing, with nothing else in flight.\<close>

lemma latch_fail:
  assumes "phase qs B c {e} s"
  shows "wp (bnd (latch_quarantine i e err) fail) (ends ok (\<lambda>_. mgr_inv)) s"
  by (rule ends_bnd [OF latch_spec [OF assms]]) (auto intro!: ends_fail intro: phase_inv)

end

end
