(* ===== verification/Manager_Safety.thy ===== *)
theory Manager_Safety
  imports Manager_Inv
begin

text \<open>
  Every transaction of the manager keeps the invariant: each process that was launched and not proven
  dead belongs to the occupant of the slot or to a quarantined epoch, a launch happens only with an empty
  quarantine and at most one other live process, epoch numbers are never reused, and none of the
  \<open>expect\<close>s can fail.  One lemma per transaction, in the order of the code, under the backend contract.
\<close>

lemma phase_current: "phase qs B c X s \<Longrightarrow> m_current s = c" and phase_quarantine: "phase qs B c X s \<Longrightarrow> m_quarantine s = qs" and phase_active: "phase qs B (Some a) X s \<Longrightarrow> active_ok a"
  by (simp_all add: phase_def)

lemma bnd_ret: "bnd m ret = m"
  by (auto simp: bnd_def ret_def fun_eq_iff split: prod.splits out.splits)

lemma wp_if: "(b \<Longrightarrow> wp m Q s) \<Longrightarrow> (\<not> b \<Longrightarrow> wp n Q s) \<Longrightarrow> wp (if b then m else n) Q s"
  by simp

lemma calm_then:
  assumes "phase qs B c X s" and "keeps calm m"
    and "\<And>x s'. phase qs B c X s' \<Longrightarrow> wp (f x) (ends ok bad) s'" and "\<And>e s'. phase qs B c X s' \<Longrightarrow> bad e s'"
  shows "wp (bnd m f) (ends ok bad) s"
  by (rule ends_bnd [OF phase_step [OF assms(2,1)]]) (use assms(3,4) in auto)

lemma calm_attempt_then:
  assumes "phase qs B c X s" and "keeps calm m"
    and "\<And>x s'. phase qs B c X s' \<Longrightarrow> wp (f (Inr x)) (ends ok bad) s'"
    and "\<And>e s'. phase qs B c X s' \<Longrightarrow> wp (f (Inl e)) (ends ok bad) s'"
  shows "wp (bnd (attempt m) f) (ends ok bad) s"
  by (rule ends_attempt_bnd [OF phase_step [OF assms(2,1)]]) (use assms(3,4) in auto)

lemma ignore_then:
  assumes "phase qs B c X s" and "keeps calm m" and "\<And>s'. phase qs B c X s' \<Longrightarrow> wp (f ()) (ends ok bad) s'"
  shows "wp (bnd (ignore m) f) (ends ok bad) s"
  unfolding ignore_def bnd_assoc
  by (rule calm_attempt_then [OF assms(1,2)]) (use assms(3) in \<open>simp_all add: wp_bnd [of "ret x" for x] wp_ret\<close>)

text \<open>Steps that neither fail nor panic.\<close>

definition succeeds :: "('s, 'a) act \<Rightarrow> bool" where
  "succeeds m = (\<forall>s. wp m (\<lambda>r _. \<exists>x. r = Ok x) s)"

lemma succeeds_ret: "succeeds (ret x)" and succeeds_gets: "succeeds (gets f)" and succeeds_modify: "succeeds (modify g)"
    and succeeds_on_world: "succeeds (on_world h)"
  by (simp_all add: succeeds_def wp_rules)

lemma succeeds_bnd: "succeeds m \<Longrightarrow> (\<And>x. succeeds (f x)) \<Longrightarrow> succeeds (bnd m f)"
  unfolding succeeds_def by (auto intro: wp_bndI)

lemma succeeds_if: "succeeds m \<Longrightarrow> succeeds n \<Longrightarrow> succeeds (if b then m else n)"
    and succeeds_option: "succeeds m \<Longrightarrow> (\<And>x. succeeds (f x)) \<Longrightarrow> succeeds (case v of None \<Rightarrow> m | Some x \<Rightarrow> f x)"
    and succeeds_sum: "(\<And>x. succeeds (g x)) \<Longrightarrow> (\<And>x. succeeds (h x)) \<Longrightarrow> succeeds (case w of Inl x \<Rightarrow> g x | Inr x \<Rightarrow> h x)"
    and succeeds_prod: "(\<And>x y. succeeds (k x y)) \<Longrightarrow> succeeds (case p of (x, y) \<Rightarrow> k x y)"
  by (simp_all split: option.splits sum.splits prod.splits)

lemma succeeds_tick: "succeeds (tick i)"
  using tick_total [of i] by (auto simp: succeeds_def wp_def split: prod.splits) (metis fst_conv)

lemmas succeeds_intros = succeeds_ret succeeds_gets succeeds_modify succeeds_on_world succeeds_bnd succeeds_if succeeds_option succeeds_sum succeeds_prod succeeds_tick

lemma succeeds_awaited:
  assumes "succeeds m"
  shows "succeeds (awaited i m)"
proof -
  have r: "wp (attempt m) (\<lambda>r _. \<exists>x. r = Ok (Inr x)) s" for s
    using assms by (auto simp: succeeds_def wp_attempt elim!: allE [of _ s] wp_mono)
  have t: "wp (bnd (tick i) (\<lambda>_. lift (Inr x))) (\<lambda>r _. \<exists>x. r = Ok x) s" for x s
    using succeeds_bnd [OF succeeds_tick [of i] succeeds_ret [of x]] by (simp add: succeeds_def lift_def)
  show ?thesis unfolding succeeds_def awaited_def by (rule allI, rule wp_bndI [OF r]) (use t in auto)
qed

lemma succeeds_ignore:
  assumes "keeps calm m"
  shows "succeeds (ignore m)"
proof -
  have "wp m (\<lambda>r _. \<forall>p. r \<noteq> Panic p) s" for s
    using assms unfolding keeps_def by (auto elim!: allE [of _ s] wp_mono)
  from wp_mono [OF this] show ?thesis unfolding succeeds_def wp_ignore by (auto split: out.splits)
qed

lemma succeeds_drop_staged: "succeeds (drop_staged fs p :: ('w, unit) mact)"
  unfolding drop_staged_def by (intro succeeds_ignore calm_intros)

lemma succeeds_attempt:
  assumes "keeps calm m"
  shows "succeeds (attempt m)"
proof -
  have "wp m (\<lambda>r _. \<forall>p. r \<noteq> Panic p) s" for s
    using assms unfolding keeps_def by (auto elim!: allE [of _ s] wp_mono)
  from wp_mono [OF this] show ?thesis unfolding succeeds_def wp_attempt by (auto split: out.splits)
qed

lemma succeeds_persist: "succeeds (persist_dns_record i record)"
  unfolding persist_dns_record_def publish_dns_record_def Let_def
  by (intro succeeds_intros succeeds_attempt calm_intros)

lemma succeeds_dns_restore: "succeeds (dns_restore i)"
  unfolding dns_restore_def by (intro succeeds_intros succeeds_awaited succeeds_persist)

lemma succeeds_within: "succeeds m \<Longrightarrow> succeeds (within i limit m)"
  unfolding within_def by (intro succeeds_awaited succeeds_intros)

lemma succeeds_patch_and_verify: "succeeds (patch_and_verify i inst patch expected)"
  unfolding patch_and_verify_def by (intro succeeds_intros)

lemma succeeds_reconcile_in_place: "succeeds (reconcile_in_place i inst change desired)"
  unfolding reconcile_in_place_def by (cases change) (simp_all add: succeeds_patch_and_verify succeeds_intros)

lemma succeeds_then:
  assumes "phase qs B c X s" and "keeps calm m" and "succeeds m" and "\<And>x s'. phase qs B c X s' \<Longrightarrow> wp (f x) (ends ok bad) s'"
  shows "wp (bnd m f) (ends ok bad) s"
proof -
  have "wp m (ends (\<lambda>_. phase qs B c X) (\<lambda>_ _. False)) s"
    using phase_step [OF assms(2,1)] assms(3) by (auto simp: wp_def succeeds_def ends_def split: prod.splits out.splits)
  then show ?thesis by (rule ends_bnd) (use assms(4) in auto)
qed

lemma pid_spec: "phase qs B c X s \<Longrightarrow> wp (pid_of i inst) (ends (\<lambda>_. phase qs B c X) (\<lambda>_ _. False)) s"
  by (simp add: pid_of_def wp_rules)

lemmas terminal_inv = terminal_fail [OF _ phase_inv]

lemma cleaned_terminal_inv:
  assumes "phase qs B c {} s"
  shows "wp (bnd (ignore (cleanup_epoch i e)) (\<lambda>_. bnd (publish_terminal_error i err') (\<lambda>_. fail err))) (ends ok (\<lambda>_. mgr_inv)) s"
  by (rule ignore_then [OF assms calm_cleanup_epoch], rule terminal_inv)

lemma cleaned_republish_inv:
  assumes "phase qs B c {} s"
  shows "wp (bnd (ignore (cleanup_epoch i e)) (\<lambda>_. bnd (republish_retained i) (\<lambda>_. fail err))) (ends ok (\<lambda>_. mgr_inv)) s"
  by (rule ignore_then [OF assms calm_cleanup_epoch], rule ends_bnd [OF republish_spec]) (auto intro!: ends_fail intro: phase_inv)

text \<open>Facts about what an operation returns.\<close>

definition returns :: "('s, 'a) act \<Rightarrow> ('a \<Rightarrow> bool) \<Rightarrow> bool" where
  "returns m P = (\<forall>s x s'. m s = (Ok x, s') \<longrightarrow> P x)"

lemma returns_ret: "P x \<Longrightarrow> returns (ret x) P" and returns_fail: "returns (fail e) P"
  by (simp_all add: returns_def ret_def fail_def)

lemma returns_bnd: "(\<And>x. returns (f x) P) \<Longrightarrow> returns (bnd m f) P"
  by (auto simp: returns_def bnd_def split: prod.splits out.splits)

lemma returns_if: "(b \<Longrightarrow> returns m P) \<Longrightarrow> (\<not> b \<Longrightarrow> returns n P) \<Longrightarrow> returns (if b then m else n) P"
  by simp

lemmas returns_intros = returns_ret returns_fail returns_bnd returns_if

lemma returned_then:
  assumes "phase qs B c X s" and "keeps calm m" and "returns m P"
    and "\<And>x s'. phase qs B c X s' \<Longrightarrow> P x \<Longrightarrow> wp (f x) (ends ok bad) s'" and "\<And>e s'. phase qs B c X s' \<Longrightarrow> bad e s'"
  shows "wp (bnd m f) (ends ok bad) s"
proof -
  have "wp m (ends (\<lambda>x s'. phase qs B c X s' \<and> P x) (\<lambda>_. phase qs B c X)) s"
    using phase_step [OF assms(2,1)] assms(3) by (auto simp: wp_def returns_def ends_def split: prod.splits out.splits)
  then show ?thesis by (rule ends_bnd) (use assms(4,5) in auto)
qed

lemma returned_attempt_then:
  assumes "phase qs B c X s" and "keeps calm m" and "returns m P"
    and "\<And>x s'. phase qs B c X s' \<Longrightarrow> P x \<Longrightarrow> wp (f (Inr x)) (ends ok bad) s'"
    and "\<And>e s'. phase qs B c X s' \<Longrightarrow> wp (f (Inl e)) (ends ok bad) s'"
  shows "wp (bnd (attempt m) f) (ends ok bad) s"
proof -
  have "wp m (ends (\<lambda>x s'. phase qs B c X s' \<and> P x) (\<lambda>_. phase qs B c X)) s"
    using phase_step [OF assms(2,1)] assms(3) by (auto simp: wp_def returns_def ends_def split: prod.splits out.splits)
  then show ?thesis by (rule ends_attempt_bnd) (use assms(4,5) in auto)
qed

lemma launch_plan_epoch [simp]: "plan_epoch (launch_plan i spec snap r p e g path) = e"
  by (simp add: launch_plan_def plan_epoch_def)

lemma launch_plan_spec [simp]: "pl_source_spec (launch_plan i spec snap r p e g path) = spec"
  by (simp add: launch_plan_def)

lemma returns_prepare:
  "returns (prepare_launch_with_features i spec e snap r) (\<lambda>plan. plan_epoch plan = e \<and> pl_source_spec plan = spec)"
  "returns (prepare_launch i spec e snap) (\<lambda>plan. plan_epoch plan = e \<and> pl_source_spec plan = spec)"
  "returns (prepare_graceful i spec e snap r) (\<lambda>(plan, _). plan_epoch plan = e \<and> pl_source_spec plan = spec)"
  "returns (prepare_apply i a input snap) (\<lambda>(plan, _). plan_epoch plan = plan_epoch (ac_plan a) \<and> pl_source_spec plan = input)"
  unfolding prepare_launch_def prepare_launch_with_features_def prepare_graceful_def prepare_apply_def Let_def
  by (intro returns_intros, simp)+

section \<open>Start and stop\<close>

text \<open>The slot is taken by the plan, which is what the published status describes.\<close>

definition runs :: "epoch set \<Rightarrow> epoch_plan \<Rightarrow> 'w mgr \<Rightarrow> bool" where
  "runs B plan s =
     (\<exists>inst. phase [] B (Some \<lparr>ac_instance = inst, ac_plan = plan\<rparr>) {} s \<and> st_revision (m_status s) = Some (pl_revision plan) \<and>
        m_last_spec s = Some (pl_source_spec plan))"

lemma runs_inv: "runs B plan s \<Longrightarrow> mgr_inv s"
  by (auto simp: runs_def intro: phase_inv)

definition runs_spec :: "instance_spec \<Rightarrow> 'w mgr \<Rightarrow> bool" where
  "runs_spec spec s = (\<exists>B plan. runs B plan s \<and> pl_source_spec plan = spec)"

lemma runs_specI: "runs B plan s \<Longrightarrow> runs_spec (pl_source_spec plan) s" and runs_specI': "runs B plan s \<Longrightarrow> pl_source_spec plan = spec \<Longrightarrow> runs_spec spec s"
  by (auto simp: runs_spec_def)

text \<open>What a successful apply leaves: the revision it reports is the one in the slot, the last specification
  is the source of that plan, and the plan is for the requested specification unless the change was rolled
  back, and then it is the old one.\<close>

primrec outcome_revision :: "apply_outcome \<Rightarrow> config_revision" where
  "outcome_revision (Started r) = r"
| "outcome_revision (Noop r) = r"
| "outcome_revision (Patched r) = r"
| "outcome_revision (Reloaded r) = r"
| "outcome_revision (Restarted r) = r"
| "outcome_revision (Switched r) = r"
| "outcome_revision (RolledBack r _) = r"
| "outcome_revision (ApplyDurabilityUncertain o' _) = outcome_revision o'"

primrec rolled_back :: "apply_outcome \<Rightarrow> bool" where
  "rolled_back (Started _) = False"
| "rolled_back (Noop _) = False"
| "rolled_back (Patched _) = False"
| "rolled_back (Reloaded _) = False"
| "rolled_back (Restarted _) = False"
| "rolled_back (Switched _) = False"
| "rolled_back (RolledBack _ _) = True"
| "rolled_back (ApplyDurabilityUncertain o' _) = rolled_back o'"

primrec nothing_done :: "apply_outcome \<Rightarrow> bool" where
  "nothing_done (Started _) = False"
| "nothing_done (Noop _) = True"
| "nothing_done (Patched _) = False"
| "nothing_done (Reloaded _) = False"
| "nothing_done (Restarted _) = False"
| "nothing_done (Switched _) = False"
| "nothing_done (RolledBack _ _) = False"
| "nothing_done (ApplyDurabilityUncertain o' _) = nothing_done o'"

definition settled :: "epoch_plan option \<Rightarrow> instance_spec \<Rightarrow> apply_outcome \<Rightarrow> 'w mgr \<Rightarrow> bool" where
  "settled old input outcome s =
     (mgr_inv s \<and> m_quarantine s = [] \<and>
      (case m_current s of
         None \<Rightarrow> False
       | Some a \<Rightarrow>
           pl_revision (ac_plan a) = outcome_revision outcome \<and> m_last_spec s = Some (pl_source_spec (ac_plan a)) \<and>
           (if rolled_back outcome then old = Some (ac_plan a) else pl_source_spec (ac_plan a) = input)) \<and>
      (nothing_done outcome \<or> st_revision (m_status s) = Some (outcome_revision outcome)))"

lemma settled_runs:
  assumes "runs B plan s" and "outcome_revision outcome = pl_revision plan"
    and "if rolled_back outcome then old = Some plan else pl_source_spec plan = input"
  shows "settled old input outcome s"
  using assms runs_inv [OF assms(1)] by (auto simp: settled_def runs_def dest: phase_current phase_quarantine)

lemma settled_durable: "settled old input outcome s \<Longrightarrow> settled old input (ApplyDurabilityUncertain outcome w) s"
  by (auto simp: settled_def split: option.splits)

lemma durability_then:
  assumes "wp m (ends (settled old input) (\<lambda>_. mgr_inv)) s"
  shows "wp (bnd (attempt m) (\<lambda>result. lift (with_durability_result result warning))) (ends (settled old input) (\<lambda>_. mgr_inv)) s"
  by (rule ends_attempt_bnd [OF assms])
    (auto intro!: ends_lift simp: with_durability_result_def settled_durable split: option.splits)

lemma runs_calm: "calm s s' \<Longrightarrow> runs B plan s \<Longrightarrow> runs B plan s'"
  unfolding runs_def by (auto dest: phase_calm) (auto simp: calm_def ctrl_view_def revision_view_def)

lemma runs_then:
  assumes "runs B plan s" and "keeps calm m" and "\<And>x s'. runs B plan s' \<Longrightarrow> wp (f x) (ends ok (\<lambda>_. mgr_inv)) s'"
  shows "wp (bnd m f) (ends ok (\<lambda>_. mgr_inv)) s"
  by (rule ends_bnd [OF ends_calm [OF assms(2), of s "runs B plan"]]) (use assms runs_calm runs_inv in auto)

lemma runs_ignore_then:
  assumes "runs B plan s" and "keeps calm m" and "\<And>s'. runs B plan s' \<Longrightarrow> wp (f ()) (ends ok (\<lambda>_. mgr_inv)) s'"
  shows "wp (bnd (ignore m) f) (ends ok (\<lambda>_. mgr_inv)) s"
  by (rule runs_then [OF assms(1)]) (use assms(2,3) in \<open>auto intro: calm_intros\<close>)

context runtime_backend
begin

lemma stop_in_flight:
  assumes "phase qs B c {e} s" and "ri_epoch inst = e"
    and "\<And>s'. phase qs B c {} s' \<Longrightarrow> wp (f (Inr ())) (ends ok bad) s'"
    and "\<And>err s'. phase qs B c {e} s' \<Longrightarrow> is_unconfirmed err \<Longrightarrow> wp (f (Inl err)) (ends ok bad) s'"
  shows "wp (bnd (attempt (stop_and_confirm_dead i inst)) f) (ends ok bad) s"
  by (rule ends_attempt_bnd [OF stop_spec [OF assms(1)]]) (use assms in auto)

lemma start_prepared_spec:
  assumes "phase [] B None {} s" and "plan_epoch plan \<in> B"
  shows "wp (start_prepared i plan) (ends (\<lambda>_. runs B plan) (\<lambda>_. mgr_inv)) s"
  unfolding start_prepared_def Let_def
proof (rule ends_bnd [OF pub_spec [OF assms(1)]], goal_cases)
  case (2 u s1)
  then have "phase [] B None {} s1" ..
  then show ?case
  proof (rule ends_attempt_bnd [OF spawn_spec [OF _ assms(2)]], goal_cases)
    case (2 inst s2)
    then have ph: "phase [] B None {plan_epoch plan} s2" and inst: "ri_epoch inst = plan_epoch plan" by auto
    show ?case
      unfolding sum.case
    proof (rule calm_attempt_then [OF ph calm_wait_ready], goal_cases)
      case (1 u s3)
      show ?case
        unfolding sum.case
      proof (rule ends_bnd [OF pid_spec [OF 1]], goal_cases)
        case (1 pid s4)
        then show ?case
          by (rule ends_bnd [OF pub_instance_spec]) (auto intro!: ends_mono [OF install_spec] inst simp: runs_def)
      qed simp
    next
      case (2 err s3)
      show ?case
        unfolding sum.case
        by (rule stop_in_flight [OF 2 inst]) (auto intro!: cleaned_terminal_inv latch_fail)
    qed
  qed (auto simp: occupant_def intro: cleaned_terminal_inv)
qed simp_all

lemma start_locked_spec:
  assumes "phase [] B None {} s"
  shows "wp (start_locked i spec) (ends (\<lambda>_. runs_spec spec) (\<lambda>_. mgr_inv)) s"
  unfolding start_locked_def
proof (rule ends_bnd [OF next_epoch_spec [OF assms]], goal_cases)
  case (1 e s1)
  then have ph: "phase [] (insert e B) None {} s1" ..
  show ?case
  proof (rule calm_attempt_then [OF ph calm_load_config], goal_cases)
    case (1 snap s2)
    show ?case
      unfolding sum.case
      by (rule returned_attempt_then [OF 1 calm_prepare_launch(2) returns_prepare(2)])
        (auto intro!: cleaned_terminal_inv ends_mono [OF start_prepared_spec] runs_specI)
  qed (simp add: terminal_inv)
qed simp

lemma discard_stale_spec:
  assumes "phase qs B c {} s"
  shows "wp (discard_stale i) (ends (\<lambda>_ s'. \<exists>B. phase qs B None {} s') (\<lambda>_. mgr_inv)) s"
proof (cases c)
  case None
  show ?thesis
    unfolding discard_stale_def
    by (rule ends_bnd [OF retire_none_spec]) (use assms None in \<open>auto intro: ends_ret\<close>)
next
  case (Some a)
  show ?thesis
    unfolding discard_stale_def
    by (rule ends_bnd [OF retire_spec])
      (use assms Some in \<open>auto intro!: latch_fail ends_mono [OF phase_step [OF calm_cleanup_epoch]] intro: phase_inv\<close>)
qed

lemma fresh_start_spec:
  assumes "phase [] B c {} s"
  shows "wp (bnd (discard_stale i) (\<lambda>_. start_locked i spec)) (ends (\<lambda>_. runs_spec spec) (\<lambda>_. mgr_inv)) s"
  by (rule ends_bnd [OF discard_stale_spec [OF assms]]) (auto elim: start_locked_spec)

lemma gate_spec:
  assumes "mgr_inv s" and "\<And>c. phase [] {} c {} s \<Longrightarrow> m_current s = c \<Longrightarrow> wp m (ends ok (\<lambda>_. mgr_inv)) s"
  shows "wp (bnd reject_quarantine (\<lambda>_. m)) (ends ok (\<lambda>_. mgr_inv)) s"
proof (cases "m_quarantine s")
  case Nil
  then show ?thesis using assms by (simp add: reject_quarantine_def wp_rules quarantine_error_def mgr_inv_def)
next
  case (Cons q qs)
  then show ?thesis using assms(1) by (simp add: reject_quarantine_def wp_rules quarantine_error_def Let_def)
qed

lemma mgr_start_spec:
  assumes "mgr_inv s"
  shows "wp (mgr_start i spec) (ends (\<lambda>_. runs_spec spec) (\<lambda>_. mgr_inv)) s"
  unfolding mgr_start_def
proof (rule gate_spec [OF assms], goal_cases)
  case (1 c)
  show ?case
  proof (rule calm_then [OF 1(1) calm_current_running], goal_cases)
    case (1 running s1)
    have "wp (bnd (discard_stale i) (\<lambda>_. start_locked i spec)) (ends (\<lambda>_. runs_spec spec) (\<lambda>_. mgr_inv)) s1"
      by (rule fresh_start_spec [OF 1])
    then show ?case using phase_inv [OF 1] by (simp add: ends_fail)
  qed (rule phase_inv)
qed

text \<open>Stopping what was in the slot, whatever is quarantined.\<close>

lemma stop_taken_spec:
  assumes "phase qs B None {e} s" and "ri_epoch inst = e"
    and "\<And>s'. phase qs B None {} s' \<Longrightarrow> wp done' (ends ok (\<lambda>_. mgr_inv)) s'"
  shows "wp (bnd (attempt (stop_and_confirm_dead i inst)) (\<lambda>stopped.
      case stopped of
        Inl err \<Rightarrow> if is_unconfirmed err then bnd (latch_quarantine i e err) fail else other err
      | Inr _ \<Rightarrow>
          bnd (attempt (cleanup_epoch i e)) (\<lambda>cleaned.
          case cleaned of
            Inl err \<Rightarrow> bnd (publish_terminal_error i err) (\<lambda>_. fail err)
          | Inr _ \<Rightarrow> done'))) (ends ok (\<lambda>_. mgr_inv)) s"
proof (rule stop_in_flight [OF assms(1,2)], goal_cases)
  case (1 s')
  show ?case
    unfolding sum.case
    by (rule calm_attempt_then [OF 1 calm_cleanup_epoch]) (auto intro: terminal_inv assms(3))
qed (simp add: latch_fail)

lemma stopped_spec:
  "phase qs B None {} s \<Longrightarrow> wp (pub i (CStopped reason) None) (ends (\<lambda>_ s'. mgr_inv s' \<and> m_current s' = None) (\<lambda>_. mgr_inv)) s"
  by (rule ends_mono [OF pub_spec]) (auto intro: phase_inv dest: phase_current)

text \<open>Taking the occupant out of the slot, as stop and shutdown do.\<close>

lemma take_spec:
  assumes "phase qs {} c {} s" and "\<And>t. phase qs {} None {} t \<Longrightarrow> wp (f None) (ends ok (\<lambda>_. mgr_inv)) t"
    and "\<And>a t. c = Some a \<Longrightarrow> ri_epoch (ac_instance a) = plan_epoch (ac_plan a) \<Longrightarrow>
      phase qs {plan_epoch (ac_plan a)} None {plan_epoch (ac_plan a)} t \<Longrightarrow> wp (f (Some a)) (ends ok (\<lambda>_. mgr_inv)) t"
  shows "wp (bnd (gets m_current) (\<lambda>current. bnd (modify (\<lambda>s. s\<lparr>m_current := None\<rparr>)) (\<lambda>_. f current))) (ends ok (\<lambda>_. mgr_inv)) s"
proof (cases c)
  case None
  then have "phase qs {} None {} (s\<lparr>m_current := None\<rparr>)" using assms(1) by (simp add: phase_def)
  then show ?thesis using assms(2) None phase_current [OF assms(1)] by (simp add: wp_rules)
next
  case (Some a)
  then show ?thesis
    using assms(3) phase_take [of qs "{}" a "{}" s] phase_current [OF assms(1)] phase_active [of qs "{}" a "{}" s] assms(1)
    by (simp add: wp_rules active_ok_def)
qed

lemma stopping_spec:
  assumes "phase qs B None {e} s" and "plan_epoch plan = e"
    and "\<And>x. state_epoch state = Some x \<Longrightarrow> x = e"
    and "\<And>s'. phase qs B None {e} s' \<Longrightarrow> wp m (ends ok (\<lambda>_. mgr_inv)) s'"
  shows "wp (bnd (pub i state (Some plan)) (\<lambda>_. m)) (ends ok (\<lambda>_. mgr_inv)) s"
  by (rule ends_bnd [OF pub_spec [OF assms(1)]]) (use assms in auto)

lemma mgr_stop_spec:
  assumes "mgr_inv s"
  shows "wp (mgr_stop i) (ends (\<lambda>_ s'. mgr_inv s' \<and> m_current s' = None) (\<lambda>_. mgr_inv)) s"
proof -
  have ph: "phase (m_quarantine s) {} (m_current s) {} s" using assms by (simp add: mgr_inv_def)
  show ?thesis
    unfolding mgr_stop_def
  proof (rule calm_then [OF ph calm_dns_restore], rule take_spec, assumption, goal_cases)
    case (2 u s1 a t)
    note e = 2(3)
    show ?case
      unfolding option.case Let_def status_of_def wp_bnd [of "gets f" for f] wp_gets out.simps e
    proof (rule ends_bnd [OF abort_spec [OF 2(4)]], goal_cases)
      case (1 u s2)
      show ?case
        by (rule wp_if; rule stopping_spec [OF 1 refl])
          (auto dest: state_epoch_instance intro!: stop_taken_spec [OF _ e] stopped_spec intro: ends_fail phase_inv)
    qed simp
  qed (auto intro: ends_fail phase_inv)
qed

lemma shutdown_core_spec:
  assumes "mgr_inv s"
  shows "wp (shutdown_core i) (ends (\<lambda>_ s'. mgr_inv s' \<and> m_current s' = None) (\<lambda>_. mgr_inv)) s"
proof -
  have ph: "phase (m_quarantine s) {} (m_current s) {} s" using assms by (simp add: mgr_inv_def)
  show ?thesis
    unfolding shutdown_core_def
  proof (rule take_spec [OF ph], goal_cases)
    case (2 a t)
    note e = 2(2)
    show ?case
      unfolding option.case Let_def e
    proof (rule ends_bnd [OF abort_spec [OF 2(3)]], goal_cases)
      case (1 u s2)
      show ?case
        by (rule stopping_spec [OF 1 refl]) (auto intro!: stop_taken_spec [OF _ e] stopped_spec)
    qed simp
  qed (auto intro: ends_ret phase_inv dest: phase_current)
qed

lemma mgr_shutdown_spec:
  assumes "mgr_inv s"
  shows "wp (mgr_shutdown i) (ends (\<lambda>_ s'. mgr_inv s' \<and> m_current s' = None) (\<lambda>_. mgr_inv)) s"
proof -
  have ph: "phase (m_quarantine s) {} (m_current s) {} s" using assms by (simp add: mgr_inv_def)
  have sink: "mgr_inv (if m_log_sink t then t\<lparr>m_log_sink := False, ss_world := w\<rparr> else t) = mgr_inv t"
    "m_current (if m_log_sink t then t\<lparr>m_log_sink := False, ss_world := w\<rparr> else t) = m_current t" for t :: "'a mgr" and w
    by (simp_all add: mgr_inv_def phase_def)
  show ?thesis
    unfolding mgr_shutdown_def
  proof (rule calm_then [OF ph calm_dns_restore], goal_cases)
    case (1 u t)
    show ?case
      by (rule ends_attempt_bnd [OF shutdown_core_spec [OF phase_inv [OF 1]]]) (simp_all add: wp_rules sink)
  qed (rule phase_inv)
qed

section \<open>Replacements and switches\<close>

lemma phase_widen: "phase [] B None {} s \<Longrightarrow> e \<in> B \<Longrightarrow> phase [] B None {e} s"
  by (auto simp: phase_def occupant_def)

text \<open>A failed replacement leaves no process unless the error says that its death is unconfirmed.\<close>

lemma spawn_replacement_spec:
  assumes "phase [] B None {} s" and "plan_epoch plan \<in> B"
  shows "wp (spawn_replacement i plan)
    (ends (\<lambda>inst s'. phase [] B None {plan_epoch plan} s' \<and> ri_epoch inst = plan_epoch plan)
       (\<lambda>err s'. phase [] B None {plan_epoch plan} s' \<and> (\<not> is_unconfirmed err \<longrightarrow> phase [] B None {} s'))) s"
  unfolding spawn_replacement_def
proof (rule ends_bnd [OF spawn_spec [OF assms]], goal_cases)
  case (2 inst s1)
  then have ph: "phase [] B None {plan_epoch plan} s1" and inst: "ri_epoch inst = plan_epoch plan" by auto
  show ?case
  proof (rule calm_attempt_then [OF ph calm_wait_ready], goal_cases)
    case (2 err s2)
    show ?case
      unfolding sum.case
      by (rule stop_in_flight [OF 2 inst]) (auto intro!: ends_fail intro: phase_widen assms(2))
  qed (simp add: inst ends_ret)
qed (auto simp: occupant_def intro: phase_widen assms(2))

lemma retire_then:
  assumes "phase qs B (Some a) X s"
    and "\<And>t. phase qs (insert (plan_epoch (ac_plan a)) B) None X t \<Longrightarrow> wp (f (Inr (Some (ac_plan a)))) (ends ok bad) t"
    and "\<And>err t. is_unconfirmed err \<Longrightarrow> phase qs (insert (plan_epoch (ac_plan a)) B) None (insert (plan_epoch (ac_plan a)) X) t \<Longrightarrow>
      wp (f (Inl (plan_epoch (ac_plan a), err))) (ends ok bad) t"
  shows "wp (bnd (retire_current i) f) (ends ok bad) s"
  by (rule ends_bnd [OF retire_spec [OF assms(1)]]) (use assms(2,3) in auto)

lemma cleaned_latch_inv:
  assumes "phase qs B c {e} s"
  shows "wp (bnd (ignore (cleanup_epoch i e')) (\<lambda>_. bnd (latch_quarantine i e err) fail)) (ends ok (\<lambda>_. mgr_inv)) s"
  by (rule ignore_then [OF assms calm_cleanup_epoch]) (rule latch_fail)

lemma hard_switch_spec:
  assumes "phase [] {} (Some a) {} s"
  shows "wp (hard_switch i spec snap resolved) (ends (\<lambda>_. runs_spec spec) (\<lambda>_. mgr_inv)) s"
  unfolding hard_switch_def
proof (rule ends_bnd [OF next_epoch_spec [OF assms]], goal_cases)
  case (1 e s1)
  then have ph: "phase [] {e} (Some a) {} s1" and e: "e \<noteq> plan_epoch (ac_plan a)" by (auto simp: occupant_def)
  show ?case
  proof (rule returned_attempt_then [OF ph calm_prepare_launch(1) returns_prepare(1)], goal_cases)
    case (1 plan s2)
    have p: "plan_epoch plan = e" "pl_source_spec plan = spec" using 1(2) by auto
    show ?case
      unfolding sum.case wp_bnd [of "gets f" for f] wp_gets out.simps phase_current [OF 1(1)]
    proof (rule ends_bnd [OF pub_spec [OF 1(1)]], goal_cases)
      case (2 u s3)
      then have "phase [] {e} (Some a) {} s3" ..
      then show ?case
      proof (rule retire_then, goal_cases)
        case (1 t)
        show ?case
          unfolding sum.case option.case
          by (rule calm_attempt_then [OF 1 calm_cleanup_epoch])
            (auto intro!: terminal_inv ends_mono [OF start_prepared_spec] runs_specI' simp: p)
      qed (simp add: cleaned_latch_inv)
    qed (simp_all add: p)
  qed (simp add: cleaned_republish_inv)
qed simp

text \<open>Publishing the running instance and installing it.\<close>

lemma published_install:
  assumes "phase [] B None {plan_epoch plan} s" and "ri_epoch inst = plan_epoch plan"
    and "\<And>t. runs B plan t \<Longrightarrow> wp m (ends ok (\<lambda>_. mgr_inv)) t"
  shows "wp (bnd (pid_of i inst) (\<lambda>pid. bnd (pub_instance i inst (CRunning (plan_epoch plan) pid) plan) (\<lambda>_.
    bnd (install inst plan) (\<lambda>_. m)))) (ends ok (\<lambda>_. mgr_inv)) s"
proof (rule ends_bnd [OF pid_spec [OF assms(1)]], goal_cases)
  case (1 pid s1)
  show ?case
  proof (rule ends_bnd [OF pub_instance_spec [OF 1]], goal_cases)
    case (2 u s2)
    then have ph: "phase [] B None {plan_epoch plan} s2" and rev: "st_revision (m_status s2) = Some (pl_revision plan)" by auto
    show ?case
      by (rule ends_bnd [OF install_spec [OF ph assms(2)]]) (use rev in \<open>auto intro!: assms(3) simp: runs_def\<close>)
  qed simp_all
qed simp

lemma cleaned_outcome:
  assumes "runs B plan s"
  shows "wp (bnd (cleanup_epoch i e) (\<lambda>_. ret x)) (ends (\<lambda>_. runs_spec (pl_source_spec plan)) (\<lambda>_. mgr_inv)) s"
  by (rule runs_then [OF assms calm_cleanup_epoch]) (auto intro: ends_ret runs_specI)

text \<open>A replacement for a stopped instance of the same plan, or its failure.\<close>

lemma replacement_then:
  assumes "phase [] B None {} s" and "plan_epoch plan \<in> B"
    and "\<And>inst t. phase [] B None {plan_epoch plan} t \<Longrightarrow> ri_epoch inst = plan_epoch plan \<Longrightarrow> wp (good inst) (ends ok (\<lambda>_. mgr_inv)) t"
    and "\<And>err t. phase [] B None {} t \<Longrightarrow> wp (other err) (ends ok (\<lambda>_. mgr_inv)) t"
  shows "wp (bnd (attempt (spawn_replacement i plan)) (\<lambda>replaced.
      case replaced of
        Inl err \<Rightarrow> if is_unconfirmed err then bnd (latch_quarantine i (plan_epoch plan) (f err)) fail else other err
      | Inr inst \<Rightarrow> good inst)) (ends ok (\<lambda>_. mgr_inv)) s"
  by (rule ends_attempt_bnd [OF spawn_replacement_spec [OF assms(1,2)]])
    (use assms(3,4) in \<open>auto intro: latch_fail\<close>)

lemma graceful_finish_spec:
  assumes "phase [] B None {plan_epoch plan} s" and "ri_epoch inst = plan_epoch plan" and "plan_epoch plan \<in> B"
  shows "wp (graceful_finish i plan inst restoration old) (ends (\<lambda>_. runs_spec (pl_source_spec plan)) (\<lambda>_. mgr_inv)) s"
  unfolding graceful_finish_def Let_def
proof (rule succeeds_then [OF assms(1)], goal_cases)
  case (3 reconciled s1)
  show ?case
  proof (rule wp_if, goal_cases)
    case 1
    show ?case by (rule published_install [OF 3 assms(2) cleaned_outcome])
  next
    case 2
    show ?case
    proof (rule stop_in_flight [OF \<open>phase [] B None {plan_epoch plan} s1\<close> assms(2)], goal_cases)
      case (1 t)
      show ?case
        unfolding sum.case(2)
        by (rule replacement_then [where f = "\<lambda>e. e", OF 1 assms(3)]) (auto intro: published_install cleaned_outcome cleaned_terminal_inv)
    qed (simp add: latch_fail)
  qed
next
  case 2
  show ?case by (intro succeeds_within succeeds_option succeeds_on_world succeeds_prod succeeds_patch_and_verify)
qed (intro calm_intros)

lemma graceful_commit_spec:
  assumes "phase [] B None {plan_epoch plan} s" and "ri_epoch inst = plan_epoch plan" and "plan_epoch plan \<in> B"
  shows "wp (graceful_commit i plan inst full restoration old) (ends (\<lambda>_. runs_spec (pl_source_spec plan)) (\<lambda>_. mgr_inv)) s"
  unfolding graceful_commit_def Let_def
proof (rule calm_attempt_then [OF assms(1)], goal_cases)
  case (2 commit s1)
  show ?case
    unfolding sum.case
    by (rule ends_attempt_bnd [OF graceful_finish_spec [OF 2 assms(2,3)]])
      (auto intro!: ends_lift simp: with_switch_durability_result_def split: option.splits)
next
  case (3 err s1)
  show ?case
    unfolding sum.case
  proof (rule stop_in_flight [OF 3 assms(2)], goal_cases)
    case (1 t)
    show ?case
      unfolding sum.case
      by (rule ignore_then [OF 1 calm_cleanup_epoch]) (auto intro: terminal_inv latch_fail phase_widen assms(3))
  qed (simp add: wp_bnd [of "ret x" for x] wp_ret latch_fail)
qed (intro calm_intros)

lemma graceful_takeover_spec:
  assumes "phase [] B (Some a) {plan_epoch plan} s" and inst: "ri_epoch inst = plan_epoch plan" and "plan_epoch plan \<in> B"
  shows "wp (graceful_takeover i plan inst full restoration) (ends (\<lambda>_. runs_spec (pl_source_spec plan)) (\<lambda>_. mgr_inv)) s"
  unfolding graceful_takeover_def Let_def
proof (rule retire_then [OF assms(1)], goal_cases)
  case (1 t)
  show ?case unfolding sum.case option.case by (rule graceful_commit_spec [OF 1 inst]) (simp add: assms(3))
next
  case (2 err t)
  let ?old = "plan_epoch (ac_plan a)" and ?e = "plan_epoch plan"
  have X: "insert ?old {?e} - {?e} = {?old}" "insert ?old {?e} - {?old} = {?e}"
    using assms(1) by (auto simp: phase_def occupant_def)
  show ?case
    unfolding sum.case prod.case
  proof (rule succeeds_then [OF 2(2) calm_drop_staged succeeds_drop_staged], goal_cases)
    case (1 u t1)
    show ?case
    proof (rule ends_attempt_bnd [OF stop_spec [OF 1, of inst]], goal_cases)
      case (3 err' t2)
      then have ph: "phase [] (insert ?old B) None (insert ?old {?e}) t2" by simp
      from record_spec [OF this, of ?old] have
        "phase (record_quarantine ?old (error_to_string err) []) (insert ?old B) None {?e}
          (t2\<lparr>m_quarantine := record_quarantine ?old (error_to_string err) []\<rparr>)" by (simp add: X)
      from latch_fail [OF this] show ?case
        using 2(1) phase_quarantine [OF ph] by (simp add: record_quarantine_in_def wp_bnd [of "modify f" for f] wp_modify)
    qed (use 2(1) in \<open>simp_all add: inst X cleaned_latch_inv\<close>)
  qed
qed

lemma graceful_switch_spec:
  assumes "phase [] {} (Some a) {} s"
  shows "wp (graceful_switch i spec snap resolved) (ends (\<lambda>_. runs_spec spec) (\<lambda>_. mgr_inv)) s"
  unfolding graceful_switch_def wp_bnd [of "gets f" for f] wp_gets out.simps phase_current [OF assms]
proof (rule ends_bnd [OF next_epoch_spec [OF assms]], goal_cases)
  case (1 e s1)
  then have ph: "phase [] {e} (Some a) {} s1" and e: "e \<notin> occupant (Some a)" by (auto simp: occupant_def)
  show ?case
  proof (rule returned_attempt_then [OF ph calm_prepare_launch(3) returns_prepare(3)], goal_cases)
    case (1 prepared s2)
    obtain plan full restoration where pr: "prepared = (plan, full, restoration)" by (cases prepared) auto
    then have p: "plan_epoch plan = e" and sp: "pl_source_spec plan = spec" using 1(2) by auto
    show ?case
      unfolding sum.case pr prod.case
    proof (rule ends_bnd [OF pub_spec [OF 1(1)]], goal_cases)
      case (2 u s3)
      then have "phase [] {e} (Some a) {} s3" ..
      then show ?case
      proof (rule ends_attempt_bnd [OF spawn_spec [of "{e}" "Some a" _ plan]], goal_cases)
        case (3 inst s4)
        then have ph: "phase [] {e} (Some a) {e} s4" and inst: "ri_epoch inst = e" by (auto simp: p)
        show ?case
          unfolding sum.case
        proof (rule calm_attempt_then [OF ph calm_wait_ready], goal_cases)
          case (1 u s5)
          then show ?case unfolding sum.case sp [symmetric] by (auto simp: p intro!: graceful_takeover_spec intro: inst)
        next
          case (2 err s5)
          show ?case
            unfolding sum.case
            by (rule succeeds_then [OF 2 calm_drop_staged succeeds_drop_staged], rule stop_in_flight [OF _ inst])
              (auto intro: cleaned_republish_inv latch_fail)
        qed
      next
        case (4 err s4)
        show ?case
          unfolding sum.case
          by (rule succeeds_then [OF 4 calm_drop_staged succeeds_drop_staged]) (rule cleaned_republish_inv)
      qed (use e p in simp_all)
    qed (simp_all add: p)
  qed (simp add: cleaned_republish_inv)
qed simp

lemma running_then:
  assumes "phase qs B c X s" and "\<And>a. c = Some a \<Longrightarrow> wp (f True) Q s" and "wp (f False) Q s"
  shows "wp (bnd (current_running i) f) Q s"
proof -
  have "wp (f True) Q s \<Longrightarrow> wp (f b) Q s" for b using assms(3) by (cases b) auto
  then show ?thesis
    using assms(2,3) phase_current [OF assms(1)]
    by (cases c) (auto simp: current_running_def wp_bnd [of "gets f" for f] wp_gets)
qed

lemma switch_locked_spec:
  assumes "phase [] {} c {} s"
  shows "wp (switch_locked i spec) (ends (\<lambda>_. runs_spec spec) (\<lambda>_. mgr_inv)) s"
  unfolding switch_locked_def
proof (rule running_then [OF assms], goal_cases)
  case (1 a)
  have ph: "phase [] {} (Some a) {} s" using assms 1 by simp
  have "wp (bnd (hard_switch i spec snap r) (\<lambda>_. ret x)) (ends (\<lambda>_. runs_spec spec) (\<lambda>_. mgr_inv)) t"
    if "phase [] {} (Some a) {} t" for snap r x t
    by (rule ends_bnd [OF hard_switch_spec [OF that]]) (simp_all add: ends_ret)
  moreover have "wp (graceful_switch i spec snap r) (ends (\<lambda>_. runs_spec spec) (\<lambda>_. mgr_inv)) t"
    if "phase [] {} (Some a) {} t" for snap r t
    by (rule graceful_switch_spec [OF that])
  ultimately have go: "wp (case v of None \<Rightarrow> graceful_switch i spec snap r | Some x \<Rightarrow> bnd (hard_switch i spec snap r) (\<lambda>_. ret (g x)))
      (ends (\<lambda>_. runs_spec spec) (\<lambda>_. mgr_inv)) t" if "phase [] {} (Some a) {} t" for v snap r g t
    using that by (cases v) auto
  show ?case
    unfolding not_True_eq_False if_False Let_def
    by (rule calm_then [OF ph calm_load_config], rule calm_then [OF _ calm_validate_launchable], assumption,
        rule calm_then [OF _ calm_resolve_features], assumption)
      (auto simp: wp_bnd [of "gets f" for f] wp_gets intro!: go elim: phase_inv)
next
  case 2
  show ?case
    unfolding not_False_eq_True if_True
    by (rule ends_bnd [OF discard_stale_spec [OF assms]]) (auto intro!: ends_bnd [OF start_locked_spec] ends_ret)
qed

lemma mgr_switch_spec: "mgr_inv s \<Longrightarrow> wp (mgr_switch i spec) (ends (\<lambda>_. runs_spec spec) (\<lambda>_. mgr_inv)) s"
  unfolding mgr_switch_def by (rule gate_spec) (auto intro: switch_locked_spec)

lemma mgr_restart_spec:
  assumes "mgr_inv s"
  shows "wp (mgr_restart i) (ends (\<lambda>_ s'. \<exists>spec. m_last_spec s = Some spec \<and> runs_spec spec s') (\<lambda>_. mgr_inv)) s"
  unfolding mgr_restart_def
proof (rule gate_spec [OF assms], goal_cases)
  case (1 c)
  then show ?case
    by (cases "m_last_spec s")
      (auto simp: wp_bnd [of "gets f" for f] wp_gets assms intro!: ends_fail ends_mono [OF switch_locked_spec])
qed

end

end
