(* ===== verification/Manager_Apply.thy ===== *)
theory Manager_Apply
  imports Manager_Safety
begin

text \<open>
  The transactions that change a running configuration, reconcile and recovery keep the manager's invariant,
  and what they leave in the slot is what their outcome says.
\<close>

context runtime_backend
begin

section \<open>Applying a configuration\<close>

lemma install_published_then:
  assumes "phase [] B None {plan_epoch plan} s" and "ri_epoch inst = plan_epoch plan"
    and "\<And>t. runs B plan t \<Longrightarrow> wp m (ends ok (\<lambda>_. mgr_inv)) t"
  shows "wp (bnd (install_published i inst plan) (\<lambda>_. m)) (ends ok (\<lambda>_. mgr_inv)) s"
  unfolding install_published_def bnd_assoc pub_active_def
proof (rule ends_bnd [OF pid_spec [OF assms(1)]], goal_cases)
  case (1 pid s1)
  show ?case
  proof (rule ends_bnd [OF install_spec [OF 1 assms(2)]], goal_cases)
    case (1 u s2)
    then have ph: "phase [] B (Some \<lparr>ac_instance = inst, ac_plan = plan\<rparr>) {} s2" and sp: "m_last_spec s2 = Some (pl_source_spec plan)" by auto
    show ?case
      by (rule ends_bnd [OF pub_instance_spec [OF ph]]) (use sp in \<open>auto intro!: assms(3) simp: runs_def\<close>)
  qed simp
qed simp

lemma roll_back_spec:
  assumes "phase [] B None {} s" and "plan_epoch old \<in> B" and "keeps calm after"
  shows "wp (roll_back i old what txt after) (ends (\<lambda>r s'. r = RolledBack (pl_revision old) txt \<and> runs B old s') (\<lambda>_. mgr_inv)) s"
  unfolding roll_back_def
proof (rule ends_bnd [OF pub_spec [OF assms(1)]], goal_cases)
  case (2 u s1)
  show ?case
    unfolding Let_def
  proof (rule ends_attempt_bnd [OF spawn_replacement_spec [OF 2 [THEN conjunct1] assms(2)]], goal_cases)
    case (2 err s2)
    then show ?case by (cases "is_unconfirmed err") (auto intro: terminal_inv [where X = "{}"] latch_fail)
  qed (auto intro!: install_published_then runs_then [OF _ assms(3)] ends_ret)
qed simp_all

lemma restart_with_compensation_spec:
  assumes "phase [] {} (Some a) {} s" and "plan_epoch desired = plan_epoch (ac_plan a)" and "pl_source_spec desired = input"
  shows "wp (restart_with_compensation i desired b) (ends (settled (Some (ac_plan a)) input) (\<lambda>_. mgr_inv)) s"
  unfolding restart_with_compensation_def Let_def
proof (rule retire_then [OF assms(1)], goal_cases)
  case (1 t)
  show ?case
    unfolding sum.case option.case
  proof (rule ends_bnd [OF pub_spec [OF 1]], goal_cases)
    case (2 u s1)
    then have ph: "phase [] {plan_epoch (ac_plan a)} None {} s1" by simp
    show ?case
    proof (rule ends_attempt_bnd [OF spawn_replacement_spec [OF ph]], goal_cases)
      case (2 inst s2)
      then show ?case
        by (auto intro!: install_published_then runs_ignore_then [OF _ calm_awaited [OF calm_backup(3)]] ends_ret
          intro: settled_runs simp: assms)
    next
      case (3 err s2)
      show ?case
      proof (cases "is_unconfirmed err")
        case True
        then show ?thesis using 3 by (simp add: latch_fail)
      next
        case False
        then have "phase [] {plan_epoch (ac_plan a)} None {} s2" using 3 by simp
        then show ?thesis
          unfolding sum.case if_not_P [OF False]
          by (rule calm_attempt_then [OF _ calm_awaited [OF calm_backup(2)]])
            (auto intro!: terminal_inv durability_then ends_mono [OF roll_back_spec] intro: calm_intros settled_runs)
      qed
    qed (simp add: assms)
  qed (simp_all)
qed (simp add: latch_fail)

lemma switch_with_compensation_spec:
  assumes "phase [] {} (Some a) {} s"
  shows "wp (switch_with_compensation i input snap) (ends (settled (Some (ac_plan a)) input) (\<lambda>_. mgr_inv)) s"
  unfolding switch_with_compensation_def Let_def
proof (rule ends_bnd [OF next_epoch_spec [OF assms]], goal_cases)
  case (1 e s1)
  then have ph: "phase [] {e} (Some a) {} s1" by auto
  show ?case
  proof (rule returned_then [OF ph calm_prepare_launch(2) returns_prepare(2)], goal_cases)
    case (1 desired s2)
    then have d: "plan_epoch desired = e" "pl_source_spec desired = input" by auto
    let ?B = "insert (plan_epoch (ac_plan a)) {e}"
    show ?case
    proof (rule retire_then [OF 1(1)], goal_cases)
      case (1 t)
      show ?case
        unfolding sum.case option.case
      proof (rule ends_bnd [OF pub_spec [OF 1]], goal_cases)
        case (2 u s3)
        then have ph: "phase [] ?B None {} s3" by simp
        show ?case
        proof (rule ends_attempt_bnd [OF spawn_replacement_spec [OF ph]], goal_cases)
          case (2 inst s4)
          then show ?case
            by (auto intro!: install_published_then runs_ignore_then [OF _ calm_cleanup_epoch] ends_ret
              intro: settled_runs simp: d)
        next
          case (3 err s4)
          show ?case
          proof (cases "is_unconfirmed err")
            case False
            then have "phase [] ?B None {} s4" using 3 by simp
            then show ?thesis
              unfolding sum.case if_not_P [OF False]
              by (rule ignore_then [OF _ calm_cleanup_epoch])
                (auto intro!: ends_mono [OF roll_back_spec] intro: calm_intros settled_runs)
          qed (use 3 in \<open>simp add: latch_fail\<close>)
        qed (simp add: d)
      qed (simp_all add: d)
    qed (simp add: cleaned_latch_inv)
  qed (rule phase_inv)
qed simp

lemma phase_replan:
  "phase [] B (Some a) {} s \<Longrightarrow> plan_epoch plan = plan_epoch (ac_plan a) \<Longrightarrow>
     phase [] B (Some (a\<lparr>ac_plan := plan\<rparr>)) {} (s\<lparr>m_current := Some (a\<lparr>ac_plan := plan\<rparr>)\<rparr>)"
  by (simp add: phase_def occupant_def active_ok_def)

lemma phase_last_spec: "phase qs B c X (s\<lparr>m_last_spec := v\<rparr>) = phase qs B c X s"
  by (simp add: phase_def)

text \<open>The process stays and its plan becomes the desired one.\<close>

lemma replanned_spec:
  assumes "phase [] B (Some a) {} s" and "plan_epoch desired = plan_epoch (ac_plan a)"
    and "\<And>t. runs B desired t \<Longrightarrow> wp m (ends ok (\<lambda>_. mgr_inv)) t"
  shows "wp (bnd (modify (\<lambda>s. s\<lparr>m_current := Some (a\<lparr>ac_plan := desired\<rparr>)\<rparr>)) (\<lambda>_.
      bnd (pid_of i (ac_instance a)) (\<lambda>pid.
      bnd (pub_active i (a\<lparr>ac_plan := desired\<rparr>) (CRunning (plan_epoch desired) pid)) (\<lambda>_.
      bnd (modify (\<lambda>s. s\<lparr>m_last_spec := Some (pl_source_spec desired)\<rparr>)) (\<lambda>_. m))))) (ends ok (\<lambda>_. mgr_inv)) s"
  unfolding wp_bnd [of "modify f" for f] wp_modify out.simps pub_active_def
proof (rule ends_bnd [OF pid_spec [OF phase_replan [OF assms(1,2)]]], goal_cases)
  case (1 pid s1)
  show ?case
  proof (rule ends_bnd [OF pub_instance_spec [OF 1]], goal_cases)
    case (2 u s2)
    then have "runs B desired (s2\<lparr>m_last_spec := Some (pl_source_spec desired)\<rparr>)"
      by (cases a) (auto simp: runs_def phase_last_spec)
    then show ?case unfolding wp_bnd [of "modify f" for f] wp_modify out.simps by (rule assms(3))
  qed simp_all
qed simp

lemma apply_in_place_spec:
  assumes "phase [] {} (Some a) {} s" and d: "plan_epoch desired = plan_epoch (ac_plan a)" "pl_source_spec desired = input"
  shows "wp (apply_in_place i a change desired staged) (ends (settled (Some (ac_plan a)) input) (\<lambda>_. mgr_inv)) s"
  unfolding apply_in_place_def Let_def
proof (rule calm_then [OF assms(1)], goal_cases)
  case (2 b s1)
  show ?case
  proof (rule calm_attempt_then [OF 2], goal_cases)
    case (2 commit s2)
    show ?case
      unfolding sum.case
    proof (rule succeeds_then [OF 2 calm_within [OF calm_reconcile_in_place] succeeds_within [OF succeeds_reconcile_in_place]], goal_cases)
      case (1 reconciled s3)
      show ?case
      proof (rule wp_if, goal_cases)
        case 1
        show ?case
        proof (rule replanned_spec [OF \<open>phase [] {} (Some a) {} s3\<close> d(1)], rule runs_ignore_then, assumption, goal_cases)
          case (2 t t')
          then show ?case
            by (cases change)
              (auto intro!: ends_lift settled_durable settled_runs simp: with_durability_result_def d split: option.splits)
        qed (intro calm_intros)
      next
        case 2
        show ?case by (rule durability_then, rule restart_with_compensation_spec [OF \<open>phase [] {} (Some a) {} s3\<close> d])
      qed
    qed
  next
    case (3 err s2)
    show ?case
      unfolding sum.case by (rule ignore_then [OF 3]) (auto intro!: calm_intros ends_fail intro: phase_inv)
  qed (intro calm_intros)
qed (auto intro!: calm_intros intro: phase_inv)

lemma noop_settled:
  assumes "phase [] {} (Some a) {} s"
  shows "settled old input (Noop (pl_revision (ac_plan a)))
    (s\<lparr>m_current := Some (a\<lparr>ac_plan := (ac_plan a)\<lparr>pl_source_spec := input\<rparr>\<rparr>), m_last_spec := Some input\<rparr>)"
proof -
  have "plan_epoch ((ac_plan a)\<lparr>pl_source_spec := input\<rparr>) = plan_epoch (ac_plan a)" by (simp add: plan_epoch_def)
  from phase_replan [OF assms this] have
    "phase [] {} (Some (a\<lparr>ac_plan := (ac_plan a)\<lparr>pl_source_spec := input\<rparr>\<rparr>)) {}
      (s\<lparr>m_current := Some (a\<lparr>ac_plan := (ac_plan a)\<lparr>pl_source_spec := input\<rparr>\<rparr>), m_last_spec := Some input\<rparr>)"
    by (simp add: phase_last_spec)
  from phase_inv [OF this] phase_quarantine [OF this] show ?thesis by (simp add: settled_def)
qed

lemma inv_calm: "calm s s' \<Longrightarrow> mgr_inv s \<Longrightarrow> mgr_inv s'"
  using phase_calm [of s s'] by (auto simp: mgr_inv_def calm_def ctrl_view_def)

lemma settled_calm: "calm s s' \<Longrightarrow> settled old input outcome s \<Longrightarrow> settled old input outcome s'"
  using inv_calm [of s s'] by (auto simp: settled_def calm_def ctrl_view_def revision_view_def split: option.splits)

lemma settled_inv: "settled old input outcome s \<Longrightarrow> mgr_inv s"
  by (simp add: settled_def)

lemma settled_drop:
  assumes "settled old input outcome s"
  shows "wp (bnd (drop_staged fs p) (\<lambda>_. ret outcome)) (ends (settled old input) (\<lambda>_. mgr_inv)) s"
  by (rule ends_bnd [OF ends_calm [OF calm_drop_staged, of s "settled old input outcome"]])
    (use assms in \<open>auto intro: ends_ret settled_calm settled_inv\<close>)

lemma apply_accepted_spec:
  assumes "phase [] {} (Some a) {} s"
  shows "wp (apply_accepted i a input) (ends (settled (Some (ac_plan a)) input) (\<lambda>_. mgr_inv)) s"
  unfolding apply_accepted_def
proof (rule calm_then [OF assms calm_load_config], goal_cases)
  case (1 snap s1)
  show ?case
  proof (rule returned_then [OF 1 calm_prepare_launch(4) returns_prepare(4)], goal_cases)
    case (1 prepared s2)
    then obtain desired staged where pr: "prepared = (desired, staged)"
        and d: "plan_epoch desired = plan_epoch (ac_plan a)" "pl_source_spec desired = input" by (cases prepared) auto
    show ?case
      unfolding pr prod.case
    proof (rule calm_then [OF 1(1)], goal_cases)
      case (2 change s3)
      have sw: "wp (bnd (drop_staged (inn_fs i) staged) (\<lambda>_. switch_with_compensation i input snap))
          (ends (settled (Some (ac_plan a)) input) (\<lambda>_. mgr_inv)) s3"
        by (rule succeeds_then [OF 2 calm_drop_staged succeeds_drop_staged]) (rule switch_with_compensation_spec)
      show ?case
        by (cases change)
          (simp_all add: sw apply_in_place_spec [OF 2 d] wp_bnd [of "modify f" for f] wp_modify settled_drop noop_settled [OF 2])
    qed (auto intro: calm_intros phase_inv)
  qed (rule phase_inv)
qed (rule phase_inv)

lemma apply_locked_spec:
  assumes "phase [] {} c {} s"
  shows "wp (apply_locked i input expected) (ends (settled (map_option ac_plan c) input) (\<lambda>_. mgr_inv)) s"
proof (cases c)
  case (Some a)
  have "wp (apply_accepted i a input) (ends (settled (Some (ac_plan a)) input) (\<lambda>_. mgr_inv)) s"
    by (rule apply_accepted_spec) (use assms Some in simp)
  then show ?thesis
    using Some phase_current [OF assms] phase_inv [OF assms]
    by (auto simp: apply_locked_def status_of_def Let_def wp_bnd [of "gets f" for f] wp_gets wp_fail split: option.splits)
qed (use phase_current [OF assms] phase_inv [OF assms] in \<open>simp add: apply_locked_def wp_rules\<close>)

lemma apply_config_spec:
  assumes "mgr_inv s"
  shows "wp (apply_config i input expected) (ends (settled (map_option ac_plan (m_current s)) input) (\<lambda>_. mgr_inv)) s"
  unfolding apply_config_def by (rule gate_spec [OF assms]) (auto intro: apply_locked_spec)

section \<open>Reconcile\<close>

lemma reconcile_locked_spec:
  assumes "phase [] {} c {} s"
  shows "wp (reconcile_locked i spec expected) (ends (settled (map_option ac_plan c) spec) (\<lambda>_. mgr_inv)) s"
  unfolding reconcile_locked_def
proof (rule running_then [OF assms], goal_cases)
  case 2
  have "wp (bnd (discard_stale i) (\<lambda>_. bnd (start_locked i spec) (\<lambda>_. bnd (gets m_current) (\<lambda>current.
      case current of None \<Rightarrow> panic ''start_locked installed the active runtime''
      | Some a \<Rightarrow> ret (Started (pl_revision (ac_plan a))))))) (ends (settled (map_option ac_plan c) spec) (\<lambda>_. mgr_inv)) s"
  proof (rule ends_bnd [OF discard_stale_spec [OF assms]], goal_cases)
    case (1 u s1)
    then obtain B where "phase [] B None {} s1" by auto
    from start_locked_spec [OF this, of spec] show ?case
    proof (rule ends_bnd, goal_cases)
      case (1 u s2)
      then obtain B' plan where r: "runs B' plan s2" "pl_source_spec plan = spec" by (auto simp: runs_spec_def)
      then obtain inst where "m_current s2 = Some \<lparr>ac_instance = inst, ac_plan = plan\<rparr>"
        by (auto simp: runs_def dest: phase_current)
      then show ?case using r by (auto simp: wp_rules intro: settled_runs)
    qed simp
  qed simp
  then show ?case by (auto simp: phase_inv [OF assms] ends_fail split: option.splits)
qed (use apply_locked_spec [OF assms] in simp)

lemma mgr_reconcile_spec:
  assumes "mgr_inv s"
  shows "wp (mgr_reconcile i spec expected) (ends (settled (map_option ac_plan (m_current s)) spec) (\<lambda>_. mgr_inv)) s"
  unfolding mgr_reconcile_def
proof (rule gate_spec [OF assms], goal_cases)
  case (1 c)
  let ?S = "settled (map_option ac_plan (m_current s)) spec"
  have calm: "keeps calm (if b then dns_converge i else ret ())" for b by (intro calm_intros)
  have ok: "wp (bnd (if b then dns_converge i else ret ()) (\<lambda>_. lift (Inr x))) (ends ?S (\<lambda>_. mgr_inv)) t"
    if "?S x t" for b x t
    by (rule ends_bnd [OF ends_calm [OF calm, of t "?S x"]])
      (use that in \<open>auto intro: ends_ret settled_calm settled_inv simp: lift_def\<close>)
  have bad: "wp (bnd (if b then dns_converge i else ret ()) (\<lambda>_. lift (Inl e))) (ends ?S (\<lambda>_. mgr_inv)) t"
    if "mgr_inv t" for b e t
    by (rule ends_bnd [OF ends_calm [OF calm, of t mgr_inv]]) (use that in \<open>auto intro: ends_fail inv_calm simp: lift_def\<close>)
  show ?case
    unfolding current_running_def
    by (rule ends_attempt_bnd [OF reconcile_locked_spec [OF 1(1) [folded 1(2)]]];
        unfold wp_bnd [of "gets f" for f] wp_gets out.simps; (rule ok | rule bad))
qed

section \<open>Recovery\<close>

lemma update_first_here: "x \<notin> q_epoch ` set ks \<Longrightarrow> q_epoch q = x \<Longrightarrow>
    update_first (\<lambda>q. q_epoch q = x) f (ks @ q # es) = ks @ f q # es"
  by (induction ks) auto

lemma phase_entry:
  assumes "phase (ks @ entry # es) B c X s"
  shows "q_epoch entry \<notin> q_epoch ` set ks" "q_epoch entry \<notin> q_epoch ` set es"
  using assms by (auto simp: phase_def)

lemma phase_marked:
  assumes "phase (ks @ entry # es) {} c {} s"
  shows "phase (ks @ entry\<lparr>q_death_proven := True\<rparr> # es) {} c {}
    (s\<lparr>m_quarantine := ks @ entry\<lparr>q_death_proven := True\<rparr> # es, g_alive := removeAll (q_epoch entry) (g_alive s)\<rparr>)"
proof -
  have "uncertain (ks @ entry # es) - {q_epoch entry} \<subseteq> uncertain (ks @ entry\<lparr>q_death_proven := True\<rparr> # es)"
    by (auto simp: uncertain_def)
  then show ?thesis using assms by (auto simp: phase_def distinct_removeAll)
qed

lemma mark_dead_spec:
  assumes "phase (ks @ entry # es) {} c {} s"
  shows "wp (mark_dead (q_epoch entry)) (ends (\<lambda>_. phase (ks @ entry\<lparr>q_death_proven := True\<rparr> # es) {} c {}) (\<lambda>_ _. False)) s"
  using phase_marked [OF assms] phase_entry(1) [OF assms] phase_quarantine [OF assms]
  by (simp add: mark_dead_def wp_rules update_first_here)

lemma phase_forgotten:
  assumes "phase (ks @ entry # es) {} c {} s" and "q_death_proven entry"
  shows "phase (ks @ es) {} c {} (s\<lparr>m_quarantine := filter (\<lambda>q. q_epoch q \<noteq> q_epoch entry) (m_quarantine s)\<rparr>)"
proof -
  have "uncertain (ks @ entry # es) = uncertain (ks @ es)" using assms(2) by (auto simp: uncertain_def)
  moreover have "filter (\<lambda>q. q_epoch q \<noteq> q_epoch entry) (ks @ entry # es) = ks @ es"
    using phase_entry [OF assms(1)] by (auto simp: image_iff filter_id_conv eq_commute [of "q_epoch entry"] intro!: arg_cong2 [of _ _ _ _ append])
  ultimately show ?thesis using assms(1) phase_quarantine [OF assms(1)] by (auto simp: phase_def)
qed

lemma recover_entry_spec:
  assumes "phase (ks @ entry # es) {} c {} s"
  shows "wp (recover_entry i entry)
    (ends (\<lambda>r t. r = None \<and> phase (ks @ es) {} c {} t \<or>
        (\<exists>f entry'. r = Some f \<and> phase (ks @ entry' # es) {} c {} t)) (\<lambda>_ _. False)) s"
proof -
  have proven: "wp (if q_death_proven entry then ret None
          else bnd (awaited i (on_world (inn_reap i (pid_path (inn_dir i) (q_epoch entry)) (inn_dir i)))) (\<lambda>reaped.
            case reaped of
              Inl e \<Rightarrow> ret (Some (recovery_failure entry (''recovery failed: '' @ error_to_string e)))
            | Inr ReapNotFound \<Rightarrow> ret (Some (recovery_failure entry ''authoritative epoch pid record is unavailable''))
            | Inr _ \<Rightarrow> bnd (mark_dead (q_epoch entry)) (\<lambda>_. ret None)))
      (ends (\<lambda>r t. \<exists>entry'. phase (ks @ entry' # es) {} c {} t \<and> q_epoch entry' = q_epoch entry \<and>
          (r = None \<longrightarrow> q_death_proven entry')) (\<lambda>_ _. False)) s" (is "wp _ (ends ?ok _) s")
  proof (rule wp_if, goal_cases)
    case 2
    show ?case
    proof (rule succeeds_then [OF assms calm_awaited [OF calm_on_world] succeeds_awaited [OF succeeds_on_world]], goal_cases)
      case (1 r t)
      have "wp (bnd (mark_dead (q_epoch entry)) (\<lambda>_. ret None)) (ends ?ok (\<lambda>_ _. False)) t"
        by (rule ends_bnd [OF mark_dead_spec [OF 1]]) (auto intro!: ends_ret)
      then show ?case using 1 by (auto intro!: ends_ret split: sum.splits orphan_reap_outcome.splits)
    qed
  qed (use assms in \<open>auto intro!: ends_ret\<close>)
  show ?thesis
    unfolding recover_entry_def
  proof (rule ends_bnd [OF proven], goal_cases)
    case (1 r t)
    then obtain entry' where en: "phase (ks @ entry' # es) {} c {} t" "q_epoch entry' = q_epoch entry" "r = None \<Longrightarrow> q_death_proven entry'"
      by auto
    show ?case
    proof (cases r)
      case None
      then show ?thesis
        unfolding None option.case
        by (intro calm_attempt_then [OF en(1) calm_cleanup_epoch])
          (auto simp: wp_rules en(2) [symmetric] intro: phase_forgotten [OF _ en(3) [OF None]])
    qed (use en(1) in \<open>auto intro!: ends_ret\<close>)
  qed simp
qed

lemma recover_entries_spec:
  assumes "phase (ks @ es) {} c {} s" and "failures = [] \<longleftrightarrow> ks = []"
  shows "wp (recover_entries i es failures)
    (ends (\<lambda>fs t. \<exists>qs. phase qs {} c {} t \<and> (fs = [] \<longleftrightarrow> qs = [])) (\<lambda>_ _. False)) s"
  using assms
proof (induction es arbitrary: ks failures s)
  case (Cons entry es)
  show ?case
    unfolding recover_entries.simps
  proof (rule ends_bnd [OF recover_entry_spec [OF Cons.prems(1)]], goal_cases)
    case (1 r t)
    then consider "r = None" "phase (ks @ es) {} c {} t"
      | f entry' where "r = Some f" "phase ((ks @ [entry']) @ es) {} c {} t" by auto
    then show ?case
    proof cases
      case 1
      then show ?thesis using Cons.IH [OF 1(2) Cons.prems(2)] by simp
    next
      case 2
      then show ?thesis using Cons.IH [OF 2(2)] by simp
    qed
  qed simp
qed (auto intro!: ends_ret)

lemma recover_spec:
  assumes "mgr_inv s"
  shows "wp (recover_quarantine i)
    (ends (\<lambda>_ t. mgr_inv t \<and> m_quarantine t = []) (\<lambda>_ t. mgr_inv t \<and> m_quarantine t \<noteq> [])) s"
proof -
  have ph: "phase ([] @ m_quarantine s) {} (m_current s) {} s" using assms by (simp add: mgr_inv_def)
  have done': "wp (bnd (pub i (CStopped None) None) (\<lambda>_. dns_restore i))
      (ends (\<lambda>_ t. mgr_inv t \<and> m_quarantine t = []) (\<lambda>_ t. mgr_inv t \<and> m_quarantine t \<noteq> [])) t"
    if "phase [] {} (m_current s) {} t" for t
  proof (rule ends_bnd [OF pub_spec [OF that]], goal_cases)
    case (2 u t')
    then have "wp (bnd (dns_restore i) ret) (ends (\<lambda>_ t. mgr_inv t \<and> m_quarantine t = []) (\<lambda>_ t. mgr_inv t \<and> m_quarantine t \<noteq> [])) t'"
      by (intro succeeds_then [OF _ calm_dns_restore succeeds_dns_restore]) (auto intro!: ends_ret dest: phase_inv phase_quarantine)
    then show ?case by (simp add: bnd_ret)
  qed simp_all
  have rec: "wp (bnd (recover_entries i (m_quarantine s) []) f)
      (ends (\<lambda>_ t. mgr_inv t \<and> m_quarantine t = []) (\<lambda>_ t. mgr_inv t \<and> m_quarantine t \<noteq> [])) s"
    if "\<And>fs qs t. phase qs {} (m_current s) {} t \<Longrightarrow> fs = [] \<longleftrightarrow> qs = [] \<Longrightarrow>
      wp (f fs) (ends (\<lambda>_ t. mgr_inv t \<and> m_quarantine t = []) (\<lambda>_ t. mgr_inv t \<and> m_quarantine t \<noteq> [])) t" for f
    by (rule ends_bnd [OF recover_entries_spec [OF ph]]) (use that in auto)
  show ?thesis
    unfolding recover_quarantine_def wp_bnd [of "gets f" for f] wp_gets out.simps
  proof (rule wp_if, goal_cases)
    case 2
    show ?case
    proof (rule rec, goal_cases)
      case (1 fs qs t)
      then show ?case
        using done' [of t] phase_quarantine [OF 1(1)] phase_inv [OF 1(1)] by (cases qs) (auto simp: wp_rules)
    qed
  qed (simp add: ends_ret assms)
qed

end

end
