(* ===== verification/Log_Text.thy ===== *)
theory Log_Text
  imports Utf8 Core_Types
begin

text \<open>
  The text operations of \<open>log.rs\<close>: the string methods it calls (\<open>trim_start\<close>, \<open>find\<close>, \<open>rfind\<close>,
  \<open>split_once\<close>, \<open>lines\<close>), bounded appending and truncation, and the removal of terminal escapes, with
  what they guarantee on UTF-8 text.  A Rust string is its list of bytes.
\<close>

section \<open>UTF-8 text\<close>

lemma utf8_from_append: "utf8_from k s \<Longrightarrow> utf8_from 0 t \<Longrightarrow> utf8_from k (s @ t)"
  by (induction k s rule: utf8_from.induct) auto

lemma utf8_append [intro]: "utf8 s \<Longrightarrow> utf8 t \<Longrightarrow> utf8 (s @ t)"
  by (simp add: utf8_def utf8_from_append)

lemma utf8_Nil [simp]: "utf8 []"
  by (simp add: utf8_def)

definition ascii :: "char \<Rightarrow> bool" where
  "ascii c = ((of_char c :: nat) < 128)"

lemma utf8_ascii_Cons [simp]: "ascii c \<Longrightarrow> utf8 (c # s) = utf8 s"
  by (simp add: utf8_def ascii_def is_continuation_def utf8_width_def Let_def)

text \<open>Inside well-formed text an ASCII byte is a whole character, so cutting there is safe.\<close>

lemma utf8_from_split: "utf8_from k (s @ c # t) \<Longrightarrow> ascii c \<Longrightarrow> utf8_from k s \<and> utf8_from 0 (c # t)"
proof (induction k s rule: utf8_from.induct)
  case (2 k)
  then show ?case by (simp add: ascii_def is_continuation_def Let_def)
qed auto

lemma utf8_split: "utf8 (s @ c # t) \<Longrightarrow> ascii c \<Longrightarrow> utf8 s \<and> utf8 t"
  using utf8_from_split [of 0 s c t] by (auto simp: utf8_def [symmetric])

section \<open>White space\<close>

text \<open>\<open>u8::is_ascii_whitespace\<close>.\<close>

definition is_ascii_whitespace :: "char \<Rightarrow> bool" where
  "is_ascii_whitespace c = ((of_char c :: nat) \<in> {9, 10, 12, 13, 32})"

text \<open>\<open>char::is_whitespace\<close> on the character the bytes start with: its length in bytes, zero when it is not
  white space (the Unicode property \<open>White_Space\<close>).\<close>

fun whitespace_len :: "string \<Rightarrow> nat" where
  "whitespace_len [] = 0"
| "whitespace_len (a # s) =
     (let x = of_char a :: nat in
      if x \<in> {9, 10, 11, 12, 13, 32} then 1
      else (case s of
        [] \<Rightarrow> 0
      | b # s' \<Rightarrow>
          let y = of_char b :: nat in
          if x = 194 \<and> y \<in> {133, 160} then 2
          else (case s' of
            [] \<Rightarrow> 0
          | c # _ \<Rightarrow>
              let z = of_char c :: nat in
              if x = 225 \<and> y = 154 \<and> z = 128
                \<or> x = 226 \<and> y = 128 \<and> (128 \<le> z \<and> z \<le> 138 \<or> z \<in> {168, 169, 175})
                \<or> x = 226 \<and> y = 129 \<and> z = 159
                \<or> x = 227 \<and> y = 128 \<and> z = 128
              then 3 else 0)))"

lemma whitespace_some: "0 < whitespace_len s \<Longrightarrow> s \<noteq> []"
  by auto

text \<open>\<open>str::trim_start\<close>, and the byte position of the first and last white space character.\<close>

function trim_start :: "string \<Rightarrow> string" where
  "trim_start s = (if whitespace_len s = 0 then s else trim_start (drop (whitespace_len s) s))"
  by auto
termination
  by (relation "measure length") (auto dest: whitespace_some intro: diff_less)

declare trim_start.simps [simp del]

fun find_whitespace :: "string \<Rightarrow> nat option" where
  "find_whitespace [] = None"
| "find_whitespace (c # s) = (if whitespace_len (c # s) \<noteq> 0 then Some 0 else map_option Suc (find_whitespace s))"

fun rfind_whitespace :: "string \<Rightarrow> nat option" where
  "rfind_whitespace [] = None"
| "rfind_whitespace (c # s) =
     (case rfind_whitespace s of
        Some i \<Rightarrow> Some (Suc i)
      | None \<Rightarrow> if whitespace_len (c # s) \<noteq> 0 then Some 0 else None)"

fun rfind_char :: "char \<Rightarrow> string \<Rightarrow> nat option" where
  "rfind_char d [] = None"
| "rfind_char d (c # s) =
     (case rfind_char d s of Some i \<Rightarrow> Some (Suc i) | None \<Rightarrow> if c = d then Some 0 else None)"

text \<open>\<open>str::trim\<close> also drops trailing white space.\<close>

fun trim_end :: "string \<Rightarrow> string" where
  "trim_end [] = []"
| "trim_end (c # s) = (if trim_start (c # s) = [] then [] else c # trim_end s)"

definition str_trim :: "string \<Rightarrow> string" where
  "str_trim s = trim_end (trim_start s)"

section \<open>Patterns and lines\<close>

text \<open>The positions of \<open>str::match_indices\<close>, for a pattern that cannot overlap itself.\<close>

definition match_indices :: "string \<Rightarrow> string \<Rightarrow> nat list" where
  "match_indices p s = filter (\<lambda>i. take (length p) (drop i s) = p) [0..<length s]"

text \<open>\<open>str::lines\<close>: a carriage return goes with the line feed after it.\<close>

definition strip_cr :: "string \<Rightarrow> string" where
  "strip_cr s = (case strip_suffix [CHR 0x0D] s of Some r \<Rightarrow> r | None \<Rightarrow> s)"

fun lines_from :: "string \<Rightarrow> string \<Rightarrow> string list" where
  "lines_from acc [] = (if acc = [] then [] else [acc])"
| "lines_from acc (c # s) =
     (if c = CHR 0x0A then strip_cr acc # lines_from [] s else lines_from (acc @ [c]) s)"

definition str_lines :: "string \<Rightarrow> string list" where
  "str_lines s = lines_from [] s"

section \<open>Bounded text\<close>

text \<open>\<open>log.rs\<close>, \<open>char_boundary_at_or_below\<close>, \<open>truncate_text\<close> and \<open>append_bounded\<close>: the new text and whether
  something was left behind.\<close>

definition char_boundary_at_or_below :: "string \<Rightarrow> nat \<Rightarrow> nat" where
  "char_boundary_at_or_below text max_bytes = floor_char_boundary text max_bytes"

definition truncate_text :: "string \<Rightarrow> nat \<Rightarrow> string \<times> bool" where
  "truncate_text text max_bytes =
     (if length text \<le> max_bytes then (text, False)
      else (take (char_boundary_at_or_below text max_bytes) text, True))"

definition append_bounded :: "string \<Rightarrow> string \<Rightarrow> nat \<Rightarrow> string \<times> bool" where
  "append_bounded text line max_bytes =
     (if max_bytes \<le> length text then (text, True)
      else if line = [] then (text @ [CHR 0x0A], False)
      else
        let budget = max_bytes - length text - 1;
            k = char_boundary_at_or_below line (min budget (length line))
        in if k = 0 then (text, True)
           else (text @ CHR 0x0A # take k line, k < length line))"

lemma truncate_text_length: "length (fst (truncate_text text n)) \<le> n"
  using floor_char_boundary_le [of "text" n] by (simp add: truncate_text_def char_boundary_at_or_below_def)

lemma truncate_text_utf8: "utf8 text \<Longrightarrow> utf8 (fst (truncate_text text n))"
  by (simp add: truncate_text_def char_boundary_at_or_below_def utf8_take floor_char_boundary_boundary)

lemma truncate_text_whole: "\<not> snd (truncate_text text n) \<Longrightarrow> fst (truncate_text text n) = text"
  by (simp add: truncate_text_def split: if_splits)

lemma truncate_text_close: "utf8 text \<Longrightarrow> snd (truncate_text text n) \<Longrightarrow> n \<le> length (fst (truncate_text text n)) + 3"
  using floor_char_boundary_close [of "text" n] floor_char_boundary_le [of "text" n]
  by (auto simp: truncate_text_def char_boundary_at_or_below_def split: if_splits)

lemma append_bounded_length: "length text \<le> n \<Longrightarrow> length (fst (append_bounded text line n)) \<le> n"
  using floor_char_boundary_le [of line "min (n - length text - 1) (length line)"]
  by (auto simp: append_bounded_def char_boundary_at_or_below_def Let_def)

lemma newline_ascii [simp]: "ascii (CHR 0x0A)"
  by (simp add: ascii_def)

lemma append_bounded_utf8: "utf8 text \<Longrightarrow> utf8 line \<Longrightarrow> utf8 (fst (append_bounded text line n))"
  by (auto simp: append_bounded_def char_boundary_at_or_below_def Let_def utf8_take floor_char_boundary_boundary)

lemma append_bounded_prefix: "\<exists>t. fst (append_bounded text line n) = text @ t"
  by (auto simp: append_bounded_def Let_def)

lemma append_bounded_whole:
  assumes "\<not> snd (append_bounded text line n)"
  shows "fst (append_bounded text line n) = text @ CHR 0x0A # line"
  using assms by (auto simp: append_bounded_def Let_def split: if_splits)

section \<open>Terminal escapes\<close>

text \<open>\<open>strip_ansi\<close>: the loop over the bytes, and \<open>String::from_utf8(..).expect(..)\<close> as \<open>None\<close>.\<close>

definition ESC :: char where
  "ESC = CHR 0x1B"

definition is_final_byte :: "char \<Rightarrow> bool" where
  "is_final_byte c = (let b = of_char c :: nat in 64 \<le> b \<and> b \<le> 126)"

fun skip_csi :: "string \<Rightarrow> string" where
  "skip_csi [] = []"
| "skip_csi (c # s) = (if is_final_byte c then s else skip_csi s)"

lemma skip_csi_length: "length (skip_csi s) \<le> length s"
  by (induction s) auto

function strip_escapes :: "string \<Rightarrow> string" where
  "strip_escapes [] = []"
| "strip_escapes (c # s) =
     (if c \<noteq> ESC then c # strip_escapes s
      else case s of
        [] \<Rightarrow> []
      | d # s' \<Rightarrow> if d = CHR ''['' then strip_escapes (skip_csi s') else strip_escapes s)"
  by pat_completeness auto
termination
  by (relation "measure length") (use skip_csi_length in \<open>auto simp: less_Suc_eq_le intro: le_SucI\<close>)

definition strip_ansi :: "string \<Rightarrow> string option" where
  "strip_ansi line =
     (if ESC \<notin> set line then Some line
      else let out = strip_escapes line in if utf8 out then Some out else None)"

lemma ESC_ascii [simp]: "ascii ESC" and bracket_ascii [simp]: "ascii (CHR ''['')"
  by (simp_all add: ascii_def ESC_def)

lemma final_ascii: "is_final_byte c \<Longrightarrow> ascii c"
  by (auto simp: is_final_byte_def ascii_def Let_def)

lemma ascii_not_continuation: "ascii c \<Longrightarrow> \<not> is_continuation c" and ascii_width: "ascii c \<Longrightarrow> utf8_width c = 1"
  by (auto simp: ascii_def is_continuation_def utf8_width_def Let_def)

lemma skip_csi_utf8: "utf8_from k s \<Longrightarrow> utf8_from 0 (skip_csi s)"
proof (induction k s rule: utf8_from.induct)
  case (4 k c s)
  then show ?case using final_ascii ascii_not_continuation by auto
qed (auto dest: final_ascii simp: ascii_width)

lemma strip_escapes_utf8: "utf8_from k s \<Longrightarrow> utf8_from k (strip_escapes s)"
proof (induction s arbitrary: k rule: strip_escapes.induct)
  case (2 c s)
  show ?case
  proof (cases "c = ESC")
    case True
    have k: "k = 0" using 2(4) True ascii_not_continuation [OF ESC_ascii] by (cases k) simp_all
    then have s: "utf8_from 0 s" using 2(4) True ascii_width [OF ESC_ascii] by simp
    show ?thesis
    proof (cases s)
      case (Cons d s')
      then have "utf8_from 0 (strip_escapes (skip_csi s'))" if "d = CHR ''[''"
        using 2(2) [of d s' 0] True that s skip_csi_utf8 by auto
      moreover have "utf8_from 0 (strip_escapes s)" if "d \<noteq> CHR ''[''"
        using 2(3) [of d s' 0] True that s Cons by simp
      ultimately show ?thesis using True k Cons by simp
    qed (simp add: True k)
  next
    case False
    then show ?thesis using 2(1,4) by (cases k) auto
  qed
qed simp

lemma strip_escapes_clean: "ESC \<notin> set (strip_escapes s)"
  by (induction s rule: strip_escapes.induct) (auto split: list.splits)

lemma strip_escapes_plain: "ESC \<notin> set s \<Longrightarrow> strip_escapes s = s"
  by (induction s rule: strip_escapes.induct) auto

text \<open>The \<open>expect\<close> never fires, and no escape is left.\<close>

lemma strip_ansi_total:
  assumes "utf8 line"
  shows "\<exists>s. strip_ansi line = Some s \<and> utf8 s \<and> ESC \<notin> set s"
  using assms strip_escapes_utf8 [of 0 line] strip_escapes_clean [of line] by (auto simp: strip_ansi_def utf8_def Let_def)

end
