(* ===== verification/Core_Log.thy ===== *)
theory Core_Log
  imports Log_Text
begin

text \<open>
  The parser of \<open>log.rs\<close>: each core's console layout to one frame shape (\<open>nyanpasu-core-metadata/src/log.rs\<close>),
  records that span several lines, the caps every frame respects, and the summaries made of frames.  The
  calendar functions of the \<open>chrono\<close> package are a parameter; a date is its day number, a time of day the
  nanoseconds since midnight.  A panic is \<open>None\<close>.
\<close>

section \<open>Frames\<close>

datatype log_level = LTrace | LDebug | LInfo | LWarning | LError | LFatal

datatype log_stream = Stdout | Stderr

record log_timestamp =
  lt_raw :: string
  lt_unix_ms :: "int option"
  lt_inferred :: bool

record log_field =
  fl_key :: string
  fl_value :: string

record log_frame =
  lf_at :: int
  lf_epoch :: "64 word"
  lf_kind :: core_kind
  lf_stream :: log_stream
  lf_level :: log_level
  lf_timestamp :: "log_timestamp option"
  lf_target :: "string option"
  lf_message :: string
  lf_fields :: "log_field list"
  lf_raw :: string
  lf_truncated :: bool

text \<open>The derived order of the levels.\<close>

primrec level_rank :: "log_level \<Rightarrow> nat" where
  "level_rank LTrace = 0"
| "level_rank LDebug = 1"
| "level_rank LInfo = 2"
| "level_rank LWarning = 3"
| "level_rank LError = 4"
| "level_rank LFatal = 5"

lemma level_rank_inject: "level_rank a = level_rank b \<longleftrightarrow> a = b"
  by (cases a; cases b) simp_all

instantiation log_level :: linorder
begin

definition less_eq_log_level :: "log_level \<Rightarrow> log_level \<Rightarrow> bool" where
  "a \<le> b = (level_rank a \<le> level_rank b)"

definition less_log_level :: "log_level \<Rightarrow> log_level \<Rightarrow> bool" where
  "a < b = (level_rank a < level_rank b)"

instance
  by standard (auto simp: less_eq_log_level_def less_log_level_def level_rank_inject)

end

section \<open>Caps\<close>

definition MAX_CONTINUATION_LINES :: nat where "MAX_CONTINUATION_LINES = 16"
definition MAX_LOG_TEXT_BYTES :: nat where "MAX_LOG_TEXT_BYTES = 16 * 1024"
definition MAX_LOG_TARGET_BYTES :: nat where "MAX_LOG_TARGET_BYTES = 2048"
definition MAX_LOG_TIMESTAMP_RAW_BYTES :: nat where "MAX_LOG_TIMESTAMP_RAW_BYTES = 256"
definition MAX_LOG_FIELDS :: nat where "MAX_LOG_FIELDS = 64"
definition MAX_LOG_FIELD_TEXT_BYTES :: nat where "MAX_LOG_FIELD_TEXT_BYTES = 1024"

lemmas caps = MAX_CONTINUATION_LINES_def MAX_LOG_TEXT_BYTES_def MAX_LOG_TARGET_BYTES_def
  MAX_LOG_TIMESTAMP_RAW_BYTES_def MAX_LOG_FIELDS_def MAX_LOG_FIELD_TEXT_BYTES_def

record parsed_line =
  pa_timestamp :: "log_timestamp option"
  pa_level :: log_level
  pa_target :: "string option"
  pa_message :: string
  pa_fields :: "log_field list"

record log_pending =
  pn_frame :: log_frame
  pn_continuations :: nat

definition pending_append :: "log_pending \<Rightarrow> string \<Rightarrow> log_pending" where
  "pending_append p line =
     (let f = pn_frame p in
      if pn_continuations p = MAX_CONTINUATION_LINES then p\<lparr>pn_frame := f\<lparr>lf_truncated := True\<rparr>\<rparr>
      else
        let (raw, cut_raw) = append_bounded (lf_raw f) line MAX_LOG_TEXT_BYTES;
            (message, cut_message) = append_bounded (lf_message f) line MAX_LOG_TEXT_BYTES;
            f = f\<lparr>lf_raw := raw, lf_message := message\<rparr>
        in if cut_raw \<or> cut_message
           then \<lparr>pn_frame = f\<lparr>lf_truncated := True\<rparr>, pn_continuations = MAX_CONTINUATION_LINES\<rparr>
           else \<lparr>pn_frame = f, pn_continuations = pn_continuations p + 1\<rparr>)"

definition bound_field :: "log_field \<Rightarrow> log_field \<times> bool" where
  "bound_field f =
     (let (key, cut_key) = truncate_text (fl_key f) MAX_LOG_FIELD_TEXT_BYTES;
          (val, cut_value) = truncate_text (fl_value f) MAX_LOG_FIELD_TEXT_BYTES
      in (\<lparr>fl_key = key, fl_value = val\<rparr>, cut_key \<or> cut_value))"

definition bound_frame :: "log_frame \<Rightarrow> log_frame" where
  "bound_frame f =
     (let (message, cut1) = truncate_text (lf_message f) MAX_LOG_TEXT_BYTES;
          (raw, cut2) = truncate_text (lf_raw f) MAX_LOG_TEXT_BYTES;
          target = map_option (\<lambda>t. truncate_text t MAX_LOG_TARGET_BYTES) (lf_target f);
          timestamp = map_option (\<lambda>t. (t, truncate_text (lt_raw t) MAX_LOG_TIMESTAMP_RAW_BYTES)) (lf_timestamp f);
          cut3 = MAX_LOG_FIELDS < length (lf_fields f);
          others = map bound_field (take MAX_LOG_FIELDS (lf_fields f));
          cut = (cut1 \<or> cut2 \<or> (case target of None \<Rightarrow> False | Some (_, c) \<Rightarrow> c)
            \<or> (case timestamp of None \<Rightarrow> False | Some (_, _, c) \<Rightarrow> c) \<or> cut3 \<or> list_ex snd others)
      in f\<lparr>lf_message := message, lf_raw := raw, lf_target := map_option fst target,
           lf_timestamp := map_option (\<lambda>(t, raw, _). t\<lparr>lt_raw := raw\<rparr>) timestamp,
           lf_fields := map fst others, lf_truncated := lf_truncated f \<or> cut\<rparr>)"

section \<open>Tokens and levels\<close>

definition parse_level :: "string \<Rightarrow> log_level option" where
  "parse_level level =
     (if level \<in> {''trace'', ''TRC'', ''TRACE''} then Some LTrace
      else if level \<in> {''debug'', ''DBG'', ''DEBUG''} then Some LDebug
      else if level \<in> {''info'', ''INF'', ''INFO''} then Some LInfo
      else if level \<in> {''warn'', ''warning'', ''WRN'', ''WARN''} then Some LWarning
      else if level \<in> {''error'', ''ERR'', ''ERROR''} then Some LError
      else if level \<in> {''fatal'', ''panic'', ''FTL'', ''PNC''} then Some LFatal
      else if level = ''???'' then Some LInfo
      else None)"

definition take_token :: "string \<Rightarrow> (string \<times> string) option" where
  "take_token input =
     (let s = trim_start input in
      map_option (\<lambda>i. (take i s, trim_start (drop i s))) (find_whitespace s))"

section \<open>Logfmt\<close>

definition unescape :: "char \<Rightarrow> string" where
  "unescape c =
     (if c = CHR 0x22 \<or> c = CHR 0x5C then [c]
      else if c = CHR ''n'' then [CHR 0x0A]
      else if c = CHR ''r'' then [CHR 0x0D]
      else if c = CHR ''t'' then [CHR 0x09]
      else [CHR 0x5C, c])"

text \<open>The bytes after an opening quote: the value and the rest, \<open>None\<close> when it is not closed.\<close>

fun scan_quoted :: "string \<Rightarrow> (string \<times> string) option" where
  "scan_quoted [] = None"
| "scan_quoted (c # s) =
     (if c = CHR 0x22 then Some ([], s)
      else if c = CHR 0x5C
      then (case s of [] \<Rightarrow> None | e # s' \<Rightarrow> map_option (\<lambda>(v, r). (unescape e @ v, r)) (scan_quoted s'))
      else map_option (\<lambda>(v, r). (c # v, r)) (scan_quoted s))"

definition scan_value :: "string \<Rightarrow> (string \<times> string) option" where
  "scan_value s =
     (case s of
        [] \<Rightarrow> Some ([], [])
      | c # t \<Rightarrow>
          if c = CHR 0x22
          then (case scan_quoted t of
                  None \<Rightarrow> None
                | Some (v, r) \<Rightarrow>
                    if r \<noteq> [] \<and> \<not> is_ascii_whitespace (hd r) then None else if utf8 v then Some (v, r) else None)
          else Some (takeWhile (\<lambda>c. \<not> is_ascii_whitespace c) s, dropWhile (\<lambda>c. \<not> is_ascii_whitespace c) s))"

text \<open>The key up to the equals sign; white space before it, or an empty key, is an error.\<close>

definition scan_key :: "string \<Rightarrow> (string \<times> string) option" where
  "scan_key s =
     (let key = takeWhile (\<lambda>c. c \<noteq> CHR ''='' \<and> \<not> is_ascii_whitespace c) s in
      case drop (length key) s of
        [] \<Rightarrow> None
      | c # r \<Rightarrow> if c = CHR ''='' \<and> key \<noteq> [] then Some (key, r) else None)"

lemma scan_quoted_length: "scan_quoted s = Some (v, r) \<Longrightarrow> length r < length s"
  by (induction s arbitrary: v r rule: scan_quoted.induct) (auto split: if_splits list.splits option.splits dest: less_SucI, metis less_SucI)

lemma scan_value_length: "scan_value s = Some (v, r) \<Longrightarrow> length r \<le> length s"
  by (auto simp: scan_value_def dest: scan_quoted_length split: list.splits if_splits option.splits)
    (auto intro: order.trans [OF length_dropWhile_le])

lemma scan_key_length: "scan_key s = Some (k, r) \<Longrightarrow> length r < length s"
  by (auto simp: scan_key_def Let_def split: list.splits if_splits dest: arg_cong [of "drop _ _" _ length])

lemma scan_shrinks:
  assumes "scan_key (dropWhile is_ascii_whitespace line) = Some (k, r)" and "scan_value r = Some (v, r')"
  shows "length r' < length line"
  using scan_key_length [OF assms(1)] scan_value_length [OF assms(2)] length_dropWhile_le [of is_ascii_whitespace line] by simp

function scan_logfmt :: "string \<Rightarrow> (string \<times> string) list option" where
  "scan_logfmt line =
     (let s = dropWhile is_ascii_whitespace line in
      if s = [] then Some []
      else case scan_key s of
        None \<Rightarrow> None
      | Some (key, r) \<Rightarrow>
          (case scan_value r of
             None \<Rightarrow> None
           | Some (val, r') \<Rightarrow> map_option (\<lambda>fs. (key, val) # fs) (scan_logfmt r')))"
  by auto
termination
  by (relation "measure length") (auto dest: scan_shrinks)

declare scan_logfmt.simps [simp del]

section \<open>Times\<close>

record chrono =
  ch_rfc3339_ms :: "string \<Rightarrow> int option"
  ch_hms :: "string \<Rightarrow> int option"
  ch_ymd :: "nat \<Rightarrow> nat \<Rightarrow> nat \<Rightarrow> int option"
  ch_hms_nano :: "nat \<Rightarrow> nat \<Rightarrow> nat \<Rightarrow> nat \<Rightarrow> int option"
  ch_succ :: "int \<Rightarrow> int option"
  ch_pred :: "int \<Rightarrow> int option"
  ch_since :: "int \<Rightarrow> int \<Rightarrow> int"
  ch_local_ms :: "int \<Rightarrow> int \<Rightarrow> int \<Rightarrow> int option"

text \<open>\<open>DateTime<FixedOffset>\<close>: the instant, its local date and time of day, and the offset.\<close>

record observed =
  ob_ms :: int
  ob_date :: int
  ob_time :: int
  ob_offset :: int

definition hours :: "int \<Rightarrow> int" where
  "hours n = n * 3600000000000"

definition local_unix_ms :: "chrono \<Rightarrow> int \<Rightarrow> int \<Rightarrow> int \<Rightarrow> int option" where
  "local_unix_ms ch date time offset = ch_local_ms ch date time offset"

definition parse_rfc3339_ms :: "chrono \<Rightarrow> string \<Rightarrow> int option" where
  "parse_rfc3339_ms ch raw = ch_rfc3339_ms ch raw"

section \<open>Mihomo and meow\<close>

text \<open>The fields seen so far: time, level, message and the others.\<close>

definition mihomo_field :: "(string option \<times> log_level option \<times> string option \<times> log_field list) \<Rightarrow> string \<times> string \<Rightarrow>
    (string option \<times> log_level option \<times> string option \<times> log_field list)" where
  "mihomo_field = (\<lambda>(raw_time, level, message, others) (key, val).
     if key = ''time'' then (Some val, level, message, others)
     else if key = ''level'' then (raw_time, parse_level val, message, others)
     else if key = ''msg'' then (raw_time, level, Some val, others)
     else (raw_time, level, message, others @ [\<lparr>fl_key = key, fl_value = val\<rparr>]))"

definition parse_mihomo :: "chrono \<Rightarrow> string \<Rightarrow> parsed_line option" where
  "parse_mihomo ch line =
     (case scan_logfmt line of
        None \<Rightarrow> None
      | Some pairs \<Rightarrow>
          (case foldl mihomo_field (None, None, None, []) pairs of
             (Some raw_time, Some level, Some message, others) \<Rightarrow>
               Some \<lparr>pa_timestamp = Some \<lparr>lt_raw = raw_time, lt_unix_ms = parse_rfc3339_ms ch raw_time, lt_inferred = False\<rparr>,
                     pa_level = level, pa_target = None, pa_message = message, pa_fields = others\<rparr>
           | _ \<Rightarrow> None))"

definition parse_meow :: "chrono \<Rightarrow> string \<Rightarrow> parsed_line option" where
  "parse_meow ch line =
     (case take_token line of
        None \<Rightarrow> None
      | Some (raw_time, rest) \<Rightarrow>
          (case take_token rest of
             None \<Rightarrow> None
           | Some (level, rest) \<Rightarrow>
               (case parse_level level of
                  None \<Rightarrow> None
                | Some level \<Rightarrow>
                    (case split_once_str '': '' rest of
                       None \<Rightarrow> None
                     | Some (target, message) \<Rightarrow>
                         if target = [] then None
                         else Some \<lparr>pa_timestamp = Some \<lparr>lt_raw = raw_time, lt_unix_ms = parse_rfc3339_ms ch raw_time, lt_inferred = False\<rparr>,
                                    pa_level = level, pa_target = Some target, pa_message = message, pa_fields = []\<rparr>))))"

section \<open>Clash-rs\<close>

definition is_ascii_digit :: "char \<Rightarrow> bool" where
  "is_ascii_digit c = (let b = of_char c :: nat in 48 \<le> b \<and> b \<le> 57)"

definition clash_rs_timestamp_end :: "string \<Rightarrow> nat option" where
  "clash_rs_timestamp_end line =
     (if \<not> list_all (\<lambda>(i, c). i < length line \<and> line ! i = c)
           [(2, CHR ''-''), (5, CHR ''-''), (8, CHR '' ''), (11, CHR '':''), (14, CHR '':''), (17, CHR '':'')]
         \<or> \<not> list_all (\<lambda>(a, b). list_all is_ascii_digit (take (b - a) (drop a line)))
           [(0, 2), (3, 5), (6, 8), (9, 11), (12, 14), (15, 17)]
      then None
      else
        let digits = length (takeWhile is_ascii_digit (drop 18 line)) in
        if 1 \<le> digits \<and> digits \<le> 9 \<and> 18 + digits < length line \<and> line ! (18 + digits) = CHR '' ''
        then Some (18 + digits) else None)"

definition u32_bound :: nat where
  "u32_bound = 2 ^ 32"

definition clash_rs_unix_ms :: "chrono \<Rightarrow> string \<Rightarrow> int \<Rightarrow> int option" where
  "clash_rs_unix_ms ch raw offset =
     (let number = (\<lambda>a b. parse_nat u32_bound (take (b - a) (drop a raw)));
          subsecond = drop 18 raw
      in case (parse_nat u32_bound subsecond, number 0 2, number 3 5, number 6 8) of
           (Some sub, Some y, Some mo, Some d) \<Rightarrow>
             (case ch_ymd ch (2000 + y) mo d of
                None \<Rightarrow> None
              | Some date \<Rightarrow>
                  (case (number 9 11, number 12 14, number 15 17) of
                     (Some h, Some mi, Some se) \<Rightarrow>
                       (case ch_hms_nano ch h mi se (sub * 10 ^ (9 - length subsecond)) of
                          None \<Rightarrow> None
                        | Some time \<Rightarrow> local_unix_ms ch date time offset)
                   | _ \<Rightarrow> None))
         | _ \<Rightarrow> None)"

text \<open>\<open>clash_rs_source\<close> over the positions of the separator.  The slice \<open>head[start..]\<close> panics when \<open>start\<close> is not
  a character boundary: that is the outer \<open>None\<close>.\<close>

fun clash_rs_anchor :: "string \<Rightarrow> nat list \<Rightarrow> (string \<times> string) option option" where
  "clash_rs_anchor rest [] = Some None"
| "clash_rs_anchor rest (separator # later) =
     (let head = take separator rest in
      case rfind_char (CHR '':'') head of
        None \<Rightarrow> clash_rs_anchor rest later
      | Some colon \<Rightarrow>
          let number = drop (colon + 1) head in
          if number = [] \<or> \<not> list_all is_ascii_digit number then clash_rs_anchor rest later
          else
            let start = (case rfind_whitespace (take colon head) of None \<Rightarrow> 0 | Some i \<Rightarrow> i + 1) in
            if start = colon then clash_rs_anchor rest later
            else if \<not> is_char_boundary head start then None
            else Some (Some (drop start head, drop (separator + 2) rest)))"

definition clash_rs_source :: "string \<Rightarrow> (string \<times> string) option option" where
  "clash_rs_source rest = clash_rs_anchor rest (match_indices '': '' rest)"

definition parse_clash_rs :: "chrono \<Rightarrow> string \<Rightarrow> observed \<Rightarrow> parsed_line option option" where
  "parse_clash_rs ch line at =
     (case clash_rs_timestamp_end line of
        None \<Rightarrow> Some None
      | Some n \<Rightarrow>
          let raw_time = take n line in
          (case take_token (drop n line) of
             None \<Rightarrow> Some None
           | Some (level, rest) \<Rightarrow>
               (case parse_level level of
                  None \<Rightarrow> Some None
                | Some level \<Rightarrow>
                    map_option (map_option (\<lambda>(target, message).
                      \<lparr>pa_timestamp = Some \<lparr>lt_raw = raw_time, lt_unix_ms = clash_rs_unix_ms ch raw_time (ob_offset at), lt_inferred = True\<rparr>,
                       pa_level = level, pa_target = Some target, pa_message = message, pa_fields = []\<rparr>))
                      (clash_rs_source rest))))"

section \<open>Clash premium\<close>

definition premium_target :: "string \<Rightarrow> string option \<times> string" where
  "premium_target body =
     (case strip_prefix ''['' body of
        None \<Rightarrow> (None, body)
      | Some rest \<Rightarrow>
          (case split_once_str ''] '' rest of
             None \<Rightarrow> (None, body)
           | Some (tag, message) \<Rightarrow> if tag \<noteq> [] \<and> CHR '' '' \<notin> set tag then (Some tag, message) else (None, body)))"

text \<open>The result and the clock afterwards.\<close>

definition premium_unix_ms :: "chrono \<Rightarrow> int \<Rightarrow> observed \<Rightarrow> (int \<times> int) option \<Rightarrow> int option \<times> (int \<times> int) option" where
  "premium_unix_ms ch time at clock =
     (case (case clock of
              Some (date, previous) \<Rightarrow> if ch_since ch previous time > hours 12 then ch_succ ch date else Some date
            | None \<Rightarrow> if ch_since ch time (ob_time at) > hours 12 then ch_pred ch (ob_date at) else Some (ob_date at)) of
        None \<Rightarrow> (None, clock)
      | Some date \<Rightarrow> (local_unix_ms ch date time (ob_offset at), Some (date, time)))"

text \<open>\<open>line.get(a..b)\<close> is \<open>None\<close> off a character boundary or past the end.\<close>

definition str_get :: "string \<Rightarrow> nat \<Rightarrow> nat \<Rightarrow> string option" where
  "str_get s a b = (if a \<le> b \<and> is_char_boundary s a \<and> is_char_boundary s b then Some (take (b - a) (drop a s)) else None)"

definition parse_premium :: "chrono \<Rightarrow> string \<Rightarrow> observed \<Rightarrow> (int \<times> int) option \<Rightarrow> parsed_line option \<times> (int \<times> int) option" where
  "parse_premium ch line at clock =
     (if \<not> (12 < length line \<and> line ! 8 = CHR '' '' \<and> line ! 12 = CHR '' '') then (None, clock)
      else case str_get line 0 8 of
        None \<Rightarrow> (None, clock)
      | Some raw_time \<Rightarrow>
          (case ch_hms ch raw_time of
             None \<Rightarrow> (None, clock)
           | Some time \<Rightarrow>
               (case Option.bind (str_get line 9 12) parse_level of
                  None \<Rightarrow> (None, clock)
                | Some level \<Rightarrow>
                    (case str_get line 13 (length line) of
                       None \<Rightarrow> (None, clock)
                     | Some body \<Rightarrow>
                         let (target, message) = premium_target body;
                             (ms, clock') = premium_unix_ms ch time at clock
                         in (Some \<lparr>pa_timestamp = Some \<lparr>lt_raw = raw_time, lt_unix_ms = ms, lt_inferred = True\<rparr>,
                                   pa_level = level, pa_target = target, pa_message = message, pa_fields = []\<rparr>, clock')))))"

section \<open>The parser\<close>

record log_parser =
  lp_kind :: core_kind
  lp_epoch :: "64 word"
  lp_clock :: "(int \<times> int) option"
  lp_stdout :: "log_pending option"
  lp_stderr :: "log_pending option"
  lp_newest :: "log_stream option"

text \<open>The array \<open>pending\<close> at \<open>stream_index\<close>.\<close>

fun pending_of :: "log_parser \<Rightarrow> log_stream \<Rightarrow> log_pending option" where
  "pending_of p Stdout = lp_stdout p"
| "pending_of p Stderr = lp_stderr p"

fun with_pending :: "log_parser \<Rightarrow> log_stream \<Rightarrow> log_pending option \<Rightarrow> log_parser" where
  "with_pending p Stdout q = p\<lparr>lp_stdout := q\<rparr>"
| "with_pending p Stderr q = p\<lparr>lp_stderr := q\<rparr>"

lemma pending_of_newest [simp]: "pending_of (p\<lparr>lp_newest := v\<rparr>) st = pending_of p st"
    and pending_of_clock [simp]: "pending_of (p\<lparr>lp_clock := c\<rparr>) st = pending_of p st"
  by (cases st; simp)+

lemma pending_of_with [simp]: "pending_of (with_pending p st q) st' = (if st' = st then q else pending_of p st')"
  by (cases st; cases st') simp_all

type_synonym parsed_frames = "log_frame option \<times> log_frame option"

definition log_parser_new :: "core_kind \<Rightarrow> 64 word \<Rightarrow> log_parser" where
  "log_parser_new kind epoch = \<lparr>lp_kind = kind, lp_epoch = epoch, lp_clock = None, lp_stdout = None, lp_stderr = None, lp_newest = None\<rparr>"

definition parse_header :: "chrono \<Rightarrow> log_parser \<Rightarrow> string \<Rightarrow> observed \<Rightarrow> (parsed_line option \<times> log_parser) option" where
  "parse_header ch p line at =
     (case lp_kind p of
        Mihomo \<Rightarrow> Some (parse_mihomo ch line, p)
      | Meow \<Rightarrow> Some (parse_meow ch line, p)
      | ClashRust \<Rightarrow> map_option (\<lambda>r. (r, p)) (parse_clash_rs ch line at)
      | ClashPremium \<Rightarrow> (let (r, clock) = parse_premium ch line at (lp_clock p) in Some (r, p\<lparr>lp_clock := clock\<rparr>)))"

definition log_emit :: "log_parser \<Rightarrow> log_stream \<Rightarrow> log_frame \<Rightarrow> bool \<Rightarrow> parsed_frames \<times> log_parser" where
  "log_emit p stream frame hold =
     (let flushed = map_option pn_frame (pending_of p stream) in
      if hold
      then ((flushed, None), with_pending (p\<lparr>lp_newest := Some stream\<rparr>) stream (Some \<lparr>pn_frame = frame, pn_continuations = 0\<rparr>))
      else ((flushed, Some frame), with_pending p stream None))"

definition starts_with :: "string \<Rightarrow> string \<Rightarrow> bool" where
  "starts_with p s = (strip_prefix p s \<noteq> None)"

text \<open>What a line without a header becomes: a continuation of the pending record of its stream, or a frame.\<close>

definition push_plain :: "log_parser \<Rightarrow> log_stream \<Rightarrow> string \<Rightarrow> observed \<Rightarrow> parsed_frames \<times> log_parser" where
  "push_plain p stream line at =
     (let error_root = starts_with ''Error:'' line; warning_root = starts_with ''warning:'' line;
          level = (if error_root then LError else if warning_root then LWarning
                   else case stream of Stdout \<Rightarrow> LInfo | Stderr \<Rightarrow> LWarning);
          fresh = log_emit p stream
            (bound_frame \<lparr>lf_at = ob_ms at, lf_epoch = lp_epoch p, lf_kind = lp_kind p, lf_stream = stream, lf_level = level,
               lf_timestamp = None, lf_target = None, lf_message = line, lf_fields = [], lf_raw = line, lf_truncated = False\<rparr>)
            (error_root \<and> stream = Stderr)
      in case pending_of p stream of
           Some pending \<Rightarrow>
             if \<not> error_root \<and> \<not> warning_root
             then ((None, None), with_pending p stream (Some (pending_append pending line)))
             else fresh
         | None \<Rightarrow> fresh)"

definition push_at :: "chrono \<Rightarrow> log_parser \<Rightarrow> log_stream \<Rightarrow> string \<Rightarrow> observed \<Rightarrow> (parsed_frames \<times> log_parser) option" where
  "push_at ch p stream line at =
     (case strip_ansi line of
        None \<Rightarrow> None
      | Some line \<Rightarrow>
          (case parse_header ch p line at of
             None \<Rightarrow> None
           | Some (Some parsed, p) \<Rightarrow>
               Some (log_emit p stream
                 (bound_frame \<lparr>lf_at = ob_ms at, lf_epoch = lp_epoch p, lf_kind = lp_kind p, lf_stream = stream,
                    lf_level = pa_level parsed, lf_timestamp = pa_timestamp parsed, lf_target = pa_target parsed,
                    lf_message = pa_message parsed, lf_fields = pa_fields parsed, lf_raw = line, lf_truncated = False\<rparr>)
                 (pa_level parsed \<ge> LError))
           | Some (None, p) \<Rightarrow> Some (push_plain p stream line at)))"

definition log_finish :: "log_parser \<Rightarrow> parsed_frames \<times> log_parser" where
  "log_finish p =
     (let out = map_option pn_frame (pending_of p Stdout); err = map_option pn_frame (pending_of p Stderr) in
      (if lp_newest p = Some Stdout then (err, out) else (out, err), p\<lparr>lp_stdout := None, lp_stderr := None, lp_newest := None\<rparr>))"

section \<open>Summaries\<close>

definition flatten_frames :: "parsed_frames \<Rightarrow> log_frame list" where
  "flatten_frames fs = (case fst fs of None \<Rightarrow> [] | Some f \<Rightarrow> [f]) @ (case snd fs of None \<Rightarrow> [] | Some f \<Rightarrow> [f])"

definition error_summary :: "log_frame list \<Rightarrow> string option" where
  "error_summary frames =
     (case filter (\<lambda>l. l \<ge> LWarning) (map lf_level frames) of
        [] \<Rightarrow> None
      | l # ls \<Rightarrow>
          let level = fold max ls l in
          map_option lf_message (find (\<lambda>f. lf_level f = level) (rev frames)))"

definition join_lines :: "string list \<Rightarrow> string" where
  "join_lines ls = (case ls of [] \<Rightarrow> [] | l # ls \<Rightarrow> l @ concat (map (\<lambda>x. CHR 0x0A # x) ls))"

definition format_tail :: "log_frame list \<Rightarrow> string" where
  "format_tail frames = join_lines (map lf_raw frames)"

definition verbatim_output :: "string \<Rightarrow> string \<Rightarrow> string" where
  "verbatim_output out err =
     (let text = join_lines (filter (\<lambda>t. t \<noteq> []) [str_trim out, str_trim err]) in
      if text = [] then ''core reported no output'' else text)"

text \<open>The lines of one stream; \<open>at\<close> is the clock each line reads.\<close>

fun push_lines :: "chrono \<Rightarrow> (nat \<Rightarrow> observed) \<Rightarrow> nat \<Rightarrow> log_stream \<Rightarrow> string list \<Rightarrow> log_parser \<Rightarrow> (log_frame list \<times> log_parser) option" where
  "push_lines ch at n stream [] p = Some ([], p)"
| "push_lines ch at n stream (line # later) p =
     (case push_at ch p stream line (at n) of
        None \<Rightarrow> None
      | Some (frames, p) \<Rightarrow>
          map_option (\<lambda>(fs, p). (flatten_frames frames @ fs, p)) (push_lines ch at (n + 1) stream later p))"

definition summarize_output :: "chrono \<Rightarrow> (nat \<Rightarrow> observed) \<Rightarrow> core_kind \<Rightarrow> string \<Rightarrow> string \<Rightarrow> string option" where
  "summarize_output ch at kind out err =
     (case push_lines ch at 0 Stdout (str_lines out) (log_parser_new kind 0) of
        None \<Rightarrow> None
      | Some (frames, p) \<Rightarrow>
          (case push_lines ch at (length (str_lines out)) Stderr (str_lines err) p of
             None \<Rightarrow> None
           | Some (frames', p) \<Rightarrow>
               (case error_summary (frames @ frames' @ flatten_frames (fst (log_finish p))) of
                  Some s \<Rightarrow> Some s
                | None \<Rightarrow> Some (verbatim_output out err))))"

end
