(* ===== verification/Instance.thy ===== *)
theory Instance
  imports Core_Log Manager_State
begin

text \<open>
  One epoch of a running core (\<open>instance.rs\<close>): what the supervision shares with its callers, the monitor loop
  that turns supervisor events and probe observations into the published status, the probe driver
  (\<open>health/driver.rs\<close>), and stopping with proof of death.  The supervisor, the reaper and the operating
  system are parameters.  A turn of the monitor or of the driver is what one pass of its biased
  \<open>select!\<close> does with what is ready at that moment.
\<close>

section \<open>Shared state\<close>

definition LOG_TAIL_FRAMES :: nat where
  "LOG_TAIL_FRAMES = 32"

record inst_shared =
  sh_status :: instance_status
  sh_user_stop :: bool
  sh_probe_timeout :: bool
  sh_parser :: log_parser
  sh_tail :: "log_frame list"
  sh_cancel :: bool
  sh_probe_cancel :: bool

definition shared_publish :: "instance_state \<Rightarrow> inst_shared \<Rightarrow> inst_shared" where
  "shared_publish state sh =
     (let st = (sh_status sh)\<lparr>i_state := state\<rparr> in
      sh\<lparr>sh_status := (if state = IStopping \<or> is_terminal state then st\<lparr>i_health := None, i_instance_id := None\<rparr> else st)\<rparr>)"

definition publish_log_frame :: "log_frame \<Rightarrow> inst_shared \<Rightarrow> inst_shared" where
  "publish_log_frame f sh =
     (let tail = (if length (sh_tail sh) = LOG_TAIL_FRAMES then drop 1 (sh_tail sh) else sh_tail sh) in
      sh\<lparr>sh_tail := tail @ [f]\<rparr>)"

definition flush_log_record :: "inst_shared \<Rightarrow> inst_shared" where
  "flush_log_record sh =
     (let (frames, p) = log_finish (sh_parser sh) in fold publish_log_frame (flatten_frames frames) (sh\<lparr>sh_parser := p\<rparr>))"

definition diagnostic_frames :: "inst_shared \<Rightarrow> log_frame list \<times> inst_shared" where
  "diagnostic_frames sh = (let sh = flush_log_record sh in (sh_tail sh, sh))"

definition diagnostics :: "inst_shared \<Rightarrow> string \<times> inst_shared" where
  "diagnostics sh = (let (frames, sh) = diagnostic_frames sh in (format_tail frames, sh))"

definition failure_summary :: "string \<Rightarrow> inst_shared \<Rightarrow> string \<times> inst_shared" where
  "failure_summary lifecycle sh =
     (let (frames, sh) = diagnostic_frames sh in
      (case error_summary frames of Some t \<Rightarrow> t | None \<Rightarrow> lifecycle, sh))"

text \<open>What the supervisor reports of the process output; \<open>None\<close> is a panic of the parser.\<close>

datatype process_event = PeStdout string | PeStderr string | PeTerminated | PeOther

definition on_process_event :: "chrono \<Rightarrow> observed \<Rightarrow> process_event \<Rightarrow> inst_shared \<Rightarrow> inst_shared option" where
  "on_process_event ch at event sh =
     map_option (\<lambda>(frames, p). fold publish_log_frame (flatten_frames frames) (sh\<lparr>sh_parser := p\<rparr>))
       (case event of
          PeStdout line \<Rightarrow> push_at ch (sh_parser sh) Stdout line at
        | PeStderr line \<Rightarrow> push_at ch (sh_parser sh) Stderr line at
        | PeTerminated \<Rightarrow> Some (log_finish (sh_parser sh))
        | PeOther \<Rightarrow> Some ((None, None), sh_parser sh))"

section \<open>The probe driver\<close>

record probe_observation =
  po_run_id :: "64 word"
  po_pid :: "32 word"
  po_phase :: probe_phase
  po_completed_at :: instant
  po_completed_ms :: millis
  po_result :: probe_result

datatype driver_command = UseLiveness | ReconcileNow

record probe_driver =
  dv_run_id :: "64 word"
  dv_pid :: "32 word"
  dv_liveness :: bool
  dv_periodic :: "probe_phase option"
  dv_next :: instant
  dv_commands :: "driver_command list"

text \<open>How one attempt ends, and the observation made of it.\<close>

datatype probe_attempt = AttemptCancelled | AttemptTimedOut | AttemptResult probe_result

definition run_attempt :: "(duration \<Rightarrow> string) \<Rightarrow> duration \<Rightarrow> probe_driver \<Rightarrow> probe_phase \<Rightarrow> instant \<Rightarrow> millis \<Rightarrow> probe_attempt \<Rightarrow> probe_observation option" where
  "run_attempt show_dur timeout d phase now ms tried =
     (case (case tried of
              AttemptCancelled \<Rightarrow> None
            | AttemptTimedOut \<Rightarrow> Some (ProbeUnhealthy (Some (''probe timed out after '' @ show_dur timeout)))
            | AttemptResult r \<Rightarrow> Some r) of
        None \<Rightarrow> None
      | Some r \<Rightarrow> Some \<lparr>po_run_id = dv_run_id d, po_pid = dv_pid d, po_phase = phase, po_completed_at = now,
                        po_completed_ms = ms, po_result = r\<rparr>)"

definition driver_start :: "64 word \<Rightarrow> 32 word \<Rightarrow> bool \<Rightarrow> instant \<Rightarrow> probe_driver" where
  "driver_start run_id pid liveness now =
     \<lparr>dv_run_id = run_id, dv_pid = pid, dv_liveness = liveness, dv_periodic = Some Readiness, dv_next = now, dv_commands = []\<rparr>"

definition use_liveness :: "probe_driver \<Rightarrow> probe_driver" where
  "use_liveness d = d\<lparr>dv_commands := dv_commands d @ [UseLiveness]\<rparr>"

definition driver_reconcile :: "probe_driver \<Rightarrow> probe_driver" where
  "driver_reconcile d = d\<lparr>dv_commands := dv_commands d @ [ReconcileNow]\<rparr>"

text \<open>One turn of the driver task that is not cancelled: a command first, else the periodic probe when it is due.
  \<open>now\<close> is when the turn starts, \<open>finished\<close> when its attempt completed; the observation goes to the monitor.\<close>

definition driver_turn :: "(duration \<Rightarrow> string) \<Rightarrow> health_policy \<Rightarrow> instant \<Rightarrow> instant \<Rightarrow> millis \<Rightarrow> probe_attempt \<Rightarrow> probe_driver \<Rightarrow>
    probe_driver \<times> probe_observation option" where
  "driver_turn show_dur policy now finished ms tried d =
     (case dv_commands d of
        UseLiveness # cs \<Rightarrow>
          (d\<lparr>dv_commands := cs, dv_periodic := (if dv_liveness d then Some Liveness else None), dv_next := now + hp_interval policy\<rparr>, None)
      | ReconcileNow # cs \<Rightarrow>
          (d\<lparr>dv_commands := cs\<rparr>, run_attempt show_dur (hp_timeout policy) d Reconcile finished ms tried)
      | [] \<Rightarrow>
          (case dv_periodic d of
             None \<Rightarrow> (d, None)
           | Some phase \<Rightarrow>
               if dv_next d \<le> now
               then (d\<lparr>dv_next := finished + hp_interval policy\<rparr>, run_attempt show_dur (hp_timeout policy) d phase finished ms tried)
               else (d, None)))"

section \<open>Health and terminal status\<close>

definition reset_starting_health :: "millis \<Rightarrow> health_status option \<Rightarrow> health_status" where
  "reset_starting_health now previous =
     \<lparr>h_state = HStarting,
      h_changed_at = (case previous of Some p \<Rightarrow> if h_state p = HStarting then h_changed_at p else now | None \<Rightarrow> now),
      h_consecutive_failures = 0, h_last_error = None, h_last_success_at = None\<rparr>"

fun health_of_tracker :: "tracker_state \<Rightarrow> health_state" where
  "health_of_tracker TStarting = HStarting"
| "health_of_tracker THealthy = HHealthy"
| "health_of_tracker TUnhealthy = HUnhealthy"

definition make_health_status :: "health_status option \<Rightarrow> tracker_update \<Rightarrow> probe_observation \<Rightarrow> health_status" where
  "make_health_status previous update obs =
     (let state = health_of_tracker (tu_state update) in
      \<lparr>h_state = state,
       h_changed_at = (case previous of
          Some p \<Rightarrow> if h_state p = state then h_changed_at p else po_completed_ms obs
        | None \<Rightarrow> po_completed_ms obs),
       h_consecutive_failures = tu_consecutive_failures update,
       h_last_error = tu_last_error update,
       h_last_success_at = (if is_healthy (po_result obs) then Some (po_completed_ms obs)
          else Option.bind previous h_last_success_at)\<rparr>)"

text \<open>\<open>TerminatedPayload\<close>: the exit code, and its debug text.\<close>

record terminated_payload =
  tp_code :: "int option"
  tp_debug :: string

fun debug_last_exit :: "terminated_payload option \<Rightarrow> string" where
  "debug_last_exit None = ''None''"
| "debug_last_exit (Some p) = ''Some('' @ tp_debug p @ '')''"

definition publish_terminal :: "terminated_payload option \<Rightarrow> inst_shared \<Rightarrow> inst_shared" where
  "publish_terminal last_exit sh =
     (let sh = flush_log_record sh;
          (reason, sh) =
            (if sh_user_stop sh then (User, sh)
             else if sh_probe_timeout sh
             then (let (d, sh) = diagnostics sh in (ErrorReason (''health probe timed out'' @ CHR 0x0A # d), sh))
             else if (case last_exit of Some p \<Rightarrow> tp_code p = Some 0 | None \<Rightarrow> False) then (Finished, sh)
             else (let (d, sh) = diagnostics sh in
                   (ErrorReason (''core exited unexpectedly ('' @ debug_last_exit last_exit @ '')'' @ CHR 0x0A # d), sh)))
      in sh\<lparr>sh_status := \<lparr>i_instance_id = None, i_state = IStopped reason, i_health = None\<rparr>\<rparr>)"

section \<open>The monitor\<close>

record run_state =
  rs_run_id :: "64 word"
  rs_pid :: "32 word"
  rs_ack_attempted :: bool
  rs_ready :: bool
  rs_tracker :: health_tracker

datatype supervisor_event = SvStarted "32 word" | SvRestarting "32 word" | SvExited terminated_payload | SvGaveUp | SvStopped | SvOther

text \<open>The local variables of the loop, what waits in its channels, and the answers it gave to probe requests.\<close>

record monitor =
  mn_shared :: inst_shared
  mn_ever_ready :: bool
  mn_timeout_fired :: bool
  mn_probes_cancelled :: bool
  mn_next_run_id :: "64 word"
  mn_current :: "run_state option"
  mn_driver :: "probe_driver option"
  mn_respawn_deadline :: "instant option"
  mn_last_exit :: "terminated_payload option"
  mn_events :: "supervisor_event list"
  mn_events_closed :: bool
  mn_requests :: nat
  mn_observations :: "probe_observation list"
  mn_answers :: "probe_result list"
  mn_returned :: bool

text \<open>What the loop was started with, and what it sees of the outside at one turn: the clocks, a fresh identifier and
  whether the supervisor acknowledges a process.\<close>

record monitor_args =
  ma_options :: instance_options
  ma_liveness :: bool
  ma_initial_deadline :: instant

record moment =
  mt_now :: instant
  mt_ms :: millis
  mt_uuid :: uuid
  mt_acknowledges :: "32 word \<Rightarrow> bool"

definition on_shared :: "(inst_shared \<Rightarrow> inst_shared) \<Rightarrow> monitor \<Rightarrow> monitor" where
  "on_shared f m = m\<lparr>mn_shared := f (mn_shared m)\<rparr>"

definition publish_status :: "instance_status \<Rightarrow> monitor \<Rightarrow> monitor" where
  "publish_status st = on_shared (\<lambda>sh. sh\<lparr>sh_status := st\<rparr>)"

definition status_now :: "monitor \<Rightarrow> instance_status" where
  "status_now m = sh_status (mn_shared m)"

definition stop_probe_driver :: "monitor \<Rightarrow> monitor" where
  "stop_probe_driver m = m\<lparr>mn_driver := None\<rparr>"

definition observation_applies :: "probe_observation \<Rightarrow> run_state \<Rightarrow> bool" where
  "observation_applies obs run = (po_run_id obs = rs_run_id run \<and> po_pid obs = rs_pid run)"

text \<open>\<open>ProbeReconcile::apply\<close> for an observation of the current process in time; whether it became ready.\<close>

definition apply_current :: "moment \<Rightarrow> run_state \<Rightarrow> probe_observation \<Rightarrow> monitor \<Rightarrow> bool \<times> monitor" where
  "apply_current mt run obs m =
     (let (tracker, update) = observe (rs_tracker run) (po_completed_at obs) (po_result obs);
          run = run\<lparr>rs_tracker := tracker\<rparr>;
          should_ack = (\<not> rs_ack_attempted run \<and> tu_state update = THealthy)
      in if should_ack
         then
           let run = run\<lparr>rs_ack_attempted := True\<rparr>; acknowledged = mt_acknowledges mt (rs_pid run) in
           if acknowledged
           then
             (True, publish_status \<lparr>i_instance_id = i_instance_id (status_now m), i_state = IRunning (rs_pid run),
                      i_health = Some (make_health_status (i_health (status_now m)) update obs)\<rparr>
                (m\<lparr>mn_ever_ready := True, mn_respawn_deadline := None, mn_current := Some (run\<lparr>rs_ready := True\<rparr>),
                   mn_driver := map_option use_liveness (mn_driver m)\<rparr>))
           else (False, m\<lparr>mn_current := Some run\<rparr>)
         else
           (False, publish_status \<lparr>i_instance_id = i_instance_id (status_now m), i_state = i_state (status_now m),
                     i_health = Some (make_health_status (i_health (status_now m)) update obs)\<rparr>
              (m\<lparr>mn_current := Some run\<rparr>)))"

definition apply_observation :: "monitor_args \<Rightarrow> moment \<Rightarrow> probe_observation \<Rightarrow> monitor \<Rightarrow> bool \<times> monitor" where
  "apply_observation args mt obs m =
     (case mn_current m of
        None \<Rightarrow> (False, m)
      | Some run \<Rightarrow>
          if \<not> observation_applies obs run then (False, m)
          else
            let beyond_initial = (\<not> mn_ever_ready m \<and> ma_initial_deadline args < po_completed_at obs);
                beyond_respawn = (case mn_respawn_deadline m of None \<Rightarrow> False | Some d \<Rightarrow> d < po_completed_at obs)
            in if beyond_initial \<or> beyond_respawn then (False, m) else apply_current mt run obs m)"

text \<open>\<open>drain\<close>: the queued observations until one makes the instance ready.\<close>

fun drain_observations :: "monitor_args \<Rightarrow> moment \<Rightarrow> probe_observation list \<Rightarrow> monitor \<Rightarrow> bool \<times> monitor" where
  "drain_observations args mt [] m = (False, m\<lparr>mn_observations := []\<rparr>)"
| "drain_observations args mt (obs # later) m =
     (let (ready, m) = apply_observation args mt obs m in
      if ready then (True, m\<lparr>mn_observations := later\<rparr>) else drain_observations args mt later m)"

definition on_started :: "monitor_args \<Rightarrow> moment \<Rightarrow> 32 word \<Rightarrow> monitor \<Rightarrow> monitor" where
  "on_started args mt pid m =
     (let m = stop_probe_driver m;
          run_id = saturating_add (mn_next_run_id m) 1;
          m = publish_status \<lparr>i_instance_id = Some (mt_uuid mt), i_state = i_state (status_now m),
                i_health = Some (reset_starting_health (mt_ms mt) (i_health (status_now m)))\<rparr> m
      in m\<lparr>mn_next_run_id := run_id,
           mn_current := Some \<lparr>rs_run_id = run_id, rs_pid = pid, rs_ack_attempted = False, rs_ready = False,
             rs_tracker = tracker_new (opt_health (ma_options args)) (mt_now mt)\<rparr>,
           mn_respawn_deadline := (if mn_ever_ready m then Some (mt_now mt + opt_startup_timeout (ma_options args)) else None),
           mn_driver := (if mn_probes_cancelled m then None else Some (driver_start run_id pid (ma_liveness args) (mt_now mt)))\<rparr>)"

definition on_event :: "monitor_args \<Rightarrow> moment \<Rightarrow> supervisor_event \<Rightarrow> monitor \<Rightarrow> monitor" where
  "on_event args mt event m =
     (case event of
        SvStarted pid \<Rightarrow> on_started args mt pid m
      | SvRestarting n \<Rightarrow>
          publish_status \<lparr>i_instance_id = None, i_state = IRestarting n,
              i_health = Some (reset_starting_health (mt_ms mt) (i_health (status_now m)))\<rparr>
            ((stop_probe_driver m)\<lparr>mn_current := None, mn_respawn_deadline := None\<rparr>)
      | SvExited payload \<Rightarrow>
          (stop_probe_driver m)\<lparr>mn_current := None, mn_respawn_deadline := None, mn_last_exit := Some payload\<rparr>
      | SvGaveUp \<Rightarrow>
          (let (d, sh) = diagnostics (mn_shared m) in
           (stop_probe_driver m)\<lparr>mn_shared := sh\<lparr>sh_status := \<lparr>i_instance_id = None,
               i_state = IStopped (ErrorReason (''core kept crashing; restart budget exhausted'' @ CHR 0x0A # d)), i_health = None\<rparr>\<rparr>,
             mn_returned := True\<rparr>)
      | SvStopped \<Rightarrow> (on_shared (publish_terminal (mn_last_exit m)) (stop_probe_driver m))\<lparr>mn_returned := True\<rparr>
      | SvOther \<Rightarrow> m)"

definition request_shutdown :: "monitor \<Rightarrow> monitor" where
  "request_shutdown m =
     on_shared (\<lambda>sh. sh\<lparr>sh_probe_timeout := True, sh_probe_cancel := True, sh_cancel := True\<rparr>)
       ((stop_probe_driver m)\<lparr>mn_current := None, mn_respawn_deadline := None\<rparr>)"

definition on_initial_deadline :: "monitor_args \<Rightarrow> moment \<Rightarrow> monitor \<Rightarrow> monitor" where
  "on_initial_deadline args mt m =
     (let (became_ready, m) = drain_observations args mt (mn_observations m) m in
      if \<not> became_ready \<and> \<not> mn_ever_ready m then (request_shutdown m)\<lparr>mn_timeout_fired := True\<rparr> else m)"

definition on_respawn_deadline :: "monitor_args \<Rightarrow> moment \<Rightarrow> monitor \<Rightarrow> monitor" where
  "on_respawn_deadline args mt m =
     (let (became_ready, m) = drain_observations args mt (mn_observations m) m in
      if \<not> became_ready \<and> mn_respawn_deadline m \<noteq> None then request_shutdown m else m)"

definition on_request :: "monitor \<Rightarrow> monitor" where
  "on_request m =
     (let m = m\<lparr>mn_requests := mn_requests m - 1\<rparr> in
      if (case mn_current m of Some run \<Rightarrow> rs_ready run | None \<Rightarrow> False)
      then (case mn_driver m of
              Some d \<Rightarrow> m\<lparr>mn_driver := Some (driver_reconcile d)\<rparr>
            | None \<Rightarrow> m\<lparr>mn_answers := mn_answers m @ [ProbeUnhealthy (Some ''instance probe driver is not running'')]\<rparr>)
      else m\<lparr>mn_answers := mn_answers m @ [ProbeUnhealthy (Some ''instance is not running'')]\<rparr>)"

text \<open>One pass of the biased \<open>select!\<close>; with nothing ready it waits.\<close>

definition monitor_turn :: "monitor_args \<Rightarrow> moment \<Rightarrow> monitor \<Rightarrow> monitor" where
  "monitor_turn args mt m =
     (if sh_probe_cancel (mn_shared m) \<and> \<not> mn_probes_cancelled m
      then (stop_probe_driver m)\<lparr>mn_probes_cancelled := True, mn_current := None, mn_respawn_deadline := None\<rparr>
      else case mn_events m of
        event # later \<Rightarrow> on_event args mt event (m\<lparr>mn_events := later\<rparr>)
      | [] \<Rightarrow>
          if mn_events_closed m then (on_shared (publish_terminal (mn_last_exit m)) m)\<lparr>mn_returned := True\<rparr>
          else if \<not> mn_ever_ready m \<and> \<not> mn_timeout_fired m \<and> ma_initial_deadline args \<le> mt_now mt
          then on_initial_deadline args mt m
          else if (case mn_respawn_deadline m of Some d \<Rightarrow> d \<le> mt_now mt | None \<Rightarrow> False)
          then on_respawn_deadline args mt m
          else if 0 < mn_requests m then on_request m
          else case mn_observations m of
            obs # later \<Rightarrow> snd (apply_observation args mt obs (m\<lparr>mn_observations := later\<rparr>))
          | [] \<Rightarrow> m)"

definition monitor_initial :: "log_parser \<Rightarrow> millis \<Rightarrow> monitor" where
  "monitor_initial parser now =
     \<lparr>mn_shared = \<lparr>sh_status = instance_status_initial now, sh_user_stop = False, sh_probe_timeout = False, sh_parser = parser,
        sh_tail = [], sh_cancel = False, sh_probe_cancel = False\<rparr>,
      mn_ever_ready = False, mn_timeout_fired = False, mn_probes_cancelled = False, mn_next_run_id = 0, mn_current = None,
      mn_driver = None, mn_respawn_deadline = None, mn_last_exit = None, mn_events = [], mn_events_closed = False,
      mn_requests = 0, mn_observations = [], mn_answers = [], mn_returned = False\<rparr>"

section \<open>Stopping\<close>

text \<open>The command line and environment; \<open>Some True\<close> is an epoch pid file, \<open>Some False\<close> a plain one.\<close>

record process_command =
  pc_program :: string
  pc_args :: "string list"
  pc_env :: "(string \<times> string) list"
  pc_dir :: string
  pc_pid_file :: "(bool \<times> string) option"

text \<open>A one-shot run: it ended with an exit status and its output, timed out after the bound, or failed.\<close>

datatype check_output = CoExited bool string string | CoTimedOut duration | CoFailed string

datatype supervisor_stop = SsStopped | SsAlreadyExited | SsFailed string | SsTimedOut

text \<open>The outside of an instance: where its shared state lives, its supervisor and monitor task, the file system check and
  the identity reaper.  \<open>pe_join_monitor\<close> says whether the task ended within the time; otherwise it is aborted.\<close>

record 'w proc_env =
  pe_shared :: "runtime_instance \<Rightarrow> 'w \<Rightarrow> inst_shared"
  pe_set_shared :: "runtime_instance \<Rightarrow> inst_shared \<Rightarrow> 'w \<Rightarrow> 'w"
  pe_take_supervisor :: "runtime_instance \<Rightarrow> 'w \<Rightarrow> bool \<times> 'w"
  pe_supervisor_stop :: "runtime_instance \<Rightarrow> duration \<Rightarrow> 'w \<Rightarrow> supervisor_stop \<times> 'w"
  pe_take_monitor :: "runtime_instance \<Rightarrow> 'w \<Rightarrow> bool \<times> 'w"
  pe_join_monitor :: "runtime_instance \<Rightarrow> duration \<Rightarrow> 'w \<Rightarrow> bool \<times> 'w"
  pe_await_change :: "runtime_instance \<Rightarrow> 'w \<Rightarrow> bool \<times> 'w"
  pe_exists :: "string \<Rightarrow> 'w \<Rightarrow> (io_error, bool) result \<times> 'w"
  pe_reap :: "string \<Rightarrow> string \<Rightarrow> 'w \<Rightarrow> (error, orphan_reap_outcome) result \<times> 'w"
  pe_metadata :: "string \<Rightarrow> 'w \<Rightarrow> bool"
  pe_version_probe :: "resolved_controller \<Rightarrow> (error, unit) result"
  pe_spawn :: "process_command \<Rightarrow> 'w \<Rightarrow> (string, nat) result \<times> 'w"
  pe_output :: "process_command \<Rightarrow> duration \<Rightarrow> 'w \<Rightarrow> check_output \<times> 'w"
  pe_show_dur :: "duration \<Rightarrow> string"

definition epoch_pid_path :: "instance_spec \<Rightarrow> epoch \<Rightarrow> string option" where
  "epoch_pid_path spec e =
     (case is_pid_file spec of
        None \<Rightarrow> None
      | Some pid_file \<Rightarrow>
          if file_name pid_file = Some (''core-'' @ display_epoch e @ ''.pid'')
             \<and> file_name (is_config_path spec) = Some (''config-'' @ display_epoch e @ ''.yaml'')
             \<and> path_parent pid_file = path_parent (is_config_path spec)
          then Some pid_file else None)"

definition reap_epoch_record_if_present :: "'w proc_env \<Rightarrow> runtime_instance \<Rightarrow> 'w \<Rightarrow> (error, unit) result \<times> 'w" where
  "reap_epoch_record_if_present env inst w =
     (case epoch_pid_path (ri_spec inst) (ri_epoch inst) of
        None \<Rightarrow> (Inr (), w)
      | Some pid_file \<Rightarrow>
          (case pe_exists env pid_file w of
             (Inl e, w) \<Rightarrow> (Inl (Io e), w)
           | (Inr False, w) \<Rightarrow> (Inr (), w)
           | (Inr True, w) \<Rightarrow>
               (case path_parent (is_config_path (ri_spec inst)) of
                  None \<Rightarrow> (Inl (StopUnconfirmed ''runtime config has no parent directory''), w)
                | Some dir \<Rightarrow>
                    (case pe_reap env pid_file dir w of
                       (Inl e, w) \<Rightarrow> (Inl e, w)
                     | (Inr _, w) \<Rightarrow> (Inr (), w)))))"

text \<open>Verifying identity with the given text on failure.\<close>

definition verify_dead :: "'w proc_env \<Rightarrow> string \<Rightarrow> runtime_instance \<Rightarrow> 'w \<Rightarrow> (error, unit) result \<times> 'w" where
  "verify_dead env what inst w =
     (case reap_epoch_record_if_present env inst w of
        (Inl e, w) \<Rightarrow> (Inl (StopUnconfirmed (what @ '' instance identity verification failed: '' @ error_to_string e)), w)
      | (Inr _, w) \<Rightarrow> (Inr (), w))"

definition stop_supervisor :: "'w proc_env \<Rightarrow> runtime_instance \<Rightarrow> duration \<Rightarrow> 'w \<Rightarrow> (string, unit) result \<times> 'w" where
  "stop_supervisor env inst timeout w =
     (case pe_take_supervisor env inst w of
        (False, w) \<Rightarrow> (Inr (), w)
      | (True, w) \<Rightarrow>
          (case pe_supervisor_stop env inst timeout w of
             (SsStopped, w) \<Rightarrow> (Inr (), w)
           | (SsAlreadyExited, w) \<Rightarrow> (Inr (), w)
           | (SsFailed m, w) \<Rightarrow> (Inl (''supervisor stop failed: '' @ m), w)
           | (SsTimedOut, w) \<Rightarrow> (Inl (''supervisor stop exceeded '' @ pe_show_dur env timeout), w)))"

definition join_monitor :: "'w proc_env \<Rightarrow> runtime_instance \<Rightarrow> duration \<Rightarrow> 'w \<Rightarrow> bool \<times> 'w" where
  "join_monitor env inst timeout w =
     (case pe_take_monitor env inst w of
        (False, w) \<Rightarrow> (False, w)
      | (True, w) \<Rightarrow> pe_join_monitor env inst timeout w)"

text \<open>The fallback: the epoch's pid record is the only authority for the kill.\<close>

definition reap_uncertain :: "'w proc_env \<Rightarrow> runtime_instance \<Rightarrow> string \<Rightarrow> bool \<Rightarrow> 'w \<Rightarrow> (error, unit) result \<times> 'w" where
  "reap_uncertain env inst stop_error terminal w =
     (case epoch_pid_path (ri_spec inst) (ri_epoch inst) of
        None \<Rightarrow> (Inl (StopUnconfirmed stop_error), w)
      | Some pid_file \<Rightarrow>
          (case path_parent (is_config_path (ri_spec inst)) of
             None \<Rightarrow> (Inl (StopUnconfirmed ''runtime config has no parent directory''), w)
           | Some dir \<Rightarrow>
               (case pe_reap env pid_file dir w of
                  (Inl e, w) \<Rightarrow>
                    (Inl (StopUnconfirmed (stop_error @ ''; epoch identity reaper failed: '' @ error_to_string e)), w)
                | (Inr outcome, w) \<Rightarrow>
                    if outcome = AlreadyExited \<or> outcome = Killed \<or> outcome = ReapNotFound \<and> terminal
                    then (Inr (), if terminal then w
                                  else pe_set_shared env inst (shared_publish (IStopped User) (pe_shared env inst w)) w)
                    else (Inl (StopUnconfirmed stop_error), w))))"

definition instance_stop :: "'w proc_env \<Rightarrow> runtime_instance \<Rightarrow> duration \<Rightarrow> 'w \<Rightarrow> (error, unit) result \<times> 'w" where
  "instance_stop env inst timeout w =
     (let sh = pe_shared env inst w in
      if is_terminal (i_state (sh_status sh)) then verify_dead env ''terminal'' inst w
      else
        let w = pe_set_shared env inst (shared_publish IStopping (sh\<lparr>sh_user_stop := True, sh_probe_cancel := True\<rparr>)) w;
            (stop_result, w) = stop_supervisor env inst timeout w;
            (monitor_confirmed, w) = join_monitor env inst timeout w;
            terminal = is_terminal (i_state (sh_status (pe_shared env inst w)))
        in if is_ok stop_result \<and> (monitor_confirmed \<or> terminal) then verify_dead env ''stopped'' inst w
           else
             let stop_error = (case stop_result of Inl m \<Rightarrow> m | Inr _ \<Rightarrow> ''instance monitor did not confirm termination'')
             in reap_uncertain env inst stop_error terminal w)"

text \<open>\<open>wait_ready\<close>: the loop over the status feed; \<open>pe_await_change\<close> is \<open>rx.changed()\<close>, false when the feed is closed.
  Not returning is \<open>None\<close>.\<close>

definition startup_failure :: "stop_reason \<Rightarrow> string" where
  "startup_failure reason =
     (case reason of
        ErrorReason text \<Rightarrow> text
      | User \<Rightarrow> ''stopped before ready: User''
      | Finished \<Rightarrow> ''stopped before ready: Finished'')"

definition readiness_of :: "'w proc_env \<Rightarrow> runtime_instance \<Rightarrow> 'w \<Rightarrow> ((error, unit) result \<times> 'w) option" where
  "readiness_of env inst w =
     (let sh = pe_shared env inst w in
      case i_state (sh_status sh) of
        IRunning _ \<Rightarrow> Some (Inr (), w)
      | IStopped reason \<Rightarrow>
          (let (tail, sh') = failure_summary (startup_failure reason) sh in
           Some (Inl (if sh_probe_timeout sh then StartupTimeout tail else StartupFailed tail), pe_set_shared env inst sh' w))
      | _ \<Rightarrow> None)"

definition feed_closed :: "'w proc_env \<Rightarrow> runtime_instance \<Rightarrow> 'w \<Rightarrow> (error, unit) result \<times> 'w" where
  "feed_closed env inst w =
     (let (tail, sh') = diagnostics (pe_shared env inst w) in (Inl (StartupFailed tail), pe_set_shared env inst sh' w))"

partial_function (option) instance_wait_ready :: "'w proc_env \<Rightarrow> runtime_instance \<Rightarrow> 'w \<Rightarrow> ((error, unit) result \<times> 'w) option" where
  "instance_wait_ready env inst w =
     (case readiness_of env inst w of
        Some answer \<Rightarrow> Some answer
      | None \<Rightarrow>
          if fst (pe_await_change env inst w) then instance_wait_ready env inst (snd (pe_await_change env inst w))
          else Some (feed_closed env inst (snd (pe_await_change env inst w))))"

section \<open>Launching\<close>

definition build_command :: "instance_spec \<Rightarrow> epoch \<Rightarrow> resolved_controller \<Rightarrow> string option \<Rightarrow> process_command" where
  "build_command spec e controller descriptor =
     (let config_dir = (case path_parent (is_config_path spec) of Some d \<Rightarrow> d | None \<Rightarrow> is_config_path spec) in
      \<lparr>pc_program = cs_binary_path (is_core spec),
       pc_args = run_args (cs_kind (is_core spec)) (is_working_dir spec) (is_config_path spec)
         @ controller_args (cs_kind (is_core spec)) (rc_host controller),
       pc_env = [(''SAFE_PATHS'', mihomo_safe_paths (is_working_dir spec) config_dir), (''CLICOLOR_FORCE'', ''0'')]
         @ (case descriptor of Some sddl \<Rightarrow> [(''LISTEN_NAMEDPIPE_SDDL'', sddl)] | None \<Rightarrow> []),
       pc_dir = is_working_dir spec,
       pc_pid_file = map_option (\<lambda>f. (epoch_pid_path spec e \<noteq> None, f)) (is_pid_file spec)\<rparr>)"

text \<open>\<open>ProcessRuntimeBackend\<close>: whether the default probes are replaced, and the access to core-created endpoints.\<close>

record process_backend =
  pb_readiness :: bool
  pb_descriptor :: "string option option"

definition spawn_configured ::
    "'w proc_env \<Rightarrow> bool \<Rightarrow> instance_spec \<Rightarrow> epoch \<Rightarrow> resolved_controller \<Rightarrow> string option \<Rightarrow> 'w \<Rightarrow> (error, nat) result \<times> 'w" where
  "spawn_configured env readiness_given spec e controller descriptor w =
     (if \<not> pe_metadata env (is_config_path spec) w then (Inl (ConfigNotFound (is_config_path spec)), w)
      else if \<not> pe_metadata env (cs_binary_path (is_core spec)) w then (Inl (BinaryNotFound (cs_binary_path (is_core spec))), w)
      else case (if readiness_given then Inr () else pe_version_probe env controller) of
        Inl err \<Rightarrow> (Inl err, w)
      | Inr _ \<Rightarrow>
          (case pe_spawn env (build_command spec e controller descriptor) w of
             (Inl m, w) \<Rightarrow> (Inl (Process m), w)
           | (Inr n, w) \<Rightarrow> (Inr n, w)))"

definition process_launch :: "'w proc_env \<Rightarrow> process_backend \<Rightarrow> launch_request \<Rightarrow> 'w \<Rightarrow> (error, nat) result \<times> 'w" where
  "process_launch env pb req w =
     (let descriptor =
            (if (case rc_host (lr_controller req) of NamedPipe _ \<Rightarrow> True | _ \<Rightarrow> False)
                \<and> NamedPipeSecurityDescriptor \<in> set (lr_capabilities req)
             then Option.bind (pb_descriptor pb) id else None)
      in if pb_descriptor pb \<noteq> None
         then
           (case (if pb_readiness pb then Inr () else pe_version_probe env (lr_controller req)) of
              Inl err \<Rightarrow> (Inl err, w)
            | Inr _ \<Rightarrow> spawn_configured env True (lr_effective_spec req) (lr_epoch req) (lr_controller req) descriptor w)
         else spawn_configured env (pb_readiness pb) (lr_effective_spec req) (lr_epoch req) (lr_controller req) descriptor w)"

text \<open>\<open>kind::run_check\<close>; a panic of the summary is \<open>None\<close>.\<close>

definition run_check :: "'w proc_env \<Rightarrow> chrono \<Rightarrow> (nat \<Rightarrow> observed) \<Rightarrow> duration \<Rightarrow> instance_spec \<Rightarrow> 'w \<Rightarrow> ((error, unit) result \<times> 'w) option" where
  "run_check env ch at timeout spec w =
     (case path_parent (is_config_path spec) of
        None \<Rightarrow> Some (Inl (ConfigNotFound (is_config_path spec)), w)
      | Some config_dir \<Rightarrow>
          (case pe_output env \<lparr>pc_program = cs_binary_path (is_core spec), pc_args = check_args (is_working_dir spec) (is_config_path spec),
                   pc_env = [(''SAFE_PATHS'', mihomo_safe_paths (is_working_dir spec) config_dir), (''CLICOLOR_FORCE'', ''0'')],
                   pc_dir = [], pc_pid_file = None\<rparr> timeout w of
             (CoTimedOut after, w) \<Rightarrow> Some (Inl (ConfigCheckFailed (''config check timed out after '' @ pe_show_dur env after)), w)
           | (CoFailed m, w) \<Rightarrow> Some (Inl (Process m), w)
           | (CoExited True _ _, w) \<Rightarrow> Some (Inr (), w)
           | (CoExited False out err, w) \<Rightarrow>
               map_option (\<lambda>t. (Inl (ConfigCheckFailed t), w)) (summarize_output ch at (cs_kind (is_core spec)) out err)))"

text \<open>The manager over supervised processes: what the manager asks of a runtime is answered by the instances.\<close>

definition instance_pid :: "'w proc_env \<Rightarrow> runtime_instance \<Rightarrow> 'w \<Rightarrow> 32 word option" where
  "instance_pid env inst w = (case i_state (sh_status (pe_shared env inst w)) of IRunning pid \<Rightarrow> Some pid | _ \<Rightarrow> None)"

definition process_inner :: "'w proc_env \<Rightarrow> process_backend \<Rightarrow> 'w inner \<Rightarrow> 'w inner" where
  "process_inner env pb i =
     i\<lparr>inn_launch := process_launch env pb, inn_stop := instance_stop env,
       inn_state := (\<lambda>inst w. sh_status (pe_shared env inst w)), inn_pid := instance_pid env, inn_reap := pe_reap env\<rparr>"

section \<open>What stopping promises\<close>

lemma verify_dead_unconfirmed: "verify_dead env what inst w = (Inl err, w') \<Longrightarrow> is_unconfirmed err"
  by (auto simp: verify_dead_def split: prod.splits sum.splits)

lemma reap_uncertain_unconfirmed: "reap_uncertain env inst m terminal w = (Inl err, w') \<Longrightarrow> is_unconfirmed err"
  by (auto simp: reap_uncertain_def split: option.splits prod.splits sum.splits if_splits)

lemma instance_stop_unconfirmed: "instance_stop env inst timeout w = (Inl err, w') \<Longrightarrow> is_unconfirmed err"
  by (auto simp: instance_stop_def Let_def split: if_splits prod.splits dest: verify_dead_unconfirmed reap_uncertain_unconfirmed)

end
