(* ===== verification/Log_Correct.thy ===== *)
theory Log_Correct
  imports Core_Log "HOL-Library.Code_Target_Nat"
begin

text \<open>
  What the log parser guarantees: every frame it lets out respects the caps, nothing but what a cap cuts is
  lost, the logfmt scanner reads back what logfmt prints, and on ASCII lines (or on any text for the cores
  other than clash-rs) no slice panics.
\<close>

section \<open>Caps\<close>

definition frame_ok :: "log_frame \<Rightarrow> bool" where
  "frame_ok f =
     (length (lf_message f) \<le> MAX_LOG_TEXT_BYTES \<and> length (lf_raw f) \<le> MAX_LOG_TEXT_BYTES \<and>
      (case lf_target f of None \<Rightarrow> True | Some t \<Rightarrow> length t \<le> MAX_LOG_TARGET_BYTES) \<and>
      (case lf_timestamp f of None \<Rightarrow> True | Some t \<Rightarrow> length (lt_raw t) \<le> MAX_LOG_TIMESTAMP_RAW_BYTES) \<and>
      length (lf_fields f) \<le> MAX_LOG_FIELDS \<and>
      list_all (\<lambda>x. length (fl_key x) \<le> MAX_LOG_FIELD_TEXT_BYTES \<and> length (fl_value x) \<le> MAX_LOG_FIELD_TEXT_BYTES) (lf_fields f))"

definition parser_ok :: "log_parser \<Rightarrow> bool" where
  "parser_ok p = (\<forall>st q. pending_of p st = Some q \<longrightarrow> frame_ok (pn_frame q) \<and> pn_continuations q \<le> MAX_CONTINUATION_LINES)"

lemma bound_field_ok:
  "length (fl_key (fst (bound_field x))) \<le> MAX_LOG_FIELD_TEXT_BYTES" "length (fl_value (fst (bound_field x))) \<le> MAX_LOG_FIELD_TEXT_BYTES"
  using truncate_text_length [of _ MAX_LOG_FIELD_TEXT_BYTES] by (simp_all add: bound_field_def split: prod.splits) (metis fst_conv)+

lemma bound_frame_ok: "frame_ok (bound_frame f)"
  using truncate_text_length bound_field_ok
  by (auto simp: frame_ok_def bound_frame_def Let_def list_all_iff split: option.splits prod.splits) (metis fst_conv)+

lemma pending_append_ok:
  assumes "frame_ok (pn_frame q)" and "pn_continuations q \<le> MAX_CONTINUATION_LINES"
  shows "frame_ok (pn_frame (pending_append q line))" "pn_continuations (pending_append q line) \<le> MAX_CONTINUATION_LINES"
proof -
  have "length (fst (append_bounded (lf_raw (pn_frame q)) line MAX_LOG_TEXT_BYTES)) \<le> MAX_LOG_TEXT_BYTES"
    "length (fst (append_bounded (lf_message (pn_frame q)) line MAX_LOG_TEXT_BYTES)) \<le> MAX_LOG_TEXT_BYTES"
    using assms(1) by (auto simp: frame_ok_def intro: append_bounded_length)
  then show "frame_ok (pn_frame (pending_append q line))" "pn_continuations (pending_append q line) \<le> MAX_CONTINUATION_LINES"
    using assms by (auto simp: pending_append_def Let_def frame_ok_def split: prod.splits)
qed

lemma emit_ok:
  assumes "parser_ok p" and "frame_ok f" and "log_emit p st f hold = (fs, p')"
  shows "parser_ok p' \<and> list_all frame_ok (flatten_frames fs)"
  using assms by (auto simp: log_emit_def parser_ok_def flatten_frames_def Let_def split: if_splits option.splits)

lemma push_plain_ok:
  assumes "parser_ok p" and "push_plain p st line at = (fs, p')"
  shows "parser_ok p' \<and> list_all frame_ok (flatten_frames fs)"
proof (cases "\<exists>q. pending_of p st = Some q \<and> \<not> starts_with ''Error:'' line \<and> \<not> starts_with ''warning:'' line")
  case True
  then show ?thesis
    using assms pending_append_ok by (auto simp: push_plain_def parser_ok_def flatten_frames_def Let_def split: if_splits)
next
  case False
  then show ?thesis
    using assms(2) by (auto simp: push_plain_def Let_def split: option.splits if_splits dest: emit_ok [OF assms(1) bound_frame_ok])
qed

lemma parse_header_pending:
  "parse_header ch p line at = Some (r, p') \<Longrightarrow> pending_of p' st = pending_of p st"
  by (auto simp: parse_header_def split: core_kind.splits prod.splits)

lemma push_at_ok:
  assumes "parser_ok p" and "push_at ch p st line at = Some (fs, p')"
  shows "parser_ok p' \<and> list_all frame_ok (flatten_frames fs)"
proof -
  obtain l r q where h: "strip_ansi line = Some l" "parse_header ch p l at = Some (r, q)"
    using assms(2) by (auto simp: push_at_def split: option.splits)
  then have q: "parser_ok q" using assms(1) parse_header_pending by (simp add: parser_ok_def)
  show ?thesis
    using assms(2) h push_plain_ok [OF q, of st l at fs p'] emit_ok [OF q bound_frame_ok, of st _ _ fs p']
    by (cases r) (auto simp: push_at_def)
qed

lemma finish_ok: "parser_ok p \<Longrightarrow> list_all frame_ok (flatten_frames (fst (log_finish p)))"
  by (auto simp: log_finish_def parser_ok_def flatten_frames_def Let_def simp del: pending_of.simps split: option.splits if_splits)

text \<open>A run of the parser over the lines of a process.\<close>

fun feed :: "chrono \<Rightarrow> (log_stream \<times> string \<times> observed) list \<Rightarrow> log_parser \<Rightarrow> (log_frame list \<times> log_parser) option" where
  "feed ch [] p = Some ([], p)"
| "feed ch ((st, line, at) # later) p =
     (case push_at ch p st line at of
        None \<Rightarrow> None
      | Some (frames, p) \<Rightarrow> map_option (\<lambda>(fs, p). (flatten_frames frames @ fs, p)) (feed ch later p))"

lemma feed_ok:
  "feed ch inputs p = Some (fs, p') \<Longrightarrow> parser_ok p \<Longrightarrow> parser_ok p' \<and> list_all frame_ok fs"
proof (induction ch inputs p arbitrary: fs p' rule: feed.induct)
  case (2 ch st line at later p)
  then show ?case by (auto split: option.splits dest: push_at_ok)
qed auto

lemma pending_of_new [simp]: "pending_of (log_parser_new kind e) st = None"
  by (cases st) (simp_all add: log_parser_new_def)

lemma parser_ok_new: "parser_ok (log_parser_new kind e)"
  by (simp add: parser_ok_def)

section \<open>Nothing is lost\<close>

definition unlines :: "string list \<Rightarrow> string" where
  "unlines ls = concat (map (\<lambda>l. l @ [CHR 0x0A]) ls)"

definition raws :: "log_frame list \<Rightarrow> string" where
  "raws fs = unlines (map lf_raw fs)"

definition from_stream :: "log_stream \<Rightarrow> log_frame list \<Rightarrow> log_frame list" where
  "from_stream st fs = filter (\<lambda>f. lf_stream f = st) fs"

definition held :: "log_parser \<Rightarrow> log_stream \<Rightarrow> log_frame list" where
  "held p st = (case pending_of p st of None \<Rightarrow> [] | Some q \<Rightarrow> [pn_frame q])"

definition cut :: "log_frame list \<Rightarrow> bool" where
  "cut fs = list_ex lf_truncated fs"

definition lines_of :: "log_stream \<Rightarrow> (log_stream \<times> string \<times> observed) list \<Rightarrow> string list" where
  "lines_of st inputs = map (\<lambda>(_, line, _). strip_escapes line) (filter (\<lambda>(s, _). s = st) inputs)"

definition streams_ok :: "log_parser \<Rightarrow> bool" where
  "streams_ok p = (\<forall>st. list_all (\<lambda>f. lf_stream f = st) (held p st))"

lemma raws_append [simp]: "raws (a @ b) = raws a @ raws b" and raws_Nil [simp]: "raws [] = []"
    and raws_Cons [simp]: "raws (f # fs) = lf_raw f @ CHR 0x0A # raws fs"
  by (simp_all add: raws_def unlines_def)

lemma cut_simps [simp]: "cut (a @ b) = (cut a \<or> cut b)" "\<not> cut []" "cut (f # fs) = (lf_truncated f \<or> cut fs)"
  by (simp_all add: cut_def)

lemma from_stream_simps [simp]: "from_stream st (a @ b) = from_stream st a @ from_stream st b" "from_stream st [] = []"
    "from_stream st (f # fs) = (if lf_stream f = st then f # from_stream st fs else from_stream st fs)"
  by (simp_all add: from_stream_def)

lemma bound_frame_raw: "\<not> lf_truncated (bound_frame f) \<Longrightarrow> lf_raw (bound_frame f) = lf_raw f"
    and bound_frame_stream [simp]: "lf_stream (bound_frame f) = lf_stream f"
  using truncate_text_whole [of "lf_raw f" MAX_LOG_TEXT_BYTES]
  by (auto simp: bound_frame_def Let_def split: prod.splits option.splits)

lemma pending_append_raw:
  "\<not> lf_truncated (pn_frame (pending_append q line)) \<Longrightarrow>
     \<not> lf_truncated (pn_frame q) \<and> lf_raw (pn_frame (pending_append q line)) = lf_raw (pn_frame q) @ CHR 0x0A # line"
  "lf_stream (pn_frame (pending_append q line)) = lf_stream (pn_frame q)"
  using append_bounded_whole [of "lf_raw (pn_frame q)" line MAX_LOG_TEXT_BYTES]
  by (auto simp: pending_append_def Let_def split: prod.splits if_splits)

text \<open>One line: the frames of its stream grow by it, the other stream is untouched.\<close>

definition step_ok :: "log_parser \<Rightarrow> log_parser \<Rightarrow> log_frame list \<Rightarrow> log_stream \<Rightarrow> string \<Rightarrow> bool" where
  "step_ok p p' fs st line =
     (streams_ok p' \<and>
      (\<forall>st'. st' \<noteq> st \<longrightarrow> from_stream st' fs = [] \<and> held p' st' = held p st') \<and>
      (cut (from_stream st fs @ held p' st) \<or>
       \<not> cut (held p st) \<and> raws (from_stream st fs @ held p' st) = raws (held p st) @ line @ [CHR 0x0A]))"

lemma emit_step:
  assumes "streams_ok p" and "log_emit p st (bound_frame f) hold = (fs, p')" and "lf_stream f = st" and "lf_raw f = line"
  shows "step_ok p p' (flatten_frames fs) st line"
proof -
  have own: "list_all (\<lambda>f. lf_stream f = st') (held p st')" for st' using assms(1) by (simp add: streams_ok_def)
  have fl: "from_stream st (held p st) = held p st" using own [of st] by (simp add: from_stream_def list_all_iff)
  have other: "st' \<noteq> st \<Longrightarrow> from_stream st' (held p st) = []" for st'
    using own [of st] by (auto simp: from_stream_def list_all_iff filter_empty_conv)
  have fs: "flatten_frames fs = held p st @ (if hold then [] else [bound_frame f])"
    and h: "held p' st = (if hold then [bound_frame f] else [])" "st' \<noteq> st \<Longrightarrow> held p' st' = held p st'" for st'
    using assms(2) by (auto simp: log_emit_def Let_def flatten_frames_def held_def split: if_splits option.splits)
  have "list_all (\<lambda>f. lf_stream f = st') (held p' st')" for st' using own [of st'] h assms(3) by (cases "st' = st") auto
  then have "streams_ok p'" by (simp add: streams_ok_def)
  then show ?thesis
    using bound_frame_raw [of f] assms(3,4) h other fl by (auto simp: step_ok_def fs)
qed

lemma streams_update:
  assumes "streams_ok p" and "pending_of p st = Some q"
  shows "step_ok p (with_pending p st (Some (pending_append q line))) [] st line"
proof -
  have "lf_stream (pn_frame q) = st" using assms by (auto simp: streams_ok_def held_def dest: spec [of _ st])
  then show ?thesis
    using assms pending_append_raw [of q line] by (auto simp: step_ok_def streams_ok_def held_def)
qed

lemma push_plain_step:
  assumes "streams_ok p" and "push_plain p st line at = (fs, p')"
  shows "step_ok p p' (flatten_frames fs) st line"
proof (cases "\<exists>q. pending_of p st = Some q \<and> \<not> starts_with ''Error:'' line \<and> \<not> starts_with ''warning:'' line")
  case True
  then obtain q where q: "pending_of p st = Some q" by auto
  from streams_update [OF assms(1) q] show ?thesis
    using assms(2) True q by (auto simp: push_plain_def flatten_frames_def Let_def)
next
  case False
  then show ?thesis
    using assms(2) by (auto simp: push_plain_def Let_def split: option.splits if_splits dest: emit_step [OF assms(1)])
qed

lemma push_at_step:
  assumes "streams_ok p" and "push_at ch p st line at = Some (fs, p')"
  shows "step_ok p p' (flatten_frames fs) st (strip_escapes line)"
proof -
  obtain l r q where h: "strip_ansi line = Some l" "parse_header ch p l at = Some (r, q)"
    using assms(2) by (auto simp: push_at_def split: option.splits)
  have l: "l = strip_escapes line"
    using h(1) strip_escapes_plain by (auto simp: strip_ansi_def Let_def split: if_splits)
  have held: "held q = held p" using parse_header_pending [OF h(2)] by (simp add: held_def fun_eq_iff)
  then have q: "streams_ok q" using assms(1) by (simp add: streams_ok_def)
  have "step_ok q p' (flatten_frames fs) st l"
    using assms(2) h push_plain_step [OF q, of st l at fs p'] emit_step [OF q, of st _ _ fs p']
    by (cases r) (auto simp: push_at_def)
  then show ?thesis by (simp add: step_ok_def held l)
qed

lemma feed_kept:
  assumes "streams_ok p" and "feed ch inputs p = Some (fs, p')"
  shows "streams_ok p' \<and>
    (cut (from_stream st fs @ held p' st) \<or>
     \<not> cut (held p st) \<and> raws (from_stream st fs @ held p' st) = raws (held p st) @ unlines (lines_of st inputs))"
  using assms
proof (induction ch inputs p arbitrary: fs p' rule: feed.induct)
  case (2 ch s line at later p)
  obtain gs q hs where q: "push_at ch p s line at = Some (gs, q)" "feed ch later q = Some (hs, p')"
      and fs: "fs = flatten_frames gs @ hs"
    using 2(3) by (auto split: option.splits)
  have step: "step_ok p q (flatten_frames gs) s (strip_escapes line)" by (rule push_at_step [OF 2(2) q(1)])
  then have "streams_ok q" by (simp add: step_ok_def)
  from 2(1) [OF q(1) refl this q(2)] step show ?case
    by (cases "s = st") (auto simp: fs step_ok_def lines_of_def unlines_def)
qed (auto simp: lines_of_def unlines_def)

lemma finish_held:
  assumes "streams_ok p"
  shows "from_stream st (flatten_frames (fst (log_finish p))) = held p st"
proof -
  have own: "list_all (\<lambda>f. lf_stream f = st') (held p st')" for st' using assms by (simp add: streams_ok_def)
  show ?thesis
    using own [of Stdout] own [of Stderr]
    by (cases st) (auto simp: log_finish_def Let_def flatten_frames_def held_def split: option.splits)
qed

lemma streams_ok_new: "streams_ok (log_parser_new kind e)" and held_new [simp]: "held (log_parser_new kind e) st = []"
  by (simp_all add: streams_ok_def held_def)

section \<open>Logfmt\<close>

text \<open>How logrus prints fields: quoted, with the quote, the backslash and the control characters escaped.\<close>

definition escape_char :: "char \<Rightarrow> string" where
  "escape_char c =
     (if c = CHR 0x22 \<or> c = CHR 0x5C then [CHR 0x5C, c]
      else if c = CHR 0x0A then [CHR 0x5C, CHR ''n'']
      else if c = CHR 0x0D then [CHR 0x5C, CHR ''r'']
      else if c = CHR 0x09 then [CHR 0x5C, CHR ''t'']
      else [c])"

definition print_field :: "string \<times> string \<Rightarrow> string" where
  "print_field = (\<lambda>(k, v). k @ CHR ''='' # CHR 0x22 # concat (map escape_char v) @ [CHR 0x22])"

fun print_logfmt :: "(string \<times> string) list \<Rightarrow> string" where
  "print_logfmt [] = []"
| "print_logfmt (f # fs) = print_field f @ (if fs = [] then [] else CHR '' '' # print_logfmt fs)"

definition key_ok :: "string \<Rightarrow> bool" where
  "key_ok k = (k \<noteq> [] \<and> list_all (\<lambda>c. c \<noteq> CHR ''='' \<and> \<not> is_ascii_whitespace c) k)"

lemma scan_quoted_escaped: "scan_quoted (concat (map escape_char v) @ CHR 0x22 # r) = Some (v, r)"
  by (induction v) (auto simp: escape_char_def unescape_def)

lemma scan_key_printed: "key_ok k \<Longrightarrow> scan_key (k @ CHR ''='' # r) = Some (k, r)"
proof -
  assume k: "key_ok k"
  then have "takeWhile (\<lambda>c. c \<noteq> CHR ''='' \<and> \<not> is_ascii_whitespace c) (k @ CHR ''='' # r) = k"
    by (simp add: key_ok_def list_all_iff takeWhile_append2)
  then show ?thesis using k by (simp add: scan_key_def key_ok_def)
qed

lemma scan_field:
  assumes "key_ok k" and "utf8 v" and "r = [] \<or> is_ascii_whitespace (hd r)"
  shows "scan_logfmt (print_field (k, v) @ r) = map_option (\<lambda>fs. (k, v) # fs) (scan_logfmt r)"
proof -
  obtain c k' where k: "k = c # k'" "\<not> is_ascii_whitespace c" using assms(1) by (cases k) (auto simp: key_ok_def)
  have "scan_value (CHR 0x22 # concat (map escape_char v) @ CHR 0x22 # r) = Some (v, r)"
    using assms(2,3) by (auto simp: scan_value_def scan_quoted_escaped)
  moreover have "print_field (k, v) @ r = k @ CHR ''='' # CHR 0x22 # concat (map escape_char v) @ CHR 0x22 # r"
    by (simp add: print_field_def)
  ultimately show ?thesis
    using scan_key_printed [OF assms(1), of "CHR 0x22 # concat (map escape_char v) @ CHR 0x22 # r"] k
    by (subst scan_logfmt.simps) (simp add: Let_def)
qed

lemma scan_skips_space: "scan_logfmt (CHR '' '' # r) = scan_logfmt r"
  by (simp add: scan_logfmt.simps [of "CHR '' '' # r"] scan_logfmt.simps [of r] is_ascii_whitespace_def)

lemma scan_printed:
  "list_all (\<lambda>(k, v). key_ok k \<and> utf8 v) fs \<Longrightarrow> scan_logfmt (print_logfmt fs) = Some fs"
proof (induction fs)
  case Nil
  then show ?case by (simp add: scan_logfmt.simps)
next
  case (Cons f fs)
  obtain k v where f: "f = (k, v)" by force
  let ?r = "if fs = [] then [] else CHR '' '' # print_logfmt fs"
  have "scan_logfmt (print_field (k, v) @ ?r) = map_option (\<lambda>fs. (k, v) # fs) (scan_logfmt ?r)"
    using Cons.prems by (intro scan_field) (auto simp: f is_ascii_whitespace_def)
  moreover have "scan_logfmt ?r = Some fs" using Cons by (auto simp: scan_skips_space scan_logfmt.simps [of "[]"])
  ultimately show ?case by (simp add: f)
qed

section \<open>Panics\<close>

lemma ascii_boundary: "list_all ascii s \<Longrightarrow> i \<le> length s \<Longrightarrow> is_char_boundary s i"
  using ascii_not_continuation by (auto simp: is_char_boundary_def list_all_length)

lemma rfind_char_less: "rfind_char d s = Some i \<Longrightarrow> i < length s"
  by (induction s arbitrary: i) (auto split: option.splits if_splits)

lemma rfind_whitespace_less: "rfind_whitespace s = Some i \<Longrightarrow> i < length s"
  by (induction s arbitrary: i) (auto split: option.splits if_splits)

lemma clash_rs_anchor_ascii: "list_all ascii rest \<Longrightarrow> clash_rs_anchor rest seps \<noteq> None"
proof (induction seps)
  case (Cons sep seps)
  have "is_char_boundary (take sep rest) start" if "rfind_char (CHR '':'') (take sep rest) = Some colon"
    "start = (case rfind_whitespace (take colon (take sep rest)) of None \<Rightarrow> 0 | Some i \<Rightarrow> i + 1)" for colon start
  proof (rule ascii_boundary)
    show "list_all ascii (take sep rest)" using Cons.prems by (auto simp: list_all_iff dest: in_set_takeD)
    show "start \<le> length (take sep rest)"
      using rfind_char_less [OF that(1)] rfind_whitespace_less [of "take colon (take sep rest)"] that(2)
      by (auto split: option.splits)
  qed
  then show ?case using Cons by (auto simp: Let_def split: option.splits)
qed simp

lemma trim_start_suffix: "\<exists>a. s = a @ trim_start s"
proof (induction s rule: trim_start.induct)
  case (1 s)
  show ?case
  proof (cases "whitespace_len s = 0")
    case False
    with 1 obtain a where "drop (whitespace_len s) s = a @ trim_start (drop (whitespace_len s) s)" by auto
    then have "s = (take (whitespace_len s) s @ a) @ trim_start (drop (whitespace_len s) s)"
      by (metis append_assoc append_take_drop_id)
    then show ?thesis using False by (metis trim_start.simps)
  qed (simp add: trim_start.simps [of s])
qed

lemma trim_start_chars: "set (trim_start s) \<subseteq> set s"
  using trim_start_suffix [of s] by (metis set_append sup_ge2)

lemma take_token_chars:
  assumes "take_token s = Some (a, b)"
  shows "set b \<subseteq> set s"
proof -
  obtain i where "b = trim_start (drop i (trim_start s))" using assms by (auto simp: take_token_def Let_def)
  then have "set b \<subseteq> set (drop i (trim_start s))" by (simp add: trim_start_chars)
  also have "\<dots> \<subseteq> set (trim_start s)" by (rule set_drop_subset)
  finally show ?thesis using trim_start_chars [of s] by simp
qed

lemma parse_clash_rs_ascii:
  assumes "list_all ascii line"
  shows "parse_clash_rs ch line at \<noteq> None"
proof -
  have "clash_rs_source rest \<noteq> None" if "take_token (drop n line) = Some (a, rest)" for n a rest
  proof -
    have "set rest \<subseteq> set line" using take_token_chars [OF that] set_drop_subset [of n line] by simp
    then show ?thesis using assms unfolding clash_rs_source_def by (intro clash_rs_anchor_ascii) (auto simp: list_all_iff)
  qed
  then show ?thesis by (auto simp: parse_clash_rs_def Let_def split: option.splits)
qed

lemma skip_csi_chars: "set (skip_csi s) \<subseteq> set s"
  by (induction s) auto

lemma strip_escapes_chars: "set (strip_escapes s) \<subseteq> set s"
proof (induction s rule: strip_escapes.induct)
  case (2 c s)
  show ?case
  proof (cases "c = ESC")
    case True
    show ?thesis
    proof (cases s)
      case (Cons d t)
      then show ?thesis
        using 2(2) [of d t] 2(3) [of d t] True skip_csi_chars [of t] by (cases "d = CHR ''[''") auto
    qed (simp add: True)
  qed (use 2(1) in auto)
qed simp

lemma parse_header_total:
  assumes "lp_kind p = ClashRust \<Longrightarrow> list_all ascii l"
  shows "\<exists>r q. parse_header ch p l at = Some (r, q)"
  using parse_clash_rs_ascii [of l ch at] assms by (cases "lp_kind p") (auto simp: parse_header_def split: prod.splits)

lemma push_at_total:
  assumes "utf8 line" and "lp_kind p = ClashRust \<Longrightarrow> list_all ascii line"
  shows "\<exists>r. push_at ch p st line at = Some r"
proof -
  obtain l where l: "strip_ansi line = Some l" using strip_ansi_total [OF assms(1)] by auto
  then have "set l \<subseteq> set line"
    using strip_escapes_chars [of line] by (auto simp: strip_ansi_def Let_def split: if_splits)
  then have "lp_kind p = ClashRust \<Longrightarrow> list_all ascii l" using assms(2) by (auto simp: list_all_iff)
  then obtain r q where "parse_header ch p l at = Some (r, q)" using parse_header_total [of p l ch at] by auto
  then show ?thesis using l by (cases r) (auto simp: push_at_def)
qed

section \<open>Summaries\<close>

lemma find_rev: "find P (rev xs) = (if filter P xs = [] then None else Some (last (filter P xs)))"
  by (induction xs rule: rev_induct) auto

lemma Max_above:
  fixes A :: "'a :: linorder set"
  assumes "finite A" and "{x \<in> A. b \<le> x} \<noteq> {}"
  shows "Max {x \<in> A. b \<le> x} = Max A"
proof (rule antisym)
  show "Max {x \<in> A. b \<le> x} \<le> Max A" using assms by (intro Max_mono) auto
  have "b \<le> Max A" using assms by (auto intro: order.trans [OF _ Max_ge])
  then show "Max A \<le> Max {x \<in> A. b \<le> x}" using assms by (intro Max_ge) (auto intro: Max_in)
qed

lemma severest_level:
  assumes "filter (\<lambda>l. LWarning \<le> l) (map lf_level frames) = l # ls"
  shows "fold max ls l = Max (lf_level ` set frames)"
proof -
  have "set (l # ls) = {x \<in> lf_level ` set frames. LWarning \<le> x}" by (simp add: assms [symmetric])
  then have "Max (set (l # ls)) = Max (lf_level ` set frames)"
    using Max_above [of "lf_level ` set frames" LWarning] by force
  then show ?thesis by (simp only: Max.set_eq_fold)
qed

section \<open>Properties\<close>

text \<open>C12: Whatever lines a core prints on its two streams, every frame that leaves the parser, at once or when
  the process ends, respects the caps on its message, its raw text, its target, its timestamp and the number and
  size of its fields.\<close>

theorem log_frames_bounded:
  assumes "feed ch inputs (log_parser_new kind e) = Some (fs, p)"
  shows "list_all frame_ok (fs @ flatten_frames (fst (log_finish p)))"
  using feed_ok [OF assms parser_ok_new] finish_ok by simp

text \<open>C13: Nothing is lost: for each stream, the raw texts of its frames, when none of them says it was truncated, are
  exactly the lines of that stream with the terminal escapes removed, in order.\<close>

theorem log_nothing_lost:
  assumes "feed ch inputs (log_parser_new kind e) = Some (fs, p)"
    and "\<not> cut (from_stream st (fs @ flatten_frames (fst (log_finish p))))"
  shows "raws (from_stream st (fs @ flatten_frames (fst (log_finish p)))) = unlines (lines_of st inputs)"
  using feed_kept [OF streams_ok_new assms(1), of st] finish_held assms(2) by auto


text \<open>The cause reported for a failed run is the message of the last frame of the highest severity above info, and
  there is none exactly when no frame is a warning or worse.\<close>

theorem error_summary_spec:
  "error_summary frames =
     (if list_all (\<lambda>f. lf_level f < LWarning) frames then None
      else Some (lf_message (last (filter (\<lambda>f. lf_level f = Max (lf_level ` set frames)) frames))))"
proof (cases "filter (\<lambda>l. LWarning \<le> l) (map lf_level frames)")
  case Nil
  then have "list_all (\<lambda>f. lf_level f < LWarning) frames" by (auto simp: filter_empty_conv list_all_iff not_le)
  then show ?thesis using Nil by (simp add: error_summary_def)
next
  case (Cons l ls)
  have "l \<in> set (filter (\<lambda>l. LWarning \<le> l) (map lf_level frames))" using Cons by simp
  then have ne: "\<not> list_all (\<lambda>f. lf_level f < LWarning) frames" by (auto simp: list_all_iff not_less)
  then have "Max (lf_level ` set frames) \<in> lf_level ` set frames" by (intro Max_in) auto
  then have "filter (\<lambda>f. lf_level f = Max (lf_level ` set frames)) frames \<noteq> []" by (auto simp: filter_empty_conv)
  then show ?thesis using ne Cons severest_level [OF Cons] by (simp add: error_summary_def find_rev)
qed


text \<open>The bound of the previous statement is needed: a clash-rs line with an ideographic space (three bytes) before its
  \<open>file:line\<close> anchor makes the slice start inside that character.\<close>

definition wide_space_line :: string where
  "wide_space_line = ''26-01-02 03:04:05:6 INFO a'' @ [CHR 0xE3, CHR 0x80, CHR 0x80] @ ''b:1: c''"

theorem clash_rs_wide_space_panics:
  "utf8 wide_space_line \<and> push_at ch (log_parser_new ClashRust e) st wide_space_line at = None"
proof -
  have "utf8 wide_space_line" and a: "strip_ansi wide_space_line = Some wide_space_line"
    and b: "clash_rs_timestamp_end wide_space_line = Some 19"
    and c: "take_token (drop 19 wide_space_line) = Some (''INFO'', drop 25 wide_space_line)"
    and d: "clash_rs_source (drop 25 wide_space_line) = None"
    by code_simp+
  then show ?thesis
    by (simp add: push_at_def parse_header_def parse_clash_rs_def log_parser_new_def parse_level_def)
qed


definition no_calendar :: chrono where
  "no_calendar = \<lparr>ch_rfc3339_ms = (\<lambda>_. None), ch_hms = (\<lambda>_. None), ch_ymd = (\<lambda>_ _ _. None), ch_hms_nano = (\<lambda>_ _ _ _. None),
     ch_succ = (\<lambda>_. None), ch_pred = (\<lambda>_. None), ch_since = (\<lambda>_ _. 0), ch_local_ms = (\<lambda>_ _ _. None)\<rparr>"

definition epoch_start :: observed where
  "epoch_start = \<lparr>ob_ms = 0, ob_date = 0, ob_time = 0, ob_offset = 0\<rparr>"

text \<open>A failing start: an error, its continuation and an unrelated line on the other stream.\<close>

definition demo_lines :: "(log_stream \<times> string \<times> observed) list" where
  "demo_lines = [(Stderr, ''Error: bind'', epoch_start), (Stdout, ''x'', epoch_start), (Stderr, ''  in use'', epoch_start)]"



lemma demo_runs:
  "case feed no_calendar demo_lines (log_parser_new Meow 1) of
     None \<Rightarrow> False
   | Some (fs, p) \<Rightarrow>
       \<not> cut (from_stream Stderr (fs @ flatten_frames (fst (log_finish p)))) \<and>
       length (fs @ flatten_frames (fst (log_finish p))) = 2"
  by code_simp

theorem log_frames_bounded_witness:
  "\<exists>fs p. feed no_calendar demo_lines (log_parser_new Meow 1) = Some (fs, p) \<and>
     length (fs @ flatten_frames (fst (log_finish p))) = 2 \<and> list_all frame_ok (fs @ flatten_frames (fst (log_finish p)))"
  using demo_runs log_frames_bounded [of no_calendar demo_lines Meow 1] by (auto split: option.splits prod.splits)

theorem log_nothing_lost_witness:
  "\<exists>fs p. feed no_calendar demo_lines (log_parser_new Meow 1) = Some (fs, p) \<and>
     raws (from_stream Stderr (fs @ flatten_frames (fst (log_finish p)))) = unlines [''Error: bind'', ''  in use'']"
proof -
  obtain fs p where r: "feed no_calendar demo_lines (log_parser_new Meow 1) = Some (fs, p)"
      "\<not> cut (from_stream Stderr (fs @ flatten_frames (fst (log_finish p))))"
    using demo_runs by (auto split: option.splits prod.splits)
  moreover have "lines_of Stderr demo_lines = [''Error: bind'', ''  in use'']" by code_simp
  ultimately show ?thesis using log_nothing_lost [OF r] by auto
qed



end
