(* ===== verification/Instance_Correct.thy ===== *)
theory Instance_Correct
  imports Instance Log_Correct Manager_Apply
begin

text \<open>
  What supervision guarantees: an instance becomes ready only through an observation of its current process that
  completed by the deadline, a start that is not ready in time is torn down and reported as a startup
  timeout, the diagnostic tail stays bounded, and stopping meets the contract the manager relies on.
\<close>

section \<open>The backend contract\<close>

interpretation process: runtime_backend "process_inner env pb i"
  by unfold_locales (simp add: process_inner_def instance_stop_unconfirmed)

section \<open>Readiness\<close>

lemma shared_simps [simp]:
  "mn_ever_ready (on_shared f m) = mn_ever_ready m" "mn_current (on_shared f m) = mn_current m"
  "mn_shared (on_shared f m) = f (mn_shared m)" "mn_observations (on_shared f m) = mn_observations m"
  "mn_respawn_deadline (on_shared f m) = mn_respawn_deadline m" "mn_timeout_fired (on_shared f m) = mn_timeout_fired m"
  "mn_returned (on_shared f m) = mn_returned m" "mn_last_exit (on_shared f m) = mn_last_exit m"
  "mn_ever_ready (stop_probe_driver m) = mn_ever_ready m" "mn_current (stop_probe_driver m) = mn_current m"
  "mn_shared (stop_probe_driver m) = mn_shared m" "mn_respawn_deadline (stop_probe_driver m) = mn_respawn_deadline m"
  "mn_timeout_fired (stop_probe_driver m) = mn_timeout_fired m" "mn_returned (stop_probe_driver m) = mn_returned m"
  "mn_last_exit (stop_probe_driver m) = mn_last_exit m"
  by (simp_all add: on_shared_def stop_probe_driver_def)

lemma publish_simps [simp]:
  "mn_ever_ready (publish_status st m) = mn_ever_ready m" "mn_current (publish_status st m) = mn_current m"
  "mn_shared (publish_status st m) = (mn_shared m)\<lparr>sh_status := st\<rparr>" "mn_respawn_deadline (publish_status st m) = mn_respawn_deadline m"
  "mn_timeout_fired (publish_status st m) = mn_timeout_fired m" "mn_returned (publish_status st m) = mn_returned m"
  by (simp_all add: publish_status_def)

text \<open>An observation that makes the instance ready for the first time.\<close>

definition in_time :: "monitor_args \<Rightarrow> moment \<Rightarrow> run_state \<Rightarrow> probe_observation \<Rightarrow> bool" where
  "in_time args mt run obs =
     (po_run_id obs = rs_run_id run \<and> po_pid obs = rs_pid run \<and> po_completed_at obs \<le> ma_initial_deadline args \<and>
      mt_acknowledges mt (rs_pid run))"

lemma apply_current_ready:
  assumes "apply_current mt run obs m = (b, m')" and "\<not> mn_ever_ready m"
  shows "(mn_ever_ready m' \<longrightarrow> b \<and> mt_acknowledges mt (rs_pid run) \<and> i_state (status_now m') = IRunning (rs_pid run)) \<and>
    (\<exists>run'. mn_current m' = Some run' \<and> rs_run_id run' = rs_run_id run \<and> rs_pid run' = rs_pid run)"
  using assms by (auto simp: apply_current_def Let_def status_now_def split: prod.splits if_splits)

lemma apply_observation_ready:
  assumes "apply_observation args mt obs m = (b, m')" and "\<not> mn_ever_ready m" and "mn_current m = Some run"
  shows "(mn_ever_ready m' \<longrightarrow> b \<and> in_time args mt run obs \<and> i_state (status_now m') = IRunning (rs_pid run)) \<and>
    (\<exists>run'. mn_current m' = Some run' \<and> rs_run_id run' = rs_run_id run \<and> rs_pid run' = rs_pid run)"
  using assms apply_current_ready [of mt run obs m b m']
  by (auto simp: apply_observation_def Let_def in_time_def observation_applies_def split: if_splits)

lemma apply_observation_idle: "mn_current m = None \<Longrightarrow> apply_observation args mt obs m = (False, m)"
  by (simp add: apply_observation_def)

lemma drain_ready:
  assumes "drain_observations args mt os m = (b, m')" and "\<not> mn_ever_ready m" and "mn_ever_ready m'"
  shows "\<exists>run obs. mn_current m = Some run \<and> obs \<in> set os \<and> in_time args mt run obs \<and> i_state (status_now m') = IRunning (rs_pid run)"
  using assms
proof (induction os arbitrary: m)
  case (Cons obs os)
  obtain c m1 where a: "apply_observation args mt obs m = (c, m1)" by force
  show ?case
  proof (cases "mn_current m")
    case None
    then have "m1 = m" "\<not> c" using a by (simp_all add: apply_observation_idle)
    then have "drain_observations args mt os m = (b, m')" using Cons.prems(1) a by simp
    from Cons.IH [OF this Cons.prems(2,3)] show ?thesis by auto
  next
    case (Some run)
    note r = apply_observation_ready [OF a Cons.prems(2) Some]
    show ?thesis
    proof (cases c)
      case True
      then show ?thesis using r Cons.prems(1,3) a Some by (auto simp: status_now_def)
    next
      case False
      then obtain run' obs' where "mn_current m1 = Some run'" "obs' \<in> set os" "in_time args mt run' obs'"
          "i_state (status_now m') = IRunning (rs_pid run')"
        using Cons.IH [of m1] Cons.prems(1,3) a r by auto
      then show ?thesis using r Some by (auto simp: in_time_def)
    qed
  qed
qed auto

lemma on_event_ready [simp]: "mn_ever_ready (on_event args mt ev m) = mn_ever_ready m"
  by (cases ev) (auto simp: on_event_def on_started_def Let_def split: prod.splits)

lemma on_request_ready [simp]: "mn_ever_ready (on_request m) = mn_ever_ready m"
  by (auto simp: on_request_def Let_def split: option.splits)

lemma request_shutdown_simps [simp]:
  "mn_ever_ready (request_shutdown m) = mn_ever_ready m" "mn_current (request_shutdown m) = None"
  "mn_respawn_deadline (request_shutdown m) = None" "mn_timeout_fired (request_shutdown m) = mn_timeout_fired m"
  "mn_returned (request_shutdown m) = mn_returned m"
  "mn_shared (request_shutdown m) = (mn_shared m)\<lparr>sh_probe_timeout := True, sh_probe_cancel := True, sh_cancel := True\<rparr>"
  by (simp_all add: request_shutdown_def)

text \<open>The branches of a turn.\<close>

lemma turn_cases:
  obtains
    (cancel) "monitor_turn args mt m = (stop_probe_driver m)\<lparr>mn_probes_cancelled := True, mn_current := None, mn_respawn_deadline := None\<rparr>"
      "sh_probe_cancel (mn_shared m)"
  | (event) ev later where "mn_events m = ev # later" "monitor_turn args mt m = on_event args mt ev (m\<lparr>mn_events := later\<rparr>)"
  | (closed) "monitor_turn args mt m = (on_shared (publish_terminal (mn_last_exit m)) m)\<lparr>mn_returned := True\<rparr>"
  | (initial) "monitor_turn args mt m = on_initial_deadline args mt m" "\<not> mn_ever_ready m"
  | (respawn) "monitor_turn args mt m = on_respawn_deadline args mt m" "mn_respawn_deadline m \<noteq> None"
  | (request) "monitor_turn args mt m = on_request m"
  | (observe) obs later where "mn_observations m = obs # later"
      "monitor_turn args mt m = snd (apply_observation args mt obs (m\<lparr>mn_observations := later\<rparr>))"
  | (idle) "monitor_turn args mt m = m"
proof (cases "sh_probe_cancel (mn_shared m) \<and> \<not> mn_probes_cancelled m")
  case True
  then show ?thesis by (intro cancel) (simp_all add: monitor_turn_def)
next
  case no_cancel: False
  show ?thesis
  proof (cases "mn_events m")
    case (Cons ev later)
    then show ?thesis using no_cancel by (intro event) (auto simp: monitor_turn_def)
  next
    case Nil
    note [simp] = monitor_turn_def no_cancel Nil
    consider "mn_events_closed m" | "\<not> mn_events_closed m" "\<not> mn_ever_ready m \<and> \<not> mn_timeout_fired m \<and> ma_initial_deadline args \<le> mt_now mt"
      | "\<not> mn_events_closed m" "\<not> (\<not> mn_ever_ready m \<and> \<not> mn_timeout_fired m \<and> ma_initial_deadline args \<le> mt_now mt)" by blast
    then show ?thesis
    proof cases
      case 3
      note [simp] = 3
      consider d where "mn_respawn_deadline m = Some d" "d \<le> mt_now mt"
        | "\<not> (case mn_respawn_deadline m of Some d \<Rightarrow> d \<le> mt_now mt | None \<Rightarrow> False)" by (cases "mn_respawn_deadline m") auto
      then show ?thesis
      proof cases
        case 2
        then show ?thesis
          by (cases "0 < mn_requests m"; cases "mn_observations m") (auto intro: request observe idle)
      qed (auto intro: respawn)
    qed (auto intro: closed initial)
  qed
qed

lemma turn_ready:
  assumes "\<not> mn_ever_ready m" and "mn_ever_ready (monitor_turn args mt m)"
  shows "\<exists>run obs. mn_current m = Some run \<and> obs \<in> set (mn_observations m) \<and> in_time args mt run obs \<and>
    i_state (status_now (monitor_turn args mt m)) = IRunning (rs_pid run)"
proof (cases rule: turn_cases [of args mt m])
  case initial
  obtain b m1 where d: "drain_observations args mt (mn_observations m) m = (b, m1)" by force
  then show ?thesis using initial assms drain_ready [OF d assms(1)]
    by (auto simp: on_initial_deadline_def status_now_def split: if_splits)
next
  case respawn
  obtain b m1 where d: "drain_observations args mt (mn_observations m) m = (b, m1)" by force
  then show ?thesis using respawn assms drain_ready [OF d assms(1)]
    by (auto simp: on_respawn_deadline_def status_now_def split: if_splits)
next
  case (observe obs later)
  let ?m = "m\<lparr>mn_observations := later\<rparr>"
  obtain b m1 where a: "apply_observation args mt obs ?m = (b, m1)" by force
  then have m1: "monitor_turn args mt m = m1" using observe by simp
  obtain run where run: "mn_current ?m = Some run"
  proof (cases "mn_current m")
    case None
    then have "m1 = ?m" using a by (simp add: apply_observation_idle)
    then have "mn_ever_ready m1 = mn_ever_ready m" by simp
    then show ?thesis using m1 assms by simp
  qed simp
  then show ?thesis using apply_observation_ready [OF a _ run] assms m1 observe(1) by auto
qed (use assms in auto)

section \<open>The invariant of supervision\<close>

text \<open>Everything that happens to an instance: turns of its monitor, process output, what arrives in its channels, a stop
  request, and diagnostics being read.\<close>

inductive mon_reach :: "monitor_args \<Rightarrow> monitor \<Rightarrow> bool" for args where
  start: "mon_reach args (monitor_initial (log_parser_new kind e) now)"
| turn: "mon_reach args m \<Longrightarrow> \<not> mn_returned m \<Longrightarrow> mon_reach args (monitor_turn args mt m)"
| prints: "mon_reach args m \<Longrightarrow> on_process_event ch at ev (mn_shared m) = Some sh \<Longrightarrow> mon_reach args (m\<lparr>mn_shared := sh\<rparr>)"
| outside: "mon_reach args m \<Longrightarrow>
    mon_reach args (m\<lparr>mn_events := es, mn_events_closed := c, mn_requests := n, mn_observations := os, mn_driver := d\<rparr>)"
| stop: "mon_reach args m \<Longrightarrow> \<not> is_terminal (i_state (status_now m)) \<Longrightarrow>
    mon_reach args (on_shared (\<lambda>sh. shared_publish IStopping (sh\<lparr>sh_user_stop := True, sh_probe_cancel := True\<rparr>)) m)"
| diagnose: "mon_reach args m \<Longrightarrow> mon_reach args (on_shared flush_log_record m)"

definition log_ok :: "inst_shared \<Rightarrow> bool" where
  "log_ok sh = (parser_ok (sh_parser sh) \<and> length (sh_tail sh) \<le> LOG_TAIL_FRAMES \<and> list_all frame_ok (sh_tail sh))"

definition mon_inv :: "monitor \<Rightarrow> bool" where
  "mon_inv m =
     (log_ok (mn_shared m) \<and>
      (\<forall>pid. i_state (status_now m) = IRunning pid \<longrightarrow> mn_ever_ready m) \<and>
      (mn_timeout_fired m \<longrightarrow> sh_probe_timeout (mn_shared m) \<and> sh_cancel (mn_shared m)) \<and>
      (mn_respawn_deadline m \<noteq> None \<longrightarrow> mn_ever_ready m) \<and>
      (mn_returned m \<longrightarrow> is_terminal (i_state (status_now m))))"

text \<open>Reading the log touches neither the status nor the flags.\<close>

definition flags :: "inst_shared \<Rightarrow> instance_status \<times> bool \<times> bool \<times> bool \<times> bool" where
  "flags sh = (sh_status sh, sh_user_stop sh, sh_probe_timeout sh, sh_cancel sh, sh_probe_cancel sh)"

lemma publish_log_frame_ok:
  assumes "log_ok sh" and "frame_ok f"
  shows "log_ok (publish_log_frame f sh)" "flags (publish_log_frame f sh) = flags sh"
proof -
  have "list_all frame_ok (drop 1 (sh_tail sh))" using assms(1) by (auto simp: log_ok_def list_all_iff dest: in_set_dropD)
  then show "log_ok (publish_log_frame f sh)" "flags (publish_log_frame f sh) = flags sh"
    using assms by (auto simp: log_ok_def publish_log_frame_def flags_def Let_def LOG_TAIL_FRAMES_def)
qed

lemma publish_frames_ok:
  "log_ok sh \<Longrightarrow> list_all frame_ok fs \<Longrightarrow> log_ok (fold publish_log_frame fs sh) \<and> flags (fold publish_log_frame fs sh) = flags sh"
  by (induction fs arbitrary: sh) (auto simp: publish_log_frame_ok)

lemma parser_ok_finish: "parser_ok (snd (log_finish p))"
proof -
  have "pending_of (snd (log_finish p)) st = None" for st by (cases st) (simp_all add: log_finish_def Let_def)
  then show ?thesis by (simp add: parser_ok_def)
qed

lemma published_ok:
  assumes "log_ok sh" and "parser_ok p" and "list_all frame_ok (flatten_frames frames)"
  shows "log_ok (fold publish_log_frame (flatten_frames frames) (sh\<lparr>sh_parser := p\<rparr>)) \<and>
    flags (fold publish_log_frame (flatten_frames frames) (sh\<lparr>sh_parser := p\<rparr>)) = flags sh"
proof -
  have "log_ok (sh\<lparr>sh_parser := p\<rparr>)" using assms(1,2) by (simp add: log_ok_def)
  from publish_frames_ok [OF this assms(3)] show ?thesis by (simp add: flags_def)
qed

lemma flush_ok:
  assumes "log_ok sh"
  shows "log_ok (flush_log_record sh)" "flags (flush_log_record sh) = flags sh"
  using published_ok [OF assms parser_ok_finish, of "fst (log_finish (sh_parser sh))" "sh_parser sh"] finish_ok [of "sh_parser sh"] assms
  by (auto simp: flush_log_record_def log_ok_def split: prod.splits)

lemma diagnostics_ok: "log_ok sh \<Longrightarrow> diagnostics sh = (d, sh') \<Longrightarrow> log_ok sh' \<and> flags sh' = flags sh"
  using flush_ok [of sh] by (auto simp: diagnostics_def diagnostic_frames_def Let_def)

lemma on_process_event_ok:
  assumes "log_ok sh" and "on_process_event ch at ev sh = Some sh'"
  shows "log_ok sh' \<and> flags sh' = flags sh"
proof -
  have p: "parser_ok (sh_parser sh)" using assms(1) by (simp add: log_ok_def)
  have fin: "parser_ok (snd (log_finish (sh_parser sh)))" "list_all frame_ok (flatten_frames (fst (log_finish (sh_parser sh))))"
    using parser_ok_finish finish_ok [OF p] by auto
  have "\<exists>frames q. parser_ok q \<and> list_all frame_ok (flatten_frames frames) \<and>
      sh' = fold publish_log_frame (flatten_frames frames) (sh\<lparr>sh_parser := q\<rparr>)"
  proof (cases ev)
    case PeTerminated
    then have "sh' = fold publish_log_frame (flatten_frames (fst (log_finish (sh_parser sh)))) (sh\<lparr>sh_parser := snd (log_finish (sh_parser sh))\<rparr>)"
      using assms(2) by (simp add: on_process_event_def case_prod_beta)
    then show ?thesis using fin by blast
  next
    case PeOther
    have "list_all frame_ok (flatten_frames (None, None))" by (simp add: flatten_frames_def)
    moreover have "sh' = fold publish_log_frame (flatten_frames (None, None)) (sh\<lparr>sh_parser := sh_parser sh\<rparr>)"
      using assms(2) PeOther by (simp add: on_process_event_def)
    ultimately show ?thesis using p by blast
  next
    case (PeStdout line)
    then obtain frames q where "push_at ch (sh_parser sh) Stdout line at = Some (frames, q)"
        "sh' = fold publish_log_frame (flatten_frames frames) (sh\<lparr>sh_parser := q\<rparr>)"
      using assms(2) by (auto simp: on_process_event_def)
    then show ?thesis using push_at_ok [OF p] by blast
  next
    case (PeStderr line)
    then obtain frames q where "push_at ch (sh_parser sh) Stderr line at = Some (frames, q)"
        "sh' = fold publish_log_frame (flatten_frames frames) (sh\<lparr>sh_parser := q\<rparr>)"
      using assms(2) by (auto simp: on_process_event_def)
    then show ?thesis using push_at_ok [OF p] by blast
  qed
  then show ?thesis using published_ok [OF assms(1)] by blast
qed

lemma log_ok_status [simp]: "log_ok (sh\<lparr>sh_status := st\<rparr>) = log_ok sh"
    and log_ok_flags [simp]: "log_ok (sh\<lparr>sh_user_stop := a\<rparr>) = log_ok sh" "log_ok (sh\<lparr>sh_probe_timeout := b\<rparr>) = log_ok sh"
      "log_ok (sh\<lparr>sh_cancel := b\<rparr>) = log_ok sh" "log_ok (sh\<lparr>sh_probe_cancel := b\<rparr>) = log_ok sh"
  by (simp_all add: log_ok_def)

lemma shared_publish_log [simp]: "log_ok (shared_publish st sh) = log_ok sh"
  by (simp add: shared_publish_def Let_def)

text \<open>The terminal status: why the process ended, and nothing else changes but the log.\<close>

lemma publish_terminal_shape:
  assumes "log_ok sh"
  shows "\<exists>sh' reason. publish_terminal last_exit sh = sh'\<lparr>sh_status := \<lparr>i_instance_id = None, i_state = IStopped reason, i_health = None\<rparr>\<rparr> \<and>
    log_ok sh' \<and> flags sh' = flags sh \<and>
    (sh_user_stop sh \<longrightarrow> reason = User) \<and>
    (\<not> sh_user_stop sh \<and> sh_probe_timeout sh \<longrightarrow> (\<exists>d. reason = ErrorReason (''health probe timed out'' @ CHR 0x0A # d)))"
proof -
  let ?f = "flush_log_record sh"
  note f = flush_ok [OF assms]
  obtain d sh2 where d: "diagnostics ?f = (d, sh2)" by force
  note d2 = diagnostics_ok [OF f(1) d]
  have fl: "sh_user_stop ?f = sh_user_stop sh" "sh_probe_timeout ?f = sh_probe_timeout sh" using f(2) by (auto simp: flags_def)
  show ?thesis
    using f d2 fl d by (auto simp: publish_terminal_def Let_def split: if_splits)
qed

lemma ended_inv:
  assumes "mon_inv m"
  shows "mon_inv ((on_shared (publish_terminal last_exit) m)\<lparr>mn_returned := True\<rparr>)"
proof -
  have "log_ok (mn_shared m)" using assms by (simp add: mon_inv_def)
  from publish_terminal_shape [OF this, of last_exit] obtain sh reason where
    sh: "publish_terminal last_exit (mn_shared m) = sh\<lparr>sh_status := \<lparr>i_instance_id = None, i_state = IStopped reason, i_health = None\<rparr>\<rparr>"
      "log_ok sh" "flags sh = flags (mn_shared m)" by blast
  then show ?thesis using assms by (simp add: mon_inv_def status_now_def flags_def)
qed

lemma mon_inv_driver: "mon_inv m \<Longrightarrow> mon_inv (stop_probe_driver m)"
  by (simp add: mon_inv_def status_now_def)

lemma on_event_inv:
  assumes "mon_inv m" and "\<not> mn_returned m"
  shows "mon_inv (on_event args mt ev m)"
proof (cases ev)
  case SvGaveUp
  obtain d sh where d: "diagnostics (mn_shared m) = (d, sh)" by force
  have "log_ok sh \<and> flags sh = flags (mn_shared m)" using diagnostics_ok [OF _ d] assms by (simp add: mon_inv_def)
  then show ?thesis using assms SvGaveUp d by (simp add: on_event_def mon_inv_def status_now_def flags_def)
next
  case SvStopped
  then show ?thesis using ended_inv [OF mon_inv_driver [OF assms(1)]] by (simp add: on_event_def)
next
  case (SvStarted pid)
  then show ?thesis using assms by (simp add: on_event_def on_started_def mon_inv_def status_now_def Let_def)
qed (use assms in \<open>simp_all add: on_event_def mon_inv_def status_now_def\<close>)

lemma apply_current_inv:
  assumes "mon_inv m" and "\<not> mn_returned m" and "apply_current mt run obs m = (b, m')"
  shows "mon_inv m' \<and> \<not> mn_returned m'"
proof -
  obtain tracker update where u: "observe (rs_tracker run) (po_completed_at obs) (po_result obs) = (tracker, update)" by force
  have m': "m' = snd (apply_current mt run obs m)" using assms(3) by simp
  show ?thesis
    unfolding m' using assms(1,2) u by (simp add: apply_current_def Let_def mon_inv_def status_now_def)
qed

lemma apply_observation_inv:
  assumes "mon_inv m" and "\<not> mn_returned m" and "apply_observation args mt obs m = (b, m')"
  shows "mon_inv m' \<and> \<not> mn_returned m'"
proof (cases "mn_current m")
  case (Some run)
  then show ?thesis
    using assms apply_current_inv [OF assms(1,2), of mt run obs b m']
    unfolding apply_observation_def Let_def Some option.case by (simp split: if_splits)
qed (use assms in \<open>simp add: apply_observation_idle\<close>)

lemma mon_inv_channels [simp]:
  "mon_inv (m\<lparr>mn_observations := os\<rparr>) = mon_inv m" "mon_inv (m\<lparr>mn_events := es\<rparr>) = mon_inv m"
  "mon_inv (m\<lparr>mn_events_closed := c\<rparr>) = mon_inv m" "mon_inv (m\<lparr>mn_requests := n\<rparr>) = mon_inv m"
  "mon_inv (m\<lparr>mn_driver := d\<rparr>) = mon_inv m" "mon_inv (m\<lparr>mn_answers := xs\<rparr>) = mon_inv m"
  "mon_inv (m\<lparr>mn_current := r\<rparr>) = mon_inv m" "mon_inv (m\<lparr>mn_probes_cancelled := b\<rparr>) = mon_inv m"
  by (simp_all add: mon_inv_def status_now_def)

lemma drain_inv:
  assumes "mon_inv m" and "\<not> mn_returned m" and "drain_observations args mt os m = (b, m')"
  shows "mon_inv m'"
  using assms
proof (induction os arbitrary: m)
  case Nil
  then have "m' = m\<lparr>mn_observations := []\<rparr>" by simp
  then show ?case using Nil(1) by simp
next
  case (Cons obs os)
  obtain c m1 where a: "apply_observation args mt obs m = (c, m1)" by force
  have i: "mon_inv m1" "\<not> mn_returned m1" using apply_observation_inv [OF Cons.prems(1,2) a] by auto
  show ?case
  proof (cases c)
    case True
    then have "m' = m1\<lparr>mn_observations := os\<rparr>" using Cons.prems(3) a by simp
    then show ?thesis using i(1) by simp
  next
    case False
    then have "drain_observations args mt os m1 = (b, m')" using Cons.prems(3) a by simp
    then show ?thesis by (rule Cons.IH [OF i])
  qed
qed

lemma shutdown_inv: "mon_inv m \<Longrightarrow> mon_inv (request_shutdown m)"
    and shutdown_fired_inv: "mon_inv m \<Longrightarrow> mon_inv ((request_shutdown m)\<lparr>mn_timeout_fired := True\<rparr>)"
    and cancel_inv: "mon_inv m \<Longrightarrow> mon_inv (m\<lparr>mn_respawn_deadline := None\<rparr>)"
  by (simp_all add: mon_inv_def status_now_def)

lemma turn_inv:
  assumes "mon_inv m" and "\<not> mn_returned m"
  shows "mon_inv (monitor_turn args mt m)"
proof (cases rule: turn_cases [of args mt m])
  case cancel
  show ?thesis unfolding cancel(1) by (simp add: cancel_inv mon_inv_driver assms(1))
next
  case (event ev later)
  show ?thesis unfolding event(2) by (rule on_event_inv) (simp_all add: assms)
next
  case closed
  then show ?thesis using ended_inv [OF assms(1)] by simp
next
  case initial
  obtain b m1 where d: "drain_observations args mt (mn_observations m) m = (b, m1)" by force
  show ?thesis unfolding initial(1) on_initial_deadline_def d using drain_inv [OF assms d] by (simp add: shutdown_fired_inv)
next
  case respawn
  obtain b m1 where d: "drain_observations args mt (mn_observations m) m = (b, m1)" by force
  show ?thesis unfolding respawn(1) on_respawn_deadline_def d using drain_inv [OF assms d] by (simp add: shutdown_inv)
next
  case (observe obs later)
  let ?m = "m\<lparr>mn_observations := later\<rparr>"
  obtain b m1 where a: "apply_observation args mt obs ?m = (b, m1)" by force
  have "mon_inv ?m" "\<not> mn_returned ?m" using assms by simp_all
  from apply_observation_inv [OF this a] show ?thesis using observe a by simp
next
  case request
  show ?thesis unfolding request on_request_def Let_def using assms(1) by (simp split: option.splits)
next
  case idle
  show ?thesis unfolding idle by (rule assms(1))
qed

lemma mon_inv_shared:
  assumes "mon_inv m" and "log_ok sh" and "flags sh = flags (mn_shared m)"
  shows "mon_inv (m\<lparr>mn_shared := sh\<rparr>)"
  using assms by (simp add: mon_inv_def status_now_def flags_def)

lemma mon_reach_inv: "mon_reach args m \<Longrightarrow> mon_inv m"
proof (induction rule: mon_reach.induct)
  case (start kind e now)
  show ?case
    by (simp add: mon_inv_def status_now_def monitor_initial_def log_ok_def parser_ok_new instance_status_initial_def)
next
  case (turn m mt)
  then show ?case by (simp add: turn_inv)
next
  case (prints m ch at ev sh)
  have "log_ok (mn_shared m)" using prints.IH by (simp add: mon_inv_def)
  from on_process_event_ok [OF this prints.hyps(2)] show ?case using mon_inv_shared [OF prints.IH] by simp
next
  case (stop m)
  then show ?case by (simp add: mon_inv_def status_now_def shared_publish_def Let_def)
next
  case (diagnose m)
  have "log_ok (mn_shared m)" using diagnose.IH by (simp add: mon_inv_def)
  from flush_ok [OF this] show ?case using mon_inv_shared [OF diagnose.IH] by (simp add: on_shared_def)
qed simp

lemma apply_current_user: "sh_user_stop (mn_shared (snd (apply_current mt run obs m))) = sh_user_stop (mn_shared m)"
    and apply_current_true: "fst (apply_current mt run obs m) \<Longrightarrow> mn_ever_ready (snd (apply_current mt run obs m))"
  by (simp_all add: apply_current_def Let_def case_prod_beta split: if_splits)

lemma apply_observation_user: "sh_user_stop (mn_shared (snd (apply_observation args mt obs m))) = sh_user_stop (mn_shared m)"
    and apply_observation_true: "fst (apply_observation args mt obs m) \<Longrightarrow> mn_ever_ready (snd (apply_observation args mt obs m))"
  by (cases "mn_current m"; simp add: apply_observation_def Let_def apply_current_user apply_current_true split: if_splits)+

lemma drain_user:
  "drain_observations args mt os m = (b, m') \<Longrightarrow>
     sh_user_stop (mn_shared m') = sh_user_stop (mn_shared m) \<and> (b \<longrightarrow> mn_ever_ready m')"
proof (induction os arbitrary: m)
  case (Cons obs os)
  obtain c m1 where a: "apply_observation args mt obs m = (c, m1)" by force
  have "sh_user_stop (mn_shared m1) = sh_user_stop (mn_shared m)" "c \<Longrightarrow> mn_ever_ready m1"
    using apply_observation_user [of args mt obs m] apply_observation_true [of args mt obs m] a by simp_all
  then show ?case using Cons.IH [of m1] Cons.prems a by (cases c) auto
qed auto

text \<open>The turn that handles the initial deadline.\<close>

lemma deadline_turn:
  assumes "mon_inv m" and "\<not> mn_returned m" and "\<not> sh_user_stop (mn_shared m)" and "\<not> sh_probe_cancel (mn_shared m)"
    and "mn_events m = []" and "\<not> mn_events_closed m" and "\<not> mn_ever_ready m" and "\<not> mn_timeout_fired m"
    and "ma_initial_deadline args \<le> mt_now mt" and "\<not> mn_ever_ready (monitor_turn args mt m)"
  shows "mn_current (monitor_turn args mt m) = None \<and> sh_cancel (mn_shared (monitor_turn args mt m)) \<and>
    sh_probe_timeout (mn_shared (monitor_turn args mt m)) \<and> \<not> sh_user_stop (mn_shared (monitor_turn args mt m)) \<and>
    log_ok (mn_shared (monitor_turn args mt m))"
proof -
  obtain b m1 where d: "drain_observations args mt (mn_observations m) m = (b, m1)" by force
  have turn: "monitor_turn args mt m = on_initial_deadline args mt m" using assms by (simp add: monitor_turn_def)
  have "log_ok (mn_shared m1)" using drain_inv [OF assms(1,2) d] by (simp add: mon_inv_def)
  moreover have "sh_user_stop (mn_shared m1) = sh_user_stop (mn_shared m)" "b \<Longrightarrow> mn_ever_ready m1" using drain_user [OF d] by auto
  moreover have "\<not> b \<and> \<not> mn_ever_ready m1"
    using assms(10) calculation(3) unfolding turn on_initial_deadline_def d by (cases b; cases "mn_ever_ready m1") simp_all
  ultimately show ?thesis using assms(3) unfolding turn on_initial_deadline_def d by simp
qed

lemma terminal_readiness:
  assumes "log_ok sh" and "\<not> sh_user_stop sh" and "sh_probe_timeout sh" and "pe_shared env inst w = publish_terminal last_exit sh"
  shows "\<exists>tail w'. readiness_of env inst w = Some (Inl (StartupTimeout tail), w')"
proof -
  from publish_terminal_shape [OF assms(1), of last_exit] obtain sh' reason where
    p: "publish_terminal last_exit sh = sh'\<lparr>sh_status := \<lparr>i_instance_id = None, i_state = IStopped reason, i_health = None\<rparr>\<rparr>"
      "flags sh' = flags sh" by blast
  obtain t sh2 where f: "failure_summary (startup_failure reason) (publish_terminal last_exit sh) = (t, sh2)" by force
  have "sh_probe_timeout sh'" using p(2) assms(3) by (simp add: flags_def)
  then show ?thesis using f by (simp add: readiness_of_def assms(4) p(1) Let_def)
qed

section \<open>Properties\<close>

text \<open>C11: An instance becomes ready for the first time only through an observation of its current process (same run, same
  pid) that completed by the startup deadline and that the supervisor acknowledged; the published state is then running
  with that pid.\<close>

theorem instance_ready_in_time:
  assumes "\<not> mn_ever_ready m" and "mn_ever_ready (monitor_turn args mt m)"
  shows "\<exists>run obs. mn_current m = Some run \<and> obs \<in> set (mn_observations m) \<and> po_run_id obs = rs_run_id run \<and>
    po_pid obs = rs_pid run \<and> po_completed_at obs \<le> ma_initial_deadline args \<and> mt_acknowledges mt (rs_pid run) \<and>
    i_state (status_now (monitor_turn args mt m)) = IRunning (rs_pid run)"
  using turn_ready [OF assms] by (auto simp: in_time_def)


text \<open>C14: Whatever happens to an instance, its diagnostic tail holds at most thirty-two frames that respect the caps, it is
  published as running only after it became ready, an elapsed start has its cancellation requested, and a monitor that
  returned has published a terminal state.\<close>

theorem supervision_invariant:
  assumes "mon_reach args m"
  shows "length (sh_tail (mn_shared m)) \<le> 32 \<and> list_all frame_ok (sh_tail (mn_shared m)) \<and>
    (i_state (status_now m) = IRunning pid \<longrightarrow> mn_ever_ready m) \<and>
    (mn_timeout_fired m \<longrightarrow> sh_probe_timeout (mn_shared m) \<and> sh_cancel (mn_shared m)) \<and>
    (mn_returned m \<longrightarrow> is_terminal (i_state (status_now m)))"
  using mon_reach_inv [OF assms] by (simp add: mon_inv_def log_ok_def LOG_TAIL_FRAMES_def)

section \<open>Witnesses\<close>

definition demo_args :: monitor_args where
  "demo_args = \<lparr>ma_options = instance_options_default 0 0, ma_liveness = False, ma_initial_deadline = 100\<rparr>"

definition acknowledges_all :: "32 word \<Rightarrow> bool" where
  "acknowledges_all pid = True"

definition demo_moment :: "instant \<Rightarrow> moment" where
  "demo_moment now = \<lparr>mt_now = now, mt_ms = 0, mt_uuid = 1, mt_acknowledges = acknowledges_all\<rparr>"

definition demo_idle :: monitor where
  "demo_idle = monitor_initial (log_parser_new Mihomo 1) 0"

definition demo_probed :: monitor where
  "demo_probed =
     (monitor_turn demo_args (demo_moment 0) (demo_idle\<lparr>mn_events := [SvStarted 7]\<rparr>))
       \<lparr>mn_observations := [\<lparr>po_run_id = 1, po_pid = 7, po_phase = Readiness, po_completed_at = 5, po_completed_ms = 0,
          po_result = ProbeHealthy\<rparr>]\<rparr>"

theorem instance_ready_in_time_witness:
  "\<not> mn_ever_ready demo_probed \<and> mn_ever_ready (monitor_turn demo_args (demo_moment 5) demo_probed) \<and>
   (\<exists>run obs. mn_current demo_probed = Some run \<and> obs \<in> set (mn_observations demo_probed) \<and> po_completed_at obs \<le> 100 \<and>
      i_state (status_now (monitor_turn demo_args (demo_moment 5) demo_probed)) = IRunning (rs_pid run))"
proof -
  have a: "\<not> mn_ever_ready demo_probed" "mn_ever_ready (monitor_turn demo_args (demo_moment 5) demo_probed)" by code_simp+
  have "ma_initial_deadline demo_args = 100" by (simp add: demo_args_def)
  then show ?thesis using a instance_ready_in_time [OF a] by auto
qed

text \<open>A world that is the shared state of one instance.\<close>

definition demo_env :: "inst_shared proc_env" where
  "demo_env =
     \<lparr>pe_shared = (\<lambda>_ w. w), pe_set_shared = (\<lambda>_ sh _. sh), pe_take_supervisor = (\<lambda>_ w. (True, w)),
      pe_supervisor_stop = (\<lambda>_ _ w. (SsStopped, w)), pe_take_monitor = (\<lambda>_ w. (True, w)), pe_join_monitor = (\<lambda>_ _ w. (True, w)),
      pe_await_change = (\<lambda>_ w. (False, w)), pe_exists = (\<lambda>_ w. (Inr False, w)), pe_reap = (\<lambda>_ _ w. (Inr ReapNotFound, w)),
      pe_metadata = (\<lambda>_ _. True), pe_version_probe = (\<lambda>_. Inr ()), pe_spawn = (\<lambda>_ w. (Inr 1, w)),
      pe_output = (\<lambda>_ _ w. (CoExited True [] [], w)), pe_show_dur = (\<lambda>_. ''1s'')\<rparr>"

definition demo_instance :: runtime_instance where
  "demo_instance =
     \<lparr>ri_id = 1, ri_epoch = Epoch 1,
      ri_spec = \<lparr>is_core = \<lparr>cs_kind = Mihomo, cs_binary_path = ''/bin/core'', cs_version = None, cs_features = []\<rparr>,
        is_config_path = ''/run/config-1.yaml'', is_working_dir = ''/run'', is_pid_file = None, is_options = instance_options_default 0 0\<rparr>,
      ri_controller = \<lparr>rc_host = UnixSocket ''/run/core.sock'', rc_secret = None\<rparr>\<rparr>"


theorem supervision_invariant_witness:
  "mon_reach demo_args (monitor_turn demo_args (demo_moment 100) demo_idle) \<and>
   sh_cancel (mn_shared (monitor_turn demo_args (demo_moment 100) demo_idle))"
proof -
  have "mon_reach demo_args demo_idle" unfolding demo_idle_def by (rule mon_reach.start)
  then have r: "mon_reach demo_args (monitor_turn demo_args (demo_moment 100) demo_idle)"
    by (rule mon_reach.turn) (simp add: demo_idle_def monitor_initial_def)
  moreover have "mn_timeout_fired (monitor_turn demo_args (demo_moment 100) demo_idle)"
    by (simp add: demo_idle_def monitor_initial_def demo_args_def demo_moment_def monitor_turn_def on_initial_deadline_def)
  ultimately show ?thesis using supervision_invariant [OF r] by simp
qed

end
