(* ===== verification/Manager.thy ===== *)
theory Manager
  imports Manager_Apply Instance_Correct "HOL-Library.Code_Target_Nat"
begin

text \<open>
  The manager as a whole: any sequence of its transactions, with the outside changing in between, over supervised
  processes (\<open>process_inner\<close>).  The properties rest on the transaction lemmas through the interpretation of the
  backend contract on the instances.
\<close>

section \<open>Runs\<close>

datatype mgr_op =
    OpStart instance_spec
  | OpStop
  | OpRestart
  | OpSwitch instance_spec
  | OpApply instance_spec "revision_id option"
  | OpReconcile instance_spec "revision_id option"
  | OpRecover
  | OpShutdown

fun run_op :: "'w inner \<Rightarrow> mgr_op \<Rightarrow> ('w, unit) mact" where
  "run_op i (OpStart spec) = mgr_start i spec"
| "run_op i OpStop = mgr_stop i"
| "run_op i OpRestart = bnd (mgr_restart i) (\<lambda>_. ret ())"
| "run_op i (OpSwitch spec) = bnd (mgr_switch i spec) (\<lambda>_. ret ())"
| "run_op i (OpApply spec expected) = bnd (apply_config i spec expected) (\<lambda>_. ret ())"
| "run_op i (OpReconcile spec expected) = bnd (mgr_reconcile i spec expected) (\<lambda>_. ret ())"
| "run_op i OpRecover = recover_quarantine i"
| "run_op i OpShutdown = mgr_shutdown i"

text \<open>What each transaction promises when it succeeds.\<close>

fun promised :: "mgr_op \<Rightarrow> 'w mgr \<Rightarrow> 'w mgr \<Rightarrow> bool" where
  "promised (OpStart spec) s s' = runs_spec spec s'"
| "promised OpStop s s' = (m_current s' = None \<and> set (g_alive s') \<subseteq> uncertain (m_quarantine s'))"
| "promised OpRestart s s' = (\<exists>spec. m_last_spec s = Some spec \<and> runs_spec spec s')"
| "promised (OpSwitch spec) s s' = runs_spec spec s'"
| "promised (OpApply spec expected) s s' = (\<exists>outcome. settled (map_option ac_plan (m_current s)) spec outcome s')"
| "promised (OpReconcile spec expected) s s' = (\<exists>outcome. settled (map_option ac_plan (m_current s)) spec outcome s')"
| "promised OpRecover s s' = (m_quarantine s' = [] \<and> set (g_alive s') \<subseteq> occupant (m_current s'))"
| "promised OpShutdown s s' = (m_current s' = None \<and> set (g_alive s') \<subseteq> uncertain (m_quarantine s'))"

text \<open>States between transactions.  The world may change at any time, and the forwarder publishes what it has received.\<close>

inductive mgr_reach :: "'w inner \<Rightarrow> 'w mgr \<Rightarrow> bool" for i where
  initial: "mgr_reach i (mgr_initial i max_epoch sink t)"
| transaction: "mgr_reach i s \<Longrightarrow> run_op i op s = (r, s') \<Longrightarrow> (\<And>p. r \<noteq> Panic p) \<Longrightarrow> mgr_reach i s'"
| outside: "mgr_reach i s \<Longrightarrow> mgr_reach i (s\<lparr>ss_world := w\<rparr>)"
| forwarded: "mgr_reach i s \<Longrightarrow> tick i s = (r, s') \<Longrightarrow> mgr_reach i s'"

lemma initial_inv: "mgr_inv (mgr_initial i max_epoch sink t)"
  by (simp add: mgr_inv_def phase_def mgr_initial_def occupant_def launches_ok_def status_ok_initial)

lemma inv_facts:
  assumes "mgr_inv s"
  shows "set (g_alive s) \<subseteq> occupant (m_current s) \<union> uncertain (m_quarantine s)" "distinct (g_alive s)" "launches_ok (g_launches s)"
    "status_ok (m_status s)" "\<forall>e \<in> set (g_alive s). e \<le> Epoch (m_last_epoch s)"
proof -
  have p: "phase (m_quarantine s) {} (m_current s) {} s" using assms by (simp add: mgr_inv_def)
  show a: "set (g_alive s) \<subseteq> occupant (m_current s) \<union> uncertain (m_quarantine s)" using p by (simp add: phase_def)
  show "distinct (g_alive s)" "launches_ok (g_launches s)" "status_ok (m_status s)" using p by (simp_all add: phase_def)
  have "\<forall>e \<in> occupant (m_current s) \<union> q_epoch ` set (m_quarantine s). e \<le> Epoch (m_last_epoch s)" using p by (simp add: phase_def)
  moreover have "uncertain (m_quarantine s) \<subseteq> q_epoch ` set (m_quarantine s)" by (auto simp: uncertain_def)
  ultimately show "\<forall>e \<in> set (g_alive s). e \<le> Epoch (m_last_epoch s)" using a by blast
qed

lemma stopped_alive: "mgr_inv s \<Longrightarrow> m_current s = None \<Longrightarrow> set (g_alive s) \<subseteq> uncertain (m_quarantine s)"
  using inv_facts(1) [of s] by (simp add: occupant_def)

lemma recovered_alive: "mgr_inv s \<Longrightarrow> m_quarantine s = [] \<Longrightarrow> set (g_alive s) \<subseteq> occupant (m_current s)"
  using inv_facts(1) [of s] by (simp add: uncertain_def)

text \<open>What \<open>build_configured\<close> returns is such an initial state.\<close>

lemma built_initial: "returns (build_configured i0) (\<lambda>(i, s). \<exists>max_epoch sink t. s = mgr_initial i max_epoch sink t)"
  unfolding build_configured_def Let_def
  by (rule returns_bnd)+ (auto simp: returns_def gets_def)

lemma runs_spec_inv: "runs_spec spec s \<Longrightarrow> mgr_inv s"
  by (auto simp: runs_spec_def intro: runs_inv)

context runtime_backend
begin

lemma run_op_promised:
  assumes "mgr_inv s"
  shows "wp (run_op i op) (ends (\<lambda>_ s'. mgr_inv s' \<and> promised op s s') (\<lambda>_ s'. mgr_inv s' \<and> (op = OpRecover \<longrightarrow> m_quarantine s' \<noteq> []))) s"
proof (cases op)
  case (OpStart spec)
  show ?thesis unfolding OpStart run_op.simps
    by (rule ends_mono [OF mgr_start_spec [OF assms]]) (auto intro: runs_spec_inv)
next
  case OpStop
  show ?thesis unfolding OpStop run_op.simps
    by (rule ends_mono [OF mgr_stop_spec [OF assms]]) (auto simp: stopped_alive)
next
  case OpRestart
  show ?thesis unfolding OpRestart run_op.simps
    by (rule ends_bnd [OF mgr_restart_spec [OF assms]]) (auto intro: runs_spec_inv ends_ret)
next
  case (OpSwitch spec)
  show ?thesis unfolding OpSwitch run_op.simps
    by (rule ends_bnd [OF mgr_switch_spec [OF assms]]) (auto intro: runs_spec_inv ends_ret)
next
  case (OpApply spec expected)
  show ?thesis unfolding OpApply run_op.simps
    by (rule ends_bnd [OF apply_config_spec [OF assms]]) (auto intro: settled_inv ends_ret)
next
  case (OpReconcile spec expected)
  show ?thesis unfolding OpReconcile run_op.simps
    by (rule ends_bnd [OF mgr_reconcile_spec [OF assms]]) (auto intro: settled_inv ends_ret)
next
  case OpRecover
  show ?thesis unfolding OpRecover run_op.simps
    by (rule ends_mono [OF recover_spec [OF assms]]) (auto simp: recovered_alive)
next
  case OpShutdown
  show ?thesis unfolding OpShutdown run_op.simps
    by (rule ends_mono [OF mgr_shutdown_spec [OF assms]]) (auto simp: stopped_alive)
qed

lemma reach_inv: "mgr_reach i s \<Longrightarrow> mgr_inv s"
proof (induction rule: mgr_reach.induct)
  case (transaction s op r s')
  then show ?case using wp_run [OF run_op_promised [OF transaction.IH] transaction.hyps(2)] by (cases r) auto
next
  case (outside s w)
  show ?case by (rule inv_calm [OF calm_world outside.IH])
next
  case (forwarded s r s')
  then show ?case using inv_calm calm.keepsD [OF calm_tick forwarded.hyps(2)] by blast
qed (rule initial_inv)

end

section \<open>Refusals\<close>

text \<open>The revision a caller expects is the one in the slot.\<close>

definition expected_matches :: "revision_id option \<Rightarrow> active option \<Rightarrow> bool" where
  "expected_matches expected c =
     (case expected of None \<Rightarrow> True | Some r \<Rightarrow> (case c of None \<Rightarrow> False | Some a \<Rightarrow> revision_id_of (pl_revision (ac_plan a)) = r))"

definition gated :: "mgr_op \<Rightarrow> bool" where
  "gated op = (op \<noteq> OpStop \<and> op \<noteq> OpRecover \<and> op \<noteq> OpShutdown)"

lemma quarantine_refuses:
  "gated op \<Longrightarrow> m_quarantine s = q # qs \<Longrightarrow> \<exists>reason. run_op i op s = (Err (ManagerQuarantined (q_epoch q) reason), s)"
  by (cases op)
    (simp_all add: gated_def mgr_start_def mgr_restart_def mgr_switch_def apply_config_def mgr_reconcile_def reject_quarantine_def
      quarantine_error_def bnd_def gets_def fail_def Let_def)

lemma apply_locked_conflict:
  "\<not> expected_matches expected (m_current s) \<Longrightarrow> \<exists>e. apply_locked i spec expected s = (Err e, s) \<and> (e = NotStarted \<or> (\<exists>r. expected = Some r \<and> (\<exists>actual. e = RevisionConflict r actual)))"
  by (auto simp: expected_matches_def apply_locked_def status_of_def bnd_def gets_def fail_def Let_def split: option.splits if_splits)

lemma reconcile_conflict:
  "\<not> expected_matches expected (m_current s) \<Longrightarrow> \<exists>e. reconcile_locked i spec expected s = (Err e, s) \<and> (e = NotStarted \<or> (\<exists>r. expected = Some r \<and> (\<exists>actual. e = RevisionConflict r actual)))"
  using apply_locked_conflict [of expected s i spec]
  by (auto simp: expected_matches_def reconcile_locked_def current_running_def status_of_def bnd_def gets_def ret_def fail_def Let_def
      split: option.splits if_splits)

lemma reject_unchanged: "reject_quarantine s = (Ok u, t) \<Longrightarrow> t = s"
  by (auto simp: reject_quarantine_def bnd_def gets_def fail_def ret_def split: option.splits)

lemma reconcile_matches:
  assumes "mgr_reconcile i spec expected s = (Ok outcome, s')"
  shows "expected_matches expected (m_current s)"
proof (rule ccontr)
  assume "\<not> ?thesis"
  then obtain e where e: "reconcile_locked i spec expected s = (Err e, s)" using reconcile_conflict by blast
  show False using assms
    by (auto simp: mgr_reconcile_def bnd_def attempt_def e lift_def fail_def dest!: reject_unchanged split: prod.splits out.splits)
qed

section \<open>A manager on an in-memory disk\<close>

text \<open>An instance for examples: the in-memory file system, a core that starts and stops, and one configuration.\<close>

definition disk_shared :: "mem \<Rightarrow> inst_shared" where
  "disk_shared w = mn_shared (monitor_initial (log_parser_new ClashPremium 1) 0)"

definition disk_env :: "mem proc_env" where
  "disk_env =
     \<lparr>pe_shared = (\<lambda>_. disk_shared), pe_set_shared = (\<lambda>_ _ w. w), pe_take_supervisor = (\<lambda>_ w. (True, w)),
      pe_supervisor_stop = (\<lambda>_ _ w. (SsStopped, w)), pe_take_monitor = (\<lambda>_ w. (True, w)), pe_join_monitor = (\<lambda>_ _ w. (True, w)),
      pe_await_change = (\<lambda>_ w. (False, w)), pe_exists = (\<lambda>_ w. (Inr False, w)), pe_reap = (\<lambda>_ _ w. (Inr ReapNotFound, w)),
      pe_metadata = (\<lambda>_ _. True), pe_version_probe = (\<lambda>_. Inr ()), pe_spawn = (\<lambda>_ w. (Inr 1, w)),
      pe_output = (\<lambda>_ _ w. (CoExited True [] [], w)), pe_show_dur = (\<lambda>_. ''1s'')\<rparr>"

definition disk_inner :: "mem inner" where
  "disk_inner =
     \<lparr>inn_options = manager_options_default\<lparr>mo_runtime_dir := Some ''/run'', mo_log_sink_enabled := False\<rparr>, inn_dir = ''/run'', inn_fs = mem_fs,
      inn_versions = \<lparr>vs_metadata = (\<lambda>_ w. (Inr (Inr 0), w)), vs_command = (\<lambda>_ w. (Inl ''none'', w)), vs_semver = (\<lambda>_. None)\<rparr>,
      inn_env = (\<lambda>_. toy_env), inn_codec = \<lparr>ip_net = Some, ip_addr = Some\<rparr>, inn_now = (\<lambda>_. 0), inn_access = None, inn_dns = None,
      inn_launch = (\<lambda>_ w. (Inr 0, w)), inn_wait_ready = (\<lambda>_ w. (Inr (), w)), inn_stop = (\<lambda>_ _ w. (Inr (), w)),
      inn_state = (\<lambda>_ _. instance_status_initial 0), inn_pid = (\<lambda>_ _. None), inn_probe = (\<lambda>_ w. (True, w)),
      inn_check_config = (\<lambda>_ w. (Inr (), w)), inn_build_client = (\<lambda>_ _. True), inn_patch_config = (\<lambda>_ _ w. (True, w)),
      inn_get_configs = (\<lambda>_ w. (Inl ''refused'', w)), inn_update_config = (\<lambda>_ _ w. (True, w)), inn_cut = (\<lambda>_ _. None),
      inn_events = (\<lambda>_ w. ([], w)), inn_reap = (\<lambda>_ _ w. (Inr ReapNotFound, w)), inn_try_exists = (\<lambda>_ w. (Inr False, w)),
      inn_write_file = (\<lambda>_ _ w. (Inr (), w)), inn_encode_record = (\<lambda>_. Inr []), inn_decode_record = (\<lambda>_. None),
      inn_prepare_sink = (\<lambda>w. (Inr (), w)), inn_stop_sink = (\<lambda>w. w)\<rparr>"

definition disk_manager :: "mem inner" where
  "disk_manager = process_inner disk_env \<lparr>pb_readiness = True, pb_descriptor = None\<rparr> disk_inner"

definition disk_spec :: instance_spec where
  "disk_spec = \<lparr>is_core = \<lparr>cs_kind = ClashPremium, cs_binary_path = ''/bin/core'', cs_version = None, cs_features = []\<rparr>,
     is_config_path = ''/etc/c.yaml'', is_working_dir = ''/run'', is_pid_file = None, is_options = instance_options_default 0 0\<rparr>"

definition disk_state :: "mem mgr" where
  "disk_state = mgr_initial disk_manager 0 False \<lparr>ss_world = \<lparr>mem_files = [(''/etc/c.yaml'', ''x'')], mem_faults = []\<rparr>, ss_temp_counter = 0\<rparr>"

definition disk_started :: "mem mgr" where
  "disk_started = snd (mgr_reconcile disk_manager disk_spec None disk_state)"

section \<open>Properties\<close>

text \<open>C3: In every state the manager reaches, whatever the outside does, at most the core in its slot and the quarantined
  ones whose death is not proven are alive; every core was launched while at most one other was alive and never while
  its own epoch was; live epochs come from the allocator; and the published status describes one epoch consistently.\<close>

theorem manager_one_core:
  assumes "mgr_reach (process_inner env pb i) s"
  shows "set (g_alive s) \<subseteq> occupant (m_current s) \<union> uncertain (m_quarantine s) \<and> distinct (g_alive s) \<and>
     (\<forall>(e, alive) \<in> set (g_launches s). e \<notin> set alive \<and> length alive \<le> 1) \<and>
     (\<forall>e \<in> set (g_alive s). e \<le> Epoch (m_last_epoch s)) \<and> status_ok (m_status s)"
  using inv_facts [OF process.reach_inv [OF assms]] by (simp add: launches_ok_def list_all_iff)


text \<open>C5: Every transaction from a reachable state either keeps its promise (a start or switch runs the requested spec, a restart
  the last one, a stop or shutdown empties the slot and leaves alive only what is quarantined, a recovery clears the quarantine),
  or fails in a state that satisfies the invariant; a failed recovery leaves the manager quarantined; the only panic is the
  exhausted epoch counter.\<close>

theorem manager_outcomes:
  assumes "mgr_reach (process_inner env pb i) s" and "run_op (process_inner env pb i) op s = (r, s')"
  shows "case r of
      Ok u \<Rightarrow> promised op s s'
    | Err e \<Rightarrow> mgr_inv s' \<and> (op \<noteq> OpRecover \<or> m_quarantine s' \<noteq> [])
    | Panic p \<Rightarrow> p = ''epoch space exhausted''"
  using wp_run [OF process.run_op_promised [OF process.reach_inv [OF assms(1)]] assms(2)] by (cases r) auto

text \<open>C4: A successful reconcile was given the revision in the slot if it expected one, and leaves a core in the slot whose
  revision is the one it reports: of the requested spec, or the previous plan exactly if it reports a rollback.\<close>

theorem manager_reconcile_settles:
  assumes "mgr_reach (process_inner env pb i) s" and "mgr_reconcile (process_inner env pb i) spec expected s = (Ok outcome, s')"
  shows "expected_matches expected (m_current s) \<and> m_quarantine s' = [] \<and>
    (\<exists>a. m_current s' = Some a \<and> pl_revision (ac_plan a) = outcome_revision outcome \<and> m_last_spec s' = Some (pl_source_spec (ac_plan a)) \<and>
       (if rolled_back outcome then map_option ac_plan (m_current s) = Some (ac_plan a) else pl_source_spec (ac_plan a) = spec)) \<and>
    (nothing_done outcome \<or> st_revision (m_status s') = Some (outcome_revision outcome))"
proof -
  have "settled (map_option ac_plan (m_current s)) spec outcome s'"
    using wp_run [OF process.mgr_reconcile_spec [OF process.reach_inv [OF assms(1)]] assms(2)] by simp
  then show ?thesis using reconcile_matches [OF assms(2)] by (cases "m_current s'") (simp_all add: settled_def)
qed


lemma disk_reach: "mgr_reach disk_manager disk_state"
  unfolding disk_state_def by (rule mgr_reach.initial)

lemma disk_run:
  "case mgr_reconcile disk_manager disk_spec None disk_state of
     (Ok outcome, s) \<Rightarrow> g_alive s = [Epoch 1] \<and> \<not> rolled_back outcome \<and> rev_epoch (outcome_revision outcome) = Epoch 1
   | _ \<Rightarrow> False"
  by code_simp

lemma disk_reconcile:
  obtains outcome where "mgr_reconcile disk_manager disk_spec None disk_state = (Ok outcome, disk_started)"
    "g_alive disk_started = [Epoch 1]" "\<not> rolled_back outcome" "rev_epoch (outcome_revision outcome) = Epoch 1"
  using disk_run by (auto simp: disk_started_def split: prod.splits out.splits)

lemma disk_run_op: "run_op disk_manager (OpReconcile disk_spec None) disk_state = (Ok (), disk_started)"
  by (rule disk_reconcile) (simp add: bnd_def ret_def)

lemma disk_started_reach: "mgr_reach disk_manager disk_started"
  by (rule mgr_reach.transaction [OF disk_reach disk_run_op]) simp

theorem manager_one_core_witness:
  "g_alive disk_started = [Epoch 1] \<and> {Epoch 1} \<subseteq> occupant (m_current disk_started) \<union> uncertain (m_quarantine disk_started)"
  by (rule disk_reconcile) (use manager_one_core [OF disk_started_reach [unfolded disk_manager_def]] in simp)

theorem manager_outcomes_witness:
  "fst (run_op disk_manager (OpReconcile disk_spec None) disk_state) = Ok () \<and> (\<exists>outcome. settled None disk_spec outcome disk_started)"
proof -
  have "m_current disk_state = None" by (simp add: disk_state_def mgr_initial_def)
  then show ?thesis
    using disk_run_op manager_outcomes [OF disk_reach [unfolded disk_manager_def] disk_run_op [unfolded disk_manager_def]] by simp
qed

theorem manager_reconcile_settles_witness:
  "\<exists>outcome a. mgr_reconcile disk_manager disk_spec None disk_state = (Ok outcome, disk_started) \<and> m_current disk_started = Some a \<and>
     pl_source_spec (ac_plan a) = disk_spec \<and> rev_epoch (pl_revision (ac_plan a)) = Epoch 1"
proof -
  obtain outcome where r: "mgr_reconcile disk_manager disk_spec None disk_state = (Ok outcome, disk_started)"
    and o: "\<not> rolled_back outcome" "rev_epoch (outcome_revision outcome) = Epoch 1"
    by (rule disk_reconcile)
  show ?thesis
    using manager_reconcile_settles [OF disk_reach [unfolded disk_manager_def] r [unfolded disk_manager_def]] r o by auto
qed

definition disk_quarantined :: "mem mgr" where
  "disk_quarantined = disk_state\<lparr>m_quarantine := [\<lparr>q_epoch = Epoch 1, q_reason = ''stuck'', q_death_proven = False\<rparr>]\<rparr>"


end
