(* ===== verification/System.thy ===== *)
theory System
  imports Executor Manager
begin

text \<open>
  The control plane over the manager: what the executor runs for each command (\<open>execute\<close>, \<open>reconcile\<close> and
  \<open>materialize\<close> of \<open>control/executor.rs\<close>), and the whole system, in which submissions, the executor, status
  forwarding and the outside interleave.
\<close>

section \<open>Executing a command\<close>

record executor_context =
  ec_source_dir :: string
  ec_working_dir :: string

definition digest_mismatch :: "operation_id \<Rightarrow> string \<Rightarrow> string \<Rightarrow> core_error" where
  "digest_mismatch oid declared computed =
     with_operation (core_error_new KInvalidConfig
       (''config digest mismatch: declared '' @ declared @ '', computed '' @ computed) False) oid"

text \<open>The result is \<open>Inl\<close> where the source returns a \<open>CoreError\<close>.\<close>

definition write_source :: "'w inner \<Rightarrow> string \<Rightarrow> string \<Rightarrow> string \<Rightarrow> operation_id \<Rightarrow> ('w, (core_error, string) result) mact" where
  "write_source i source_dir path bytes oid =
     bnd (attempt (awaited i (io (fs_create_dir_all (inn_fs i) source_dir)))) (\<lambda>created.
     case created of
       Inl e \<Rightarrow> ret (Inl (from_domain e (Some oid)))
     | Inr _ \<Rightarrow>
         bnd (attempt (awaited i (io (inn_write_file i path bytes)))) (\<lambda>written.
         case written of Inl e \<Rightarrow> ret (Inl (from_domain e (Some oid))) | Inr _ \<Rightarrow> ret (Inr path)))"

definition materialize :: "'w inner \<Rightarrow> string \<Rightarrow> string \<Rightarrow> config_input \<Rightarrow> operation_id \<Rightarrow> ('w, (core_error, string) result) mact" where
  "materialize i source_dir name config oid =
     (let bytes = ci_bytes config; computed = payload_digest bytes; path = path_join source_dir name in
      case ci_expected_digest config of
        Some declared \<Rightarrow> if declared \<noteq> computed then ret (Inl (digest_mismatch oid declared computed)) else write_source i source_dir path bytes oid
      | None \<Rightarrow> write_source i source_dir path bytes oid)"


definition ran :: "operation_id \<Rightarrow> ('a \<Rightarrow> operation_output) \<Rightarrow> 'a out \<times> 's \<Rightarrow> exec_outcome \<times> 's" where
  "ran oid f result =
     (case result of
        (Ok x, s) \<Rightarrow> (Completed (f x), s)
      | (Err e, s) \<Rightarrow> (Rejected (from_domain e (Some oid)), s)
      | (Panic p, s) \<Rightarrow> (Panicked p, s))"

definition reconcile_operation :: "'w inner \<Rightarrow> executor_context \<Rightarrow> operation_id \<Rightarrow> reconcile_request \<Rightarrow> 'w mgr \<Rightarrow> exec_outcome \<times> 'w mgr" where
  "reconcile_operation i ctx oid request m =
     (case materialize i (ec_source_dir ctx) ''reconcile-source.yaml'' (rq_config request) oid m of
        (Ok (Inl e), m) \<Rightarrow> (Rejected e, m)
      | (Ok (Inr config_path), m) \<Rightarrow>
          ran oid Reconciled (mgr_reconcile i
            \<lparr>is_core = rq_core request, is_config_path = config_path, is_working_dir = ec_working_dir ctx, is_pid_file = None,
             is_options = rq_options request\<rparr> (rq_expected_applied request) m)
      | (Err e, m) \<Rightarrow> (Rejected (from_domain e (Some oid)), m)
      | (Panic p, m) \<Rightarrow> (Panicked p, m))"

fun execute :: "'w inner \<Rightarrow> executor_context \<Rightarrow> operation_id \<Rightarrow> core_command \<Rightarrow> 'w mgr \<Rightarrow> exec_outcome \<times> 'w mgr" where
  "execute i ctx oid (CmdReconcile request) m = reconcile_operation i ctx oid request m"
| "execute i ctx oid CmdStop m = ran oid (\<lambda>_. OutStopped) (mgr_stop i m)"
| "execute i ctx oid CmdRecover m = ran oid (\<lambda>_. OutRecovered) (recover_quarantine i m)"
| "execute i ctx oid CmdShutdown m = ran oid (\<lambda>_. OutShutDown) (mgr_shutdown i m)"

text \<open>\<open>CoreControl::check\<close>, outside the queue: validate a configuration through a source file of its own.  The semaphore that
  bounds concurrent checks is not modelled.\<close>

record check_request =
  cq_core :: core_spec
  cq_config :: config_input

definition check_source_name :: "operation_id \<Rightarrow> string \<Rightarrow> string" where
  "check_source_name oid bytes = ''check-source-'' @ payload_digest bytes @ ''-'' @ display_operation_id oid @ ''.yaml''"

definition control_check ::
    "'w inner \<Rightarrow> executor_context \<Rightarrow> instance_options \<Rightarrow> operation_id \<Rightarrow> check_request \<Rightarrow> ('w, (core_error, unit) result) mact" where
  "control_check i ctx default_options oid request =
     bnd (materialize i (ec_source_dir ctx) (check_source_name oid (ci_bytes (cq_config request))) (cq_config request) oid) (\<lambda>source.
     case source of
       Inl e \<Rightarrow> ret (Inl e)
     | Inr config_path \<Rightarrow>
         bnd (attempt (check_config i \<lparr>is_core = cq_core request, is_config_path = config_path, is_working_dir = ec_working_dir ctx,
                is_pid_file = None, is_options = default_options\<rparr>)) (\<lambda>result.
         bnd (ignore (awaited i (io (fs_remove_file (inn_fs i) config_path)))) (\<lambda>_.
         ret (case result of Inl e \<Rightarrow> Inl (from_domain e None) | Inr u \<Rightarrow> Inr u))))"

section \<open>The system\<close>

inductive sys_reach :: "'w inner \<Rightarrow> executor_context \<Rightarrow> local_ipc_settings \<Rightarrow> control_options \<Rightarrow> 'w mgr control \<Rightarrow> bool"
  for i ctx default_ipc options where
  start: "sys_reach i ctx default_ipc options (control_spawn options (mgr_initial i max_epoch sink t))"
| control: "sys_reach i ctx default_ipc options c \<Longrightarrow> ctl_step default_ipc (execute i ctx) c c' \<Longrightarrow> sys_reach i ctx default_ipc options c'"
| checked: "sys_reach i ctx default_ipc options c \<Longrightarrow> control_check i ctx defaults oid request (c_manager c) = (r, m) \<Longrightarrow>
    sys_reach i ctx default_ipc options (c\<lparr>c_manager := m\<rparr>)"
| outside: "sys_reach i ctx default_ipc options c \<Longrightarrow>
    sys_reach i ctx default_ipc options (c\<lparr>c_manager := (c_manager c)\<lparr>ss_world := w\<rparr>\<rparr>)"
| forwarded: "sys_reach i ctx default_ipc options c \<Longrightarrow> tick i (c_manager c) = (r, m) \<Longrightarrow>
    sys_reach i ctx default_ipc options (c\<lparr>c_manager := m\<rparr>)"

text \<open>An operation has panicked: its transaction may have left the manager half-updated.\<close>

definition executor_died :: "exec_phase \<Rightarrow> bool" where
  "executor_died ph = (ph \<in> {Closing ExitDied, Draining ExitDied, Exited ExitDied})"

definition outcome_ok :: "exec_outcome \<Rightarrow> 'w mgr \<Rightarrow> bool" where
  "outcome_ok outcome m = (case outcome of Panicked p \<Rightarrow> p = ''epoch space exhausted'' | _ \<Rightarrow> mgr_inv m)"

lemma calm_write_source: "keeps calm (write_source i source_dir path bytes oid)"
  unfolding write_source_def by (intro calm_intros)

lemma calm_materialize: "keeps calm (materialize i source_dir name config oid)"
  unfolding materialize_def Let_def by (auto simp: calm_write_source split: option.splits intro: calm_intros)

lemma calm_check: "keeps calm (control_check i ctx defaults oid request)"
  unfolding control_check_def by (intro calm_intros calm_materialize)

lemma ran_ok: "wp m (ends (\<lambda>_. mgr_inv) (\<lambda>_. mgr_inv)) s \<Longrightarrow> ran oid f (m s) = (outcome, s') \<Longrightarrow> outcome_ok outcome s'"
  by (auto simp: ran_def wp_def outcome_ok_def split: prod.splits out.splits)

lemma died_phases [simp]:
  "executor_died (Closing ExitDied)" "executor_died (Draining how) = (how = ExitDied)" "executor_died (Exited how) = (how = ExitDied)"
  "\<not> executor_died Waiting" "\<not> executor_died (Received w)" "\<not> executor_died (Executing w)" "executor_died (Closing how) = (how = ExitDied)"
  by (simp_all add: executor_died_def)

lemma set_op_manager [simp]: "c_manager (set_op oid st c) = c_manager c"
  by (simp add: set_op_def)

text \<open>A step of the control plane touches the manager only by running a transaction.\<close>

lemma exec_action_manager:
  assumes "exec_action exec c = Some c'"
  shows "c_manager c' = c_manager c \<and> executor_died (c_exec c') = executor_died (c_exec c) \<or>
    (\<exists>work outcome m. c_exec c = Executing work \<and> exec (w_id work) (w_command work) (c_manager c) = (outcome, m) \<and>
       c_manager c' = m \<and> (executor_died (c_exec c') \<longleftrightarrow> (\<exists>p. outcome = Panicked p)))"
  using assms by (cases "c_exec c") (auto simp: exec_action_def finish_def split: list.splits if_splits prod.splits exec_outcome.splits)

lemma step_manager:
  assumes "ctl_step ipc exec c c'"
  shows "c_manager c' = c_manager c \<and> executor_died (c_exec c') = executor_died (c_exec c) \<or>
    (\<exists>work outcome m. c_exec c = Executing work \<and> exec (w_id work) (w_command work) (c_manager c) = (outcome, m) \<and>
       c_manager c' = m \<and> (executor_died (c_exec c') \<longleftrightarrow> (\<exists>p. outcome = Panicked p)))"
  using assms
proof cases
  case Exec
  then show ?thesis using exec_action_manager by blast
qed (use submit_admit_manager shutdown_admit_manager in fastforce)+

lemma ctl_ok_manager: "ctl_ok (c\<lparr>c_manager := m\<rparr>) = ctl_ok c"
  by (simp add: ctl_ok_def pending_def)

context runtime_backend
begin

lemma reconcile_operation_ok:
  assumes "mgr_inv m" "reconcile_operation i ctx oid request m = (outcome, m')"
  shows "outcome_ok outcome m'"
proof -
  obtain r t where mat: "materialize i (ec_source_dir ctx) ''reconcile-source.yaml'' (rq_config request) oid m = (r, t)" by fastforce
  have calm: "calm m t" "\<forall>p. r \<noteq> Panic p" using calm.keepsD [OF calm_materialize mat] by auto
  have inv: "mgr_inv t" using inv_calm [OF calm(1) assms(1)] .
  have "outcome_ok o' s'" if "ran oid Reconciled (mgr_reconcile i spec e t) = (o', s')" for spec e o' s'
    by (rule ran_ok [OF ends_mono [OF mgr_reconcile_spec [OF inv]] that]) (auto intro: settled_inv)
  then show ?thesis using assms(2) calm(2) inv
    by (auto simp: reconcile_operation_def mat outcome_ok_def split: out.splits sum.splits)
qed

lemma execute_ok: "mgr_inv m \<Longrightarrow> execute i ctx oid command m = (outcome, m') \<Longrightarrow> outcome_ok outcome m'"
proof (cases command)
  case (CmdReconcile request)
  then show "mgr_inv m \<Longrightarrow> execute i ctx oid command m = (outcome, m') \<Longrightarrow> outcome_ok outcome m'"
    using reconcile_operation_ok by simp
next
  case CmdStop
  show "outcome_ok outcome m'" if "mgr_inv m" "execute i ctx oid command m = (outcome, m')"
    by (rule ran_ok [OF ends_mono [OF mgr_stop_spec [OF that(1)]]]) (use that CmdStop in auto)
next
  case CmdRecover
  show "outcome_ok outcome m'" if "mgr_inv m" "execute i ctx oid command m = (outcome, m')"
    by (rule ran_ok [OF ends_mono [OF recover_spec [OF that(1)]]]) (use that CmdRecover in auto)
next
  case CmdShutdown
  show "outcome_ok outcome m'" if "mgr_inv m" "execute i ctx oid command m = (outcome, m')"
    by (rule ran_ok [OF ends_mono [OF mgr_shutdown_spec [OF that(1)]]]) (use that CmdShutdown in auto)
qed

lemma sys_inv:
  assumes "options_ok options" "sys_reach i ctx default_ipc options c"
  shows "ctl_ok c \<and> (executor_died (c_exec c) \<or> mgr_inv (c_manager c))"
  using assms(2)
proof induction
  case (start max_epoch sink t)
  show ?case by (intro conjI disjI2 ctl_ok_spawn [OF assms(1)]) (simp add: control_spawn_def initial_inv)
next
  case (control c c')
  have "ctl_ok c'" using ctl_step_ok control by blast
  moreover have "executor_died (c_exec c') \<or> mgr_inv (c_manager c')"
    using step_manager [OF control.hyps(2)]
  proof (elim disjE exE conjE)
    fix work outcome m
    assume e: "c_exec c = Executing work" "execute i ctx (w_id work) (w_command work) (c_manager c) = (outcome, m)" "c_manager c' = m"
      "executor_died (c_exec c') \<longleftrightarrow> (\<exists>p. outcome = Panicked p)"
    have "outcome_ok outcome m" by (rule execute_ok [OF _ e(2)]) (use control.IH e(1) in simp)
    then show ?thesis using e(3,4) by (auto simp: outcome_ok_def split: exec_outcome.splits)
  qed (use control.IH in simp)
  ultimately show ?case ..
next
  case (checked c defaults oid request r m)
  then show ?case using inv_calm calm.keepsD [OF calm_check checked.hyps(2)] by (auto simp: ctl_ok_manager)
next
  case (outside c w)
  then show ?case using inv_calm [OF calm_world, of "c_manager c" w] by (auto simp: ctl_ok_manager)
next
  case (forwarded c r m)
  then show ?case using inv_calm calm.keepsD [OF calm_tick forwarded.hyps(2)] by (auto simp: ctl_ok_manager)
qed

end

section \<open>Property\<close>

text \<open>C2: Through any interleaving of submissions, checks, executor, status forwarding and outside changes, the registry of the control
  plane holds exactly the queued and running operations as live ones and stays within its capacity; and unless an
  operation has panicked, only the core in the manager's slot and quarantined ones are alive, each launched beside at most
  one other.\<close>

theorem system_safe:
  assumes "options_ok options" and "sys_reach (process_inner env pb i) ctx default_ipc options c"
  shows "length (rg_operations (c_registry c)) \<le> rg_capacity (c_registry c) \<and> live_ids (c_registry c) = w_id ` set (pending c) \<and>
    (executor_died (c_exec c) \<or>
     set (g_alive (c_manager c)) \<subseteq> occupant (m_current (c_manager c)) \<union> uncertain (m_quarantine (c_manager c)) \<and>
     distinct (g_alive (c_manager c)) \<and> launches_ok (g_launches (c_manager c)))"
  using process.sys_inv [OF assms] inv_facts [of "c_manager c"] by (auto simp: ctl_ok_def)

definition disk_system :: "mem mgr control" where
  "disk_system = control_spawn (control_options_new [] []) disk_state"

theorem system_safe_witness:
  "rg_operations (c_registry disk_system) = [] \<and> set (g_alive (c_manager disk_system)) \<subseteq> {} \<and> live_ids (c_registry disk_system) = {}"
proof -
  have r: "sys_reach disk_manager \<lparr>ec_source_dir = ''/run'', ec_working_dir = ''/run''\<rparr> demo_ipc (control_options_new [] []) disk_system"
    unfolding disk_system_def disk_state_def by (rule sys_reach.start)
  have "rg_operations (c_registry disk_system) = []" "pending disk_system = []" "\<not> executor_died (c_exec disk_system)"
    "m_current (c_manager disk_system) = None" "m_quarantine (c_manager disk_system) = []"
    by (simp_all add: disk_system_def control_spawn_def registry_new_def pending_def disk_state_def mgr_initial_def)
  then show ?thesis
    using system_safe [OF demo_options_ok r [unfolded disk_manager_def]] by (simp add: occupant_def uncertain_def)
qed

end
