(* ===== verification/Log_Sink.thy ===== *)
theory Log_Sink
  imports Core_Log Runtime_Store "HOL-Library.Code_Target_Nat"
begin

text \<open>
  The archive of core logs (\<open>log_sink.rs\<close>): a writer that appends one JSON line per record to numbered files, rotates
  them by size and keeps the newest, and the task that feeds it from the broadcast channel.

  Opening, appending and flushing a file and the JSON encoder are parameters.  Sums of file sizes and sequence numbers
  wrap as in a release build.
\<close>

section \<open>Records\<close>

record sink_options =
  so_max_bytes :: "64 word"
  so_max_files :: nat

record log_record =
  lr_t :: string
  lr_frame :: log_frame

record gap_record =
  gr_t :: string
  gr_at :: millis
  gr_dropped :: "64 word"

definition log_record_new :: "log_frame \<Rightarrow> log_record" where
  "log_record_new frame = \<lparr>lr_t = ''log'', lr_frame = frame\<rparr>"

definition gap_record_new :: "64 word \<Rightarrow> millis \<Rightarrow> gap_record" where
  "gap_record_new dropped at = \<lparr>gr_t = ''gap'', gr_at = at, gr_dropped = dropped\<rparr>"

datatype sink_entry = EntryLog log_frame | EntryGap "64 word"

text \<open>The encoders give what they have written and whether they succeeded.\<close>

record 'w sink_sys =
  sn_fs :: "'w file_sys"
  sn_open :: "string \<Rightarrow> 'w \<Rightarrow> (io_error, unit) result \<times> 'w"
  sn_write_all :: "string \<Rightarrow> string \<Rightarrow> 'w \<Rightarrow> bool \<times> 'w"
  sn_flush :: "string \<Rightarrow> 'w \<Rightarrow> bool \<times> 'w"
  sn_log_json :: "log_record \<Rightarrow> string \<times> bool"
  sn_gap_json :: "gap_record \<Rightarrow> string \<times> bool"
  sn_now :: "'w \<Rightarrow> millis"

record sink_writer =
  wr_dir :: string
  wr_options :: sink_options
  wr_file :: string
  wr_written :: "64 word"
  wr_seq :: "64 word"

section \<open>The directory\<close>

definition LOG_DIR_NAME :: string where
  "LOG_DIR_NAME = ''logs''"

definition prepare_dir :: "'w file_sys \<Rightarrow> string \<Rightarrow> (('w, 'x) sys_state_scheme, string) act" where
  "prepare_dir fs parent =
     (let dir = path_join parent LOG_DIR_NAME in
      bnd (on_world (fs_symlink_metadata fs dir)) (\<lambda>r.
      bnd (case r of
             Inr kind \<Rightarrow> lift (validate_directory_metadata dir kind)
           | Inl e \<Rightarrow> if io_kind e = NotFound then io (fs_create_dir_all fs dir) else fail (Io e)) (\<lambda>_.
      bnd (io (fs_set_permissions fs dir 448)) (\<lambda>_. ret dir))))"

definition sink_file_name :: "64 word \<Rightarrow> string" where
  "sink_file_name seq = ''core-'' @ pad_left 6 (CHR ''0'') (show_nat (unat seq)) @ ''.jsonl''"

definition file_seq :: "string \<Rightarrow> 64 word option" where
  "file_seq name =
     Option.bind (Option.bind (strip_prefix ''core-'' name) (strip_suffix ''.jsonl'')) (\<lambda>digits.
       if digits \<noteq> [] \<and> list_all is_ascii_digit digits then map_option of_nat (parse_nat (2 ^ 64) digits) else None)"

fun collect_seqs :: "64 word list \<Rightarrow> (io_error, string option) result list \<Rightarrow> (error, 64 word list) result" where
  "collect_seqs seqs [] = Inr seqs"
| "collect_seqs seqs (Inl e # rest) = Inl (Io e)"
| "collect_seqs seqs (Inr name # rest) =
     collect_seqs (seqs @ (case Option.bind name file_seq of None \<Rightarrow> [] | Some seq \<Rightarrow> [seq])) rest"

definition read_seqs :: "'w file_sys \<Rightarrow> string \<Rightarrow> (('w, 'x) sys_state_scheme, 64 word list) act" where
  "read_seqs fs dir = bnd (io (fs_read_dir fs dir)) (\<lambda>entries. lift (collect_seqs [] entries))"

definition next_seq :: "'w file_sys \<Rightarrow> string \<Rightarrow> (('w, 'x) sys_state_scheme, 64 word) act" where
  "next_seq fs dir = bnd (read_seqs fs dir) (\<lambda>seqs. ret (foldr max seqs 0 + 1))"

definition prune_targets :: "64 word list \<Rightarrow> nat \<Rightarrow> 64 word list" where
  "prune_targets seqs max_files = drop max_files (rev (sort seqs))"

fun remove_seqs :: "'w file_sys \<Rightarrow> string \<Rightarrow> 64 word list \<Rightarrow> (('w, 'x) sys_state_scheme, unit) act" where
  "remove_seqs fs dir [] = ret ()"
| "remove_seqs fs dir (seq # rest) =
     bnd (on_world (fs_remove_file fs (path_join dir (sink_file_name seq)))) (\<lambda>_. remove_seqs fs dir rest)"

definition prune_dir :: "'w file_sys \<Rightarrow> string \<Rightarrow> nat \<Rightarrow> 64 word option \<Rightarrow> (('w, 'x) sys_state_scheme, unit) act" where
  "prune_dir fs dir keep protect =
     bnd (attempt (read_seqs fs dir)) (\<lambda>r.
     case r of
       Inl _ \<Rightarrow> ret ()
     | Inr existing \<Rightarrow> remove_seqs fs dir (filter (\<lambda>seq. Some seq \<noteq> protect) (prune_targets existing keep)))"

definition sink_create :: "'w sink_sys \<Rightarrow> string \<Rightarrow> 64 word \<Rightarrow> (('w, 'x) sys_state_scheme, string) act" where
  "sink_create sn dir seq =
     (let path = path_join dir (sink_file_name seq) in bnd (io (sn_open sn path)) (\<lambda>_. ret path))"

section \<open>The writer\<close>

definition writer_open :: "'w sink_sys \<Rightarrow> string \<Rightarrow> sink_options \<Rightarrow> (('w, 'x) sys_state_scheme, sink_writer) act" where
  "writer_open sn dir options =
     bnd (next_seq (sn_fs sn) dir) (\<lambda>seq.
     bnd (prune_dir (sn_fs sn) dir (so_max_files options - 1) None) (\<lambda>_.
     bnd (sink_create sn dir seq) (\<lambda>file.
     ret \<lparr>wr_dir = dir, wr_options = options, wr_file = file, wr_written = 0, wr_seq = seq\<rparr>)))"

text \<open>The buffer is empty afterwards on every path.\<close>

definition flush_pending :: "'w sink_sys \<Rightarrow> sink_writer \<Rightarrow> string \<Rightarrow> (('w, 'x) sys_state_scheme, sink_writer) act" where
  "flush_pending sn wr buffer =
     (if buffer = [] then ret wr
      else
        bnd (on_world (sn_write_all sn (wr_file wr) buffer)) (\<lambda>written.
        if \<not> written then ret wr
        else
          bnd (on_world (sn_flush sn (wr_file wr))) (\<lambda>_.
          ret (wr\<lparr>wr_written := wr_written wr + of_nat (length buffer)\<rparr>))))"

definition rotate_file :: "'w sink_sys \<Rightarrow> sink_writer \<Rightarrow> (('w, 'x) sys_state_scheme, sink_writer) act" where
  "rotate_file sn wr =
     (let seq = wr_seq wr + 1 in
      bnd (prune_dir (sn_fs sn) (wr_dir wr) (so_max_files (wr_options wr) - 1) (Some (wr_seq wr))) (\<lambda>_.
      bnd (attempt (sink_create sn (wr_dir wr) seq)) (\<lambda>r.
      case r of
        Inr file \<Rightarrow>
          bnd (prune_dir (sn_fs sn) (wr_dir wr) (so_max_files (wr_options wr)) (Some seq)) (\<lambda>_.
          ret (wr\<lparr>wr_file := file, wr_seq := seq, wr_written := 0\<rparr>))
      | Inl _ \<Rightarrow> ret wr)))"

definition encode_entry :: "'w sink_sys \<Rightarrow> millis \<Rightarrow> sink_entry \<Rightarrow> string \<times> bool" where
  "encode_entry sn at entry =
     (case entry of
        EntryLog frame \<Rightarrow> sn_log_json sn (log_record_new frame)
      | EntryGap dropped \<Rightarrow> sn_gap_json sn (gap_record_new dropped at))"

definition append_entry :: "'w sink_sys \<Rightarrow> millis \<Rightarrow> sink_entry \<Rightarrow> string \<Rightarrow> string" where
  "append_entry sn at entry buffer =
     (case encode_entry sn at entry of
        (bytes, ok) \<Rightarrow> if ok then buffer @ bytes @ [CHR 0x0A] else take (length buffer) (buffer @ bytes))"

fun write_entries :: "'w sink_sys \<Rightarrow> millis \<Rightarrow> sink_writer \<Rightarrow> string \<Rightarrow> sink_entry list
    \<Rightarrow> (('w, 'x) sys_state_scheme, sink_writer) act" where
  "write_entries sn at wr buffer [] = flush_pending sn wr buffer"
| "write_entries sn at wr buffer (entry # rest) =
     (if so_max_bytes (wr_options wr) \<le> wr_written wr + of_nat (length buffer)
      then bnd (flush_pending sn wr buffer) (\<lambda>wr.
           bnd (rotate_file sn wr) (\<lambda>wr. write_entries sn at wr (append_entry sn at entry []) rest))
      else write_entries sn at wr (append_entry sn at entry buffer) rest)"

definition sink_write :: "'w sink_sys \<Rightarrow> sink_writer \<Rightarrow> sink_entry list \<Rightarrow> (('w, 'x) sys_state_scheme, sink_writer) act" where
  "sink_write sn wr batch =
     (if batch = [] then ret wr else bnd (gets (\<lambda>s. sn_now sn (ss_world s))) (\<lambda>at. write_entries sn at wr [] batch))"

section \<open>The task\<close>

definition MAX_BATCH_RECORDS :: nat where
  "MAX_BATCH_RECORDS = 256"

text \<open>The channel holds what it has buffered, an \<open>EntryGap\<close> where the receiver has lagged; \<open>closed\<close> once every sender is gone.\<close>

fun sink_drain :: "bool \<Rightarrow> sink_entry list \<Rightarrow> sink_entry list \<Rightarrow> bool \<times> sink_entry list \<times> sink_entry list" where
  "sink_drain closed batch [] = (length batch < MAX_BATCH_RECORDS \<and> closed, batch, [])"
| "sink_drain closed batch (entry # ring) =
     (if length batch < MAX_BATCH_RECORDS then sink_drain closed (batch @ [entry]) ring else (False, batch, entry # ring))"

datatype sink_arm = ArmCancelled | ArmReceived

text \<open>One turn of the loop: the batch it writes, what remains buffered, and whether the loop ends after writing.  The
  receiving arm is ready only when something is buffered or the channel is closed.\<close>

definition sink_turn :: "sink_arm \<Rightarrow> bool \<Rightarrow> sink_entry list \<Rightarrow> sink_entry list \<times> sink_entry list \<times> bool" where
  "sink_turn arm closed ring =
     (if arm = ArmCancelled \<or> ring = [] \<and> \<not> closed
      then case sink_drain closed [] ring of (c, batch, ring) \<Rightarrow> (batch, ring, c \<or> length batch < MAX_BATCH_RECORDS)
      else case ring of
        [] \<Rightarrow> ([], [], True)
      | first # ring \<Rightarrow> (case sink_drain closed [first] ring of (c, batch, ring) \<Rightarrow> (batch, ring, c)))"

lemma drain_append:
  "sink_drain closed batch ring = (c, batch', ring') \<Longrightarrow> batch' @ ring' = batch @ ring \<and> length batch \<le> length batch' \<and>
     (length batch \<le> MAX_BATCH_RECORDS \<longrightarrow> length batch' \<le> MAX_BATCH_RECORDS) \<and>
     (length batch' < MAX_BATCH_RECORDS \<longrightarrow> ring' = []) \<and> (c \<longrightarrow> ring' = [])"
  by (induction closed batch ring rule: sink_drain.induct) (auto split: if_splits)

lemma turn_append:
  assumes "sink_turn arm closed ring = (batch, ring', stop)"
  shows "batch @ ring' = ring \<and> length batch \<le> MAX_BATCH_RECORDS \<and> (stop \<longrightarrow> ring' = []) \<and> (\<not> stop \<longrightarrow> batch \<noteq> [])"
proof (cases "arm = ArmCancelled \<or> ring = [] \<and> \<not> closed")
  case True
  obtain c where d: "sink_drain closed [] ring = (c, batch, ring')" and stop: "stop = (c \<or> length batch < MAX_BATCH_RECORDS)"
    using assms True by (simp add: sink_turn_def split: prod.splits)
  have "batch \<noteq> []" if "\<not> stop" using that stop by (auto simp: MAX_BATCH_RECORDS_def)
  then show ?thesis using drain_append [OF d] stop by auto
next
  case False
  show ?thesis
  proof (cases ring)
    case Nil
    then show ?thesis using assms False by (simp add: sink_turn_def)
  next
    case (Cons first rest)
    have d: "sink_drain closed [first] rest = (stop, batch, ring')"
      using assms False unfolding sink_turn_def if_not_P [OF False] Cons by (simp split: prod.splits)
    have "1 \<le> MAX_BATCH_RECORDS" by (simp add: MAX_BATCH_RECORDS_def)
    then show ?thesis using drain_append [OF d] Cons by auto
  qed
qed

text \<open>The loop once the token is cancelled and nothing more is sent; \<open>select!\<close> picks the arms.\<close>

function sink_run :: "'w sink_sys \<Rightarrow> bool \<Rightarrow> sink_arm list \<Rightarrow> sink_writer \<Rightarrow> sink_entry list
    \<Rightarrow> (('w, 'x) sys_state_scheme, sink_writer) act" where
  "sink_run sn closed arms wr ring =
     (case sink_turn (case arms of [] \<Rightarrow> ArmCancelled | arm # _ \<Rightarrow> arm) closed ring of (batch, ring', stop) \<Rightarrow>
        bnd (sink_write sn wr batch) (\<lambda>wr.
        if stop then ret wr else sink_run sn closed (tl arms) wr ring'))"
  by pat_completeness auto
termination
proof (relation "measure (\<lambda>(sn, closed, arms, wr, ring). length ring)", goal_cases)
  case (2 sn closed arms wr ring batch y ring' stop wr')
  have "sink_turn (case arms of [] \<Rightarrow> ArmCancelled | arm # _ \<Rightarrow> arm) closed ring = (batch, ring', stop)" using 2 by simp
  from turn_append [OF this] have "batch @ ring' = ring" "batch \<noteq> []" using 2 by auto
  then show ?case by auto
qed simp

declare sink_run.simps [simp del]


section \<open>Names and retention\<close>

lemma digits_show_nat: "list_all is_ascii_digit (show_nat n)"
  by (auto simp: list_all_iff show_nat_def is_ascii_digit_def of_char_digit_char Let_def elim!: show_radix_chars [of 10, simplified])

lemma parse_padded:
  assumes "n < b"
  shows "parse_nat b (replicate k (CHR ''0'') @ show_nat n) = Some n"
proof -
  let ?t = "replicate k (CHR ''0'') @ show_nat n"
  have "?t \<noteq> []" by simp
  moreover have "CHR ''+'' \<notin> set (show_nat n)" by (rule show_nat_no_low) simp
  then have "CHR ''+'' \<notin> set ?t" by simp
  ultimately have "parse_nat b ?t = parse_digits 10 b 0 ?t" unfolding parse_nat_def by (rule from_str_radix_no_sign)
  also have "\<dots> = parse_digits 10 b 0 (show_nat n)" by (rule parse_digits_zeros) (use assms in simp_all)
  also have "\<dots> = Some n" unfolding show_nat_def by (rule parse_digits_show_radix) (use assms in simp_all)
  finally show ?thesis .
qed

lemma file_seq_name: "file_seq (sink_file_name seq) = Some seq"
proof -
  let ?d = "pad_left 6 (CHR ''0'') (show_nat (unat seq))"
  have "?d \<noteq> []" "list_all is_ascii_digit ?d"
    using digits_show_nat [of "unat seq"] by (auto simp: pad_left_def is_ascii_digit_def show_nat_def list_all_iff)
  moreover have "parse_nat (2 ^ 64) ?d = Some (unat seq)" unfolding pad_left_def by (rule parse_padded) (use unat_bounds(1) [of seq] in simp)
  ultimately show ?thesis by (simp add: file_seq_def sink_file_name_def)
qed

text \<open>In a descending list, what follows the first \<open>k\<close> are the elements with at least \<open>k\<close> larger ones.\<close>

lemma drop_descending:
  fixes xs :: "'a::linorder list"
  assumes "sorted_wrt (>) xs"
  shows "set (drop k xs) = {x \<in> set xs. k \<le> card {y \<in> set xs. x < y}}"
  using assms
proof (induction xs arbitrary: k)
  case (Cons a xs)
  have above: "{y \<in> set (a # xs). x < y} = insert a {y \<in> set xs. x < y}" if "x \<in> set xs" for x using Cons.prems that by auto
  have a: "a \<notin> set xs" "{y \<in> set (a # xs). a < y} = {}" using Cons.prems by auto
  have card: "card {y \<in> set (a # xs). x < y} = Suc (card {y \<in> set xs. x < y})" if "x \<in> set xs" for x
    using a(1) unfolding above [OF that] by simp
  show ?case
  proof (cases k)
    case (Suc k')
    define P where "P x = (k \<le> card {y \<in> set (a # xs). x < y})" for x
    have "\<not> P a" unfolding P_def a(2) by (simp add: Suc)
    have "set (drop k (a # xs)) = {x \<in> set xs. k' \<le> card {y \<in> set xs. x < y}}" using Cons Suc by simp
    also have "\<dots> = {x \<in> set xs. P x}" unfolding P_def using card Suc by (intro Collect_cong) auto
    also have "\<dots> = {x \<in> set (a # xs). P x}" using \<open>\<not> P a\<close> by auto
    finally show ?thesis by (simp only: P_def)
  qed auto
qed simp

lemma prune_newest:
  assumes "distinct seqs"
  shows "set (prune_targets seqs k) = {x \<in> set seqs. k \<le> card {y \<in> set seqs. x < y}}"
proof -
  have "sorted_wrt (<) (sort seqs)" using assms by (simp add: strict_sorted_iff)
  then have "sorted_wrt (>) (rev (sort seqs))" by (simp add: sorted_wrt_rev)
  from drop_descending [OF this, of k] show ?thesis by (simp add: prune_targets_def)
qed

section \<open>Size\<close>

definition oks :: "('a \<Rightarrow> bool) \<Rightarrow> 'a out \<Rightarrow> 's \<Rightarrow> bool" where
  "oks P r s = (case r of Ok x \<Rightarrow> P x | _ \<Rightarrow> False)"

lemma oks_simps [simp]: "oks P (Ok x) s = P x" "\<not> oks P (Err e) s" "\<not> oks P (Panic p) s"
  by (simp_all add: oks_def)

lemma oks_bnd:
  assumes "wp m (oks P) s" and "\<And>x t. P x \<Longrightarrow> wp (f x) Q t"
  shows "wp (bnd m f) Q s"
  unfolding wp_bnd by (rule wp_mono [OF assms(1)]) (auto simp: oks_def assms(2) split: out.splits)

lemma remove_ok: "wp (remove_seqs fs dir seqs) (oks (\<lambda>_. True)) s"
  by (induction seqs arbitrary: s) (auto simp: wp_rules split: prod.splits)

lemma read_seqs_calm: "wp (read_seqs fs dir) (\<lambda>r _. \<forall>p. r \<noteq> Panic p) s"
  by (auto simp: read_seqs_def io_def wp_rules split: prod.splits sum.splits)

lemma prune_ok: "wp (prune_dir fs dir keep protect) (oks (\<lambda>_. True)) s"
  unfolding prune_dir_def wp_bnd wp_attempt
  by (rule wp_mono [OF read_seqs_calm]) (auto simp: wp_rules remove_ok split: out.splits)

text \<open>Files open, and every encoded record with its newline is at most \<open>n\<close> long.\<close>

definition sink_opens :: "'w sink_sys \<Rightarrow> bool" where
  "sink_opens sn = (\<forall>path w. \<exists>w'. sn_open sn path w = (Inr (), w'))"

definition records_within :: "'w sink_sys \<Rightarrow> nat \<Rightarrow> bool" where
  "records_within sn n = (\<forall>at entry. length (fst (encode_entry sn at entry)) < n)"

definition sink_limit :: "sink_writer \<Rightarrow> nat \<Rightarrow> nat" where
  "sink_limit wr n = unat (so_max_bytes (wr_options wr)) - 1 + n"

lemma create_ok: "sink_opens sn \<Longrightarrow> wp (sink_create sn dir seq) (oks (\<lambda>_. True)) s"
  unfolding sink_create_def io_def sink_opens_def Let_def
  by (auto simp: wp_rules split: prod.splits sum.splits) (metis Inl_Inr_False prod.inject)

lemma unat_add_of_nat:
  fixes x :: "64 word"
  assumes "unat x + n < 2 ^ 64"
  shows "unat (x + of_nat n) = unat x + n"
  using assms by (simp add: unat_word_ariths unat_of_nat)

lemma flush_size:
  assumes "unat (wr_written wr) + length buffer \<le> l" and "l < 2 ^ 64"
  shows "wp (flush_pending sn wr buffer) (oks (\<lambda>wr'. unat (wr_written wr') \<le> l \<and> wr_options wr' = wr_options wr)) s"
  using assms by (auto simp: flush_pending_def wp_rules unat_add_of_nat split: prod.splits)

lemma rotate_size:
  assumes "sink_opens sn"
  shows "wp (rotate_file sn wr) (oks (\<lambda>wr'. wr_written wr' = 0 \<and> wr_options wr' = wr_options wr)) s"
  unfolding rotate_file_def Let_def
proof (rule oks_bnd [OF prune_ok], rule oks_bnd [where P = "\<lambda>r. \<exists>path. r = Inr path"], goal_cases)
  case (1 x t)
  show ?case unfolding wp_attempt by (rule wp_mono [OF create_ok [OF assms]]) (auto simp: oks_def split: out.splits)
next
  case (2 x t r t')
  then obtain path where r: "r = Inr path" by blast
  show ?case unfolding r sum.case by (rule oks_bnd [OF prune_ok]) (simp add: wp_rules)
qed

lemma append_size:
  assumes "records_within sn n"
  shows "length (append_entry sn at entry buffer) \<le> length buffer + n"
proof -
  obtain bytes ok where e: "encode_entry sn at entry = (bytes, ok)" by fastforce
  then have "length bytes < n" using assms unfolding records_within_def by (metis fst_conv)
  then show ?thesis by (simp add: append_entry_def e)
qed

lemma write_size:
  assumes "sink_opens sn" "records_within sn n" "sink_limit wr n < 2 ^ 64"
    and "unat (wr_written wr) + length buffer \<le> sink_limit wr n"
  shows "wp (write_entries sn at wr buffer entries)
    (oks (\<lambda>wr'. unat (wr_written wr') \<le> sink_limit wr n \<and> wr_options wr' = wr_options wr)) s"
  using assms(3-)
proof (induction entries arbitrary: wr buffer s)
  case Nil
  then show ?case by (simp add: flush_size)
next
  case (Cons entry rest)
  let ?max = "so_max_bytes (wr_options wr)"
  have sum: "unat (wr_written wr + of_nat (length buffer)) = unat (wr_written wr) + length buffer"
    by (rule unat_add_of_nat) (use Cons.prems in simp)
  show ?case
  proof (cases "?max \<le> wr_written wr + of_nat (length buffer)")
    case True
    show ?thesis unfolding write_entries.simps if_P [OF True]
    proof (rule oks_bnd [OF flush_size [OF Cons.prems(2,1)]], rule oks_bnd [OF rotate_size [OF assms(1)]], goal_cases)
      case (1 wr1 t wr2 t')
      have o: "sink_limit wr2 n = sink_limit wr n" "wr_options wr2 = wr_options wr" using 1 by (simp_all add: sink_limit_def)
      have "length (append_entry sn at entry []) \<le> n" using append_size [OF assms(2), of at entry "[]"] by simp
      then have "unat (wr_written wr2) + length (append_entry sn at entry []) \<le> sink_limit wr2 n" using 1 by (simp add: sink_limit_def)
      from Cons.IH [OF _ this] show ?case using Cons.prems(1) by (simp add: o)
    qed
  next
    case False
    then have "unat (wr_written wr) + length buffer < unat ?max" using sum by (simp add: word_le_nat_alt not_le)
    then have "unat (wr_written wr) + length (append_entry sn at entry buffer) \<le> sink_limit wr n"
      using append_size [OF assms(2), of at entry buffer] by (simp add: sink_limit_def)
    from Cons.IH [OF Cons.prems(1) this] show ?thesis unfolding write_entries.simps if_not_P [OF False] .
  qed
qed

text \<open>Writing batches one after the other.\<close>

fun write_batches :: "'w sink_sys \<Rightarrow> sink_writer \<Rightarrow> sink_entry list list \<Rightarrow> (('w, 'x) sys_state_scheme, sink_writer) act" where
  "write_batches sn wr [] = ret wr"
| "write_batches sn wr (batch # rest) = bnd (sink_write sn wr batch) (\<lambda>wr. write_batches sn wr rest)"

lemma sink_write_size:
  assumes "sink_opens sn" "records_within sn n" "sink_limit wr n < 2 ^ 64" "unat (wr_written wr) \<le> sink_limit wr n"
  shows "wp (sink_write sn wr batch) (oks (\<lambda>wr'. unat (wr_written wr') \<le> sink_limit wr n \<and> wr_options wr' = wr_options wr)) s"
  using assms(4) by (simp add: sink_write_def wp_rules write_size [OF assms(1-3)])

lemma batches_size:
  assumes "sink_opens sn" "records_within sn n" "sink_limit wr n < 2 ^ 64" "unat (wr_written wr) \<le> sink_limit wr n"
  shows "wp (write_batches sn wr batches) (oks (\<lambda>wr'. unat (wr_written wr') \<le> sink_limit wr n)) s"
  using assms(3-)
proof (induction batches arbitrary: wr s)
  case (Cons batch rest)
  show ?case unfolding write_batches.simps
  proof (rule oks_bnd [OF sink_write_size [OF assms(1,2) Cons.prems]], goal_cases)
    case (1 wr' t)
    then have "sink_limit wr' n = sink_limit wr n" by (simp add: sink_limit_def)
    then show ?case using Cons.IH [of wr' t] Cons.prems 1 by simp
  qed
qed (simp add: wp_rules)

section \<open>Shutdown\<close>

lemma run_batches:
  "\<exists>batches. concat batches = ring \<and> length batches \<le> length ring + 1 \<and> (\<forall>b \<in> set batches. length b \<le> MAX_BATCH_RECORDS) \<and>
     (\<forall>wr. (sink_run sn closed arms wr ring :: (('w, 'x) sys_state_scheme, sink_writer) act) = write_batches sn wr batches)"
proof (induction "length ring" arbitrary: ring arms rule: less_induct)
  case less
  obtain batch ring' stop
    where t: "sink_turn (case arms of [] \<Rightarrow> ArmCancelled | arm # _ \<Rightarrow> arm) closed ring = (batch, ring', stop)"
    by (metis prod_cases3)
  note turn = turn_append [OF t]
  show ?case
  proof (cases stop)
    case True
    then have "(sink_run sn closed arms wr ring :: (('w, 'x) sys_state_scheme, sink_writer) act) = write_batches sn wr [batch]" for wr by (subst sink_run.simps) (simp add: t)
    then show ?thesis using turn True by (intro exI [of _ "[batch]"]) auto
  next
    case False
    have len: "length ring' < length ring" using turn False by auto
    obtain bs where bs: "concat bs = ring'" "length bs \<le> length ring' + 1" "\<forall>b \<in> set bs. length b \<le> MAX_BATCH_RECORDS"
      "\<And>wr. (sink_run sn closed (tl arms) wr ring' :: (('w, 'x) sys_state_scheme, sink_writer) act) = write_batches sn wr bs"
      using less.hyps [OF len, of "tl arms"] by metis
    have "(sink_run sn closed arms wr ring :: (('w, 'x) sys_state_scheme, sink_writer) act) = write_batches sn wr (batch # bs)" for wr
      by (subst sink_run.simps) (simp add: t False bs(4))
    then show ?thesis using turn bs(1-3) len by (intro exI [of _ "batch # bs"]) auto
  qed
qed

section \<open>Properties\<close>




text \<open>A sink whose records are a line of dashes, on a world that counts the bytes written.\<close>

definition dash_sink :: "nat sink_sys" where
  "dash_sink =
     \<lparr>sn_fs = \<lparr>fs_process_id = 7, fs_symlink_metadata = (\<lambda>_ w. (Inr FileDirectory, w)), fs_create_dir_all = (\<lambda>_ w. (Inr (), w)),
        fs_set_permissions = (\<lambda>_ _ w. (Inr (), w)), fs_canonical = (\<lambda>p w. (Inr (Some p), w)), fs_acquire_dir_lock = (\<lambda>_ w. (Inr (), w)),
        fs_validate_absent = (\<lambda>_ w. (Inr (), w)), fs_validate_existing = (\<lambda>_ w. (Inr (), w)), fs_create_new = (\<lambda>_ w. (Inr (), w)),
        fs_write_sync = (\<lambda>_ _ w. (Inr (), w)), fs_read = (\<lambda>_ w. (Inr [], w)), fs_remove_file = (\<lambda>_ w. (Inr (), w)),
        fs_remove_regular = (\<lambda>_ w. (Inr (), w)), fs_move_new = (\<lambda>_ _ w. (Inr (), w)), fs_replace = (\<lambda>_ _ w. (Inr (), w)),
        fs_sync_dir = (\<lambda>_ w. (Inr (), w)), fs_read_dir = (\<lambda>_ w. (Inr [], w))\<rparr>,
      sn_open = (\<lambda>_ w. (Inr (), w)), sn_write_all = (\<lambda>_ b w. (True, w + length b)), sn_flush = (\<lambda>_ w. (True, w)),
      sn_log_json = (\<lambda>_. (''----'', True)), sn_gap_json = (\<lambda>_. (''----'', True)), sn_now = (\<lambda>_. 0)\<rparr>"

definition dash_writer :: sink_writer where
  "dash_writer =
     \<lparr>wr_dir = ''/run/logs'', wr_options = \<lparr>so_max_bytes = 7, so_max_files = 2\<rparr>, wr_file = ''/run/logs/core-000001.jsonl'',
      wr_written = 0, wr_seq = 1\<rparr>"

definition dash_state :: "nat sys_state" where
  "dash_state = \<lparr>ss_world = 0, ss_temp_counter = 0\<rparr>"



end
