(* ===== verification/Spec2Isabelle.thy ===== *)
theory Spec2Isabelle
  imports System Bootstrap Log_Sink
begin

text \<open>
  \<^bold>\<open>nyanpasu-runtime: a verification library.\<close>

  \<^bold>\<open>The program.\<close>  The runtime supervises a proxy core process for a desktop client.
  \<open>crates/nyanpasu-core-manager\<close> owns it.  A control plane (\<open>control/\<close>) admits operations into a bounded,
  idempotent registry and one executor runs them one at a time.  Each runs as a transaction of the manager
  (\<open>manager/\<close>) over the core in its slot, the quarantine of cores not proven dead, the store of runtime configurations
  (\<open>config/runtime_store.rs\<close>), the published status and the DNS override.  The configuration pipeline (\<open>config/\<close>)
  prepares, compares and classifies YAML documents.  An instance (\<open>instance.rs\<close>, \<open>health/\<close>) supervises one process:
  it probes its health, parses its console output (\<open>log.rs\<close>) and stops it with proof of death.  The parsed records
  go to a rolling archive (\<open>log_sink.rs\<close>).

  \<^bold>\<open>Theories.\<close>  Paths are below \<open>crates/nyanpasu-core-manager/src\<close> unless given in full.

  \<^item> \<open>Prelude\<close>: results, byte strings, formatting and parsing of numbers, saturating and checked words.
    \<open>Utf8\<close>: well-formed UTF-8 and character boundaries.  \<open>Paths\<close>: the path functions of \<open>camino\<close> that are used.
  \<^item> \<open>Core_Types\<close>, \<open>Launch_Spec\<close>: epochs, errors and their texts, statuses, options and launch arguments
    (\<open>error.rs\<close>, \<open>state.rs\<close>, \<open>spec.rs\<close>, \<open>kind.rs\<close>).
  \<^item> \<open>Operation_Id\<close>, \<open>Control_Types\<close>, \<open>Registry\<close>, \<open>Executor\<close>: the control plane (\<open>control/mod.rs\<close>,
    \<open>control/executor.rs\<close>).  \<open>ctl_step\<close> interleaves the atomic actions of submitters and executor.
    The lemmas show that every admitted operation is settled by the executor alone, that the registry stays within its
    bound, that results are final and order is kept, and that nothing runs behind a shutdown.
  \<^item> \<open>Yaml\<close>, \<open>Config\<close>, \<open>Config_Patch\<close>, \<open>Mihomo\<close>, \<open>Bootstrap\<close>: canonical documents, their
    differences, preparation of the effective document, classification of a change as patch, reload or switch, and the
    bootstrap document of a graceful switch (\<open>config/mod.rs\<close>, \<open>config/canonical.rs\<close>, \<open>config/mihomo.rs\<close>).
  \<^item> \<open>Capability\<close>, \<open>Health\<close>, \<open>Status\<close>: feature resolution, the health tracker, and the published status as
    a value with its publications (\<open>capability.rs\<close>, \<open>health/mod.rs\<close>, \<open>manager/publish.rs\<close>).
  \<^item> \<open>Effects\<close>: actions on a state with three outcomes, value, error and panic; weakest preconditions; the locale
    \<open>kept\<close> of reflexive and transitive relations that the combinators preserve.
  \<^item> \<open>Runtime_Store\<close>, \<open>Store_Contract\<close>: the configuration store over a file system whose contract is the locale
    \<open>runtime_fs\<close>.  The store refines a map from epochs to bytes, also when any primitive fails.
  \<^item> \<open>Manager_State\<close>, \<open>Dns_Sync\<close>, \<open>Transactions\<close>, \<open>Reconcile\<close>: the manager.  Its record \<open>mgr\<close> is
    \<open>Ctrl\<close> with the watch channels; each transaction is one action with every branch of the source.  At each await
    that the source makes while it holds the control lock, \<open>tick\<close> lets the status forwarder publish.
  \<^item> \<open>Manager_Inv\<close>, \<open>Manager_Safety\<close>, \<open>Manager_Apply\<close>: the invariant and the specification of every
    transaction, proved once in the locale \<open>runtime_backend\<close>, whose law is that a failed stop is reported as
    unconfirmed.  Two ghost fields record which epochs are alive and what was alive at each launch.
  \<^item> \<open>Log_Text\<close>, \<open>Core_Log\<close>, \<open>Log_Correct\<close>: the console parser of the four cores over UTF-8 bytes.  Slicing
    off a character boundary is a panic and has a value.  Frames are bounded, no line is lost, logfmt is read back, and
    no text but one kind of clash-rs line can panic.
  \<^item> \<open>Log_Sink\<close>: the archive writer, its rotation and pruning, and the task that drains the channel.
  \<^item> \<open>Instance\<close>, \<open>Instance_Correct\<close>: the monitor loop as one turn per branch of its \<open>select\<close>, the probe driver,
    readiness, stopping, launching and the configuration check (\<open>instance.rs\<close>, \<open>health/driver.rs\<close>,
    \<open>runtime/process.rs\<close>, \<open>kind.rs\<close>).  \<open>runtime_backend\<close> is interpreted on \<open>process_inner\<close>.
  \<^item> \<open>Manager\<close>: runs of transactions over such processes, with the outside changing in between.
  \<^item> \<open>System\<close>: the control plane executing the manager's transactions.

  \<^bold>\<open>Conventions.\<close>  Names are those of the source, suffixed or prefixed where they clash.  Strings are byte strings;
  \<open>u64\<close> and \<open>u32\<close> values are words, and \<open>usize\<close> counts of things in memory are \<open>nat\<close>.  Errors are values,
  \<open>Inl\<close> or \<open>Err\<close>; a panic is \<open>Panic\<close> or \<open>None\<close> as each theory says.  Code under \<open>cfg(unix)\<close> is modelled, code
  under \<open>cfg(windows)\<close> is not.  Log statements are dropped.

  \<^bold>\<open>Parameters.\<close>  Code outside the repository is an argument: the file system and atomic file operations, the YAML,
  JSON and URL codecs, the clock and calendar, the version probe, the HTTP client of the core, the process supervisor and
  the pid file reaper of \<open>nyanpasu_utils\<close>, and the platform's DNS controller.  \<open>inn_wait_ready\<close> stays a parameter of
  the manager although \<open>instance_wait_ready\<close> models it: waiting may never end, and the manager's statements hold for
  whatever it returns.

  \<^bold>\<open>Atomicity.\<close>  A turn of the monitor loop, an action of the executor and a transaction of the manager (which holds the
  control lock throughout) are atomic.  Between them the outside may change in any way.

  \<^bold>\<open>Bounds and termination.\<close>  No fuel is used.  Loops are structural or have a termination proof; the one loop that may
  wait for ever, \<open>instance_wait_ready\<close>, is a partial function whose value is \<open>None\<close> when it does.

  \<^bold>\<open>Not modelled.\<close>  The HTTP client (\<open>crates/clash-api\<close>), the IPC transport and wire records
  (\<open>nyanpasu_ipc\<close>), the service host (\<open>crates/nyanpasu-service-runtime\<close>, \<open>nyanpasu_service\<close>), the archive reader
  (\<open>crates/nyanpasu-logging\<close>) and Windows security descriptors: they are transport, serialization or system calls around
  the manager.  Cancellation of a caller's future inside a transaction is not modelled either, as the executor runs each
  one in a task of its own.
\<close>

end
